(* ===== verification/Prelude.thy ===== *)
theory Prelude
  imports Main "HOL-Library.List_Lexorder" "HOL-Library.Char_ord"
begin

text \<open>
  Shared vocabulary of the development: the theorem collections, Go slices and maps that
  may be nil, the functions of Go's \<open>strings\<close> and \<open>fmt\<close> packages the sources use, and the
  interface of a first-match search in a list, which the variable and run trigger
  components provide.
\<close>

named_theorems emits_rules \<open>which requests a computation may issue\<close>
named_theorems run_simps \<open>how a computation runs\<close>

section \<open>Slices and maps that may be nil\<close>

text \<open>
  A Go slice or map is nil or allocated; \<open>reflect.DeepEqual\<close> and the JSON encoding tell a
  nil one from an empty one, and writing to a nil map panics. Where the code can observe
  the difference, a slice is a list option with \<open>None\<close> for nil. A map is an association list
  with distinct keys (Go's iteration order is unspecified, so no property may depend on
  the order of the list).
\<close>

type_synonym 'a slice = "'a list option"
type_synonym 'v gomap = "(string \<times> 'v) list option"
type_synonym bytes = "char slice"

definition elems :: "'a slice \<Rightarrow> 'a list" where
  "elems s = (case s of None \<Rightarrow> [] | Some xs \<Rightarrow> xs)"

definition append_slice :: "'a slice \<Rightarrow> 'a \<Rightarrow> 'a slice" where
  "append_slice s x = Some (elems s @ [x])"

lemma elems_simps [simp]:
  "elems None = []" "elems (Some xs) = xs" "elems (append_slice s x) = elems s @ [x]"
  by (simp_all add: elems_def append_slice_def)

fun put :: "(string \<times> 'v) list \<Rightarrow> string \<Rightarrow> 'v \<Rightarrow> (string \<times> 'v) list" where
  "put [] k v = [(k, v)]"
| "put ((k', v') # m) k v = (if k' = k then (k, v) # m else (k', v') # put m k v)"

definition lookup_map :: "'v gomap \<Rightarrow> string \<Rightarrow> 'v option" where
  "lookup_map m k = (case m of None \<Rightarrow> None | Some xs \<Rightarrow> map_of xs k)"

text \<open>The comparison of maps by \<open>reflect.DeepEqual\<close>: same nilness, keys and values.\<close>

definition agree :: "(string \<times> 'v) list \<Rightarrow> (string \<times> 'v) list \<Rightarrow> bool" where
  "agree xs ys \<longleftrightarrow> (\<forall>k \<in> set (map fst (xs @ ys)). map_of xs k = map_of ys k)"

definition deep_equal_map :: "'v gomap \<Rightarrow> 'v gomap \<Rightarrow> bool" where
  "deep_equal_map a b = (case (a, b) of
     (None, None) \<Rightarrow> True
   | (Some xs, Some ys) \<Rightarrow> agree xs ys
   | _ \<Rightarrow> False)"

lemma list_all2_setD: "list_all2 P xs ys \<Longrightarrow> x \<in> set xs \<Longrightarrow> \<exists>y \<in> set ys. P x y"
  by (induction rule: list_all2_induct) auto

lemma map_of_put [simp]: "map_of (put m k v) = (map_of m)(k \<mapsto> v)"
  by (induction m) (auto simp: fun_eq_iff)

lemma set_fst_put [simp]: "fst ` set (put m k v) = insert k (fst ` set m)"
  by (simp flip: dom_map_of_conv_image_fst)

lemma distinct_put: "distinct (map fst m) \<Longrightarrow> distinct (map fst (put m k v))"
  by (induction m) auto

lemma agree_iff: "agree xs ys \<longleftrightarrow> map_of xs = map_of ys"
proof
  assume a: "agree xs ys"
  show "map_of xs = map_of ys"
  proof
    fix k
    show "map_of xs k = map_of ys k"
    proof (cases "k \<in> set (map fst (xs @ ys))")
      case True
      with a show ?thesis by (simp add: agree_def)
    next
      case False
      then have "map_of xs k = None" "map_of ys k = None"
        by (auto simp: map_of_eq_None_iff)
      then show ?thesis by simp
    qed
  qed
qed (simp add: agree_def)

lemma deep_equal_map_refl [simp]: "deep_equal_map m m"
  by (simp add: deep_equal_map_def agree_iff split: option.splits)

lemma deep_equal_map_Some [simp]:
  "deep_equal_map (Some xs) (Some ys) \<longleftrightarrow> map_of xs = map_of ys"
  "\<not> deep_equal_map None (Some ys)"
  "\<not> deep_equal_map (Some xs) None"
  by (simp_all add: deep_equal_map_def agree_iff)

section \<open>Strings\<close>

text \<open>Go strings are byte sequences; a \<open>char\<close> of HOL is a byte.\<close>

definition nl :: string where "nl = [CHR 0x0A]"
definition tab :: string where "tab = [CHR 0x09]"

definition TrimSuffix :: "string \<Rightarrow> string \<Rightarrow> string" where
  "TrimSuffix s suf =
     (if length suf \<le> length s \<and> drop (length s - length suf) s = suf
      then take (length s - length suf) s else s)"

definition HasSuffix :: "string \<Rightarrow> string \<Rightarrow> bool" where
  "HasSuffix s suf \<longleftrightarrow> length suf \<le> length s \<and> drop (length s - length suf) s = suf"

definition ToLower :: "string \<Rightarrow> string" where
  "ToLower s = map (\<lambda>c. if 65 \<le> (of_char c :: nat) \<and> (of_char c :: nat) \<le> 90
                        then char_of ((of_char c :: nat) + 32) else c) s"

definition Join :: "string list \<Rightarrow> string" where
  "Join ss = concat ss"

text \<open>
  \<open>fmt.Sprintf("%q", s)\<close> on bytes: quotes, backslashes and control characters are escaped. Bytes
  from 128 up are kept, which is what Go does with a printable character in UTF-8.
\<close>

definition hex_digit :: "nat \<Rightarrow> char" where
  "hex_digit n = (if n < 10 then char_of (n + 48) else char_of (n + 87))"

definition quote_char :: "char \<Rightarrow> string" where
  "quote_char c =
     (let n = (of_char c :: nat) in
      if n = 34 \<or> n = 92 then [CHR 0x5C, c]
      else if n = 7 then [CHR 0x5C, CHR ''a'']
      else if n = 8 then [CHR 0x5C, CHR ''b'']
      else if n = 9 then [CHR 0x5C, CHR ''t'']
      else if n = 10 then [CHR 0x5C, CHR ''n'']
      else if n = 11 then [CHR 0x5C, CHR ''v'']
      else if n = 12 then [CHR 0x5C, CHR ''f'']
      else if n = 13 then [CHR 0x5C, CHR ''r'']
      else if n < 32 \<or> n = 127 then [CHR 0x5C, CHR ''x'', hex_digit (n div 16), hex_digit (n mod 16)]
      else [c])"

definition quote :: "string \<Rightarrow> string" where
  "quote s = [CHR 0x22] @ concat (map quote_char s) @ [CHR 0x22]"

lemma HasSuffix_iff: "HasSuffix s suf \<longleftrightarrow> (\<exists>p. s = p @ suf)"
proof
  assume a: "HasSuffix s suf"
  have "s = take (length s - length suf) s @ drop (length s - length suf) s" by simp
  with a show "\<exists>p. s = p @ suf" unfolding HasSuffix_def by metis
qed (auto simp: HasSuffix_def)

lemma TrimSuffix_append [simp]: "TrimSuffix (p @ suf) suf = p"
  by (simp add: TrimSuffix_def)

lemma TrimSuffix_other: "\<not> HasSuffix s suf \<Longrightarrow> TrimSuffix s suf = s"
  by (auto simp: TrimSuffix_def HasSuffix_def)

section \<open>The first element with a key\<close>

text \<open>
  Both \<open>find\<close> and \<open>findRT\<close> promise the same thing: the index of the first element with the
  key, or -1. The reconciliation loops rest on this contract only. Inside the locale are
  the two plans every such loop computes, what to delete and what to create, and what
  they guarantee.
\<close>

locale key_search =
  fixes search :: "'a list \<Rightarrow> 'k \<Rightarrow> int"
    and key :: "'a \<Rightarrow> 'k"
  assumes search_nil: "search [] k = -1"
    and search_cons: "search (x # xs) k =
      (if key x = k then 0 else if search xs k < 0 then -1 else search xs k + 1)"
begin

lemma search_neg: "search xs k < 0 \<longleftrightarrow> k \<notin> key ` set xs"
  by (induction xs) (auto simp: search_nil search_cons)

lemma search_neg_eq: "search xs k < 0 \<Longrightarrow> search xs k = -1"
  by (cases xs) (auto simp: search_nil search_cons split: if_splits)

lemma search_bounds: "0 \<le> search xs k \<Longrightarrow> nat (search xs k) < length xs"
  by (induction xs) (auto simp: search_nil search_cons nat_add_distrib split: if_splits)

lemma search_key: "0 \<le> search xs k \<Longrightarrow> key (xs ! nat (search xs k)) = k"
  by (induction xs) (auto simp: search_nil search_cons nat_add_distrib split: if_splits)

lemma search_first:
  "0 \<le> search xs k \<Longrightarrow> i < nat (search xs k) \<Longrightarrow> key (xs ! i) \<noteq> k"
proof (induction xs arbitrary: i)
  case Nil
  then show ?case by (simp add: search_nil)
next
  case (Cons x xs)
  from Cons.prems have kx: "key x \<noteq> k" and s: "0 \<le> search xs k"
    by (auto simp: search_cons split: if_splits)
  show ?case
  proof (cases i)
    case 0
    with kx show ?thesis by simp
  next
    case (Suc j)
    with Cons.prems kx s have "j < nat (search xs k)"
      by (auto simp: search_cons nat_add_distrib split: if_splits)
    with Cons.IH s Suc show ?thesis by simp
  qed
qed

definition extras :: "'a list \<Rightarrow> 'a list \<Rightarrow> 'a list" where
  "extras spec remote = filter (\<lambda>v. search spec (key v) < 0) remote"

definition missing :: "'a list \<Rightarrow> 'a list \<Rightarrow> 'a list" where
  "missing spec remote = filter (\<lambda>v. search remote (key v) < 0) spec"

lemma set_extras: "set (extras spec remote) = {v \<in> set remote. key v \<notin> key ` set spec}"
  by (auto simp: extras_def search_neg)

lemma set_missing: "set (missing spec remote) = {v \<in> set spec. key v \<notin> key ` set remote}"
  by (auto simp: missing_def search_neg)

text \<open>Deleting the extras and creating the missing ones leaves exactly the wanted keys.\<close>

lemma plan_keys:
  "key ` ((set remote - set (extras spec remote)) \<union> set (missing spec remote)) = key ` set spec"
proof -
  have "set remote - set (extras spec remote) = {v \<in> set remote. key v \<in> key ` set spec}"
    by (auto simp: set_extras)
  moreover have "key ` {v \<in> set remote. key v \<in> key ` set spec} = key ` set remote \<inter> key ` set spec"
    by auto
  moreover have "key ` set (missing spec remote) = key ` set spec - key ` set remote"
    by (auto simp: set_missing)
  ultimately show ?thesis by (auto simp only: image_Un)
qed

lemma missing_empty: "missing spec remote = [] \<longleftrightarrow> key ` set spec \<subseteq> key ` set remote"
  unfolding missing_def filter_empty_conv by (auto simp: search_neg)

text \<open>Nothing is planned exactly when both sides have the same keys.\<close>

lemma plan_empty:
  "extras spec remote = [] \<and> missing spec remote = [] \<longleftrightarrow> key ` set spec = key ` set remote"
proof -
  have "extras spec remote = [] \<longleftrightarrow> key ` set remote \<subseteq> key ` set spec"
    unfolding extras_def filter_empty_conv by (auto simp: search_neg)
  with missing_empty show ?thesis by auto
qed

lemma plan_disjoint: "key ` set (extras spec remote) \<inter> key ` set (missing spec remote) = {}"
  by (auto simp: set_extras set_missing)

end

end
