(* ===== verification/Api_Types.thy ===== *)
theory Api_Types
  imports Prelude
begin

text \<open>
  The data of the operator: the custom resource of \<open>api/v1alpha1/workspace_types.go\<close>, the
  objects of the Terraform Cloud client (\<open>vendor/.../go-tfe\<close>) and of Kubernetes that the
  operator reads or writes, and Go's error values. A pointer to a struct that may be nil
  is an option; the pointer slices of the spec hold no nil pointers (the CRD schema
  refuses null items), so they are lists of values. Fields nothing in the operator reads
  or writes are left out of the client's objects.
\<close>

section \<open>Error values\<close>

text \<open>
  Go compares errors by identity: the sentinels of \<open>go-tfe/errors.go\<close> are constructors,
  \<open>errors.New\<close> and \<open>fmt.Errorf\<close> make an \<open>ErrorString\<close>, the API server answers with a
  \<open>StatusError\<close> of a reason and a message, and file operations with a \<open>PathError\<close> that
  tells whether the file did not exist. \<open>DecodeError\<close> is a body that is not the resource
  the call asked for.
\<close>

datatype go_error =
    ErrUnauthorized
  | ErrResourceNotFound
  | ErrRequiredName
  | ErrInvalidName
  | ErrMissingDirectory
  | ErrInvalidWorkspaceID
  | ErrInvalidWorkspaceValue
  | ErrInvalidRunID
  | ErrInvalidOrg
  | ErrInvalidConfigVersionID
  | ErrorString string
  | StatusError string string
  | PathError bool string
  | DecodeError string

fun error_text :: "go_error \<Rightarrow> string" where
  "error_text ErrUnauthorized = ''unauthorized''"
| "error_text ErrResourceNotFound = ''resource not found''"
| "error_text ErrRequiredName = ''name is required''"
| "error_text ErrInvalidName = ''invalid value for name''"
| "error_text ErrMissingDirectory = ''path needs to be an existing directory''"
| "error_text ErrInvalidWorkspaceID = ''invalid value for workspace ID''"
| "error_text ErrInvalidWorkspaceValue = ''invalid value for workspace''"
| "error_text ErrInvalidRunID = ''invalid value for run ID''"
| "error_text ErrInvalidOrg = ''invalid value for organization''"
| "error_text ErrInvalidConfigVersionID = ''invalid value for configuration version ID''"
| "error_text (ErrorString s) = s"
| "error_text (StatusError reason s) = s"
| "error_text (PathError missing s) = s"
| "error_text (DecodeError s) = s"

definition k8s_IsNotFound :: "go_error \<Rightarrow> bool" where
  "k8s_IsNotFound e = (case e of StatusError reason _ \<Rightarrow> reason = ''NotFound'' | _ \<Rightarrow> False)"

definition os_IsNotExist :: "go_error \<Rightarrow> bool" where
  "os_IsNotExist e = (case e of PathError missing _ \<Rightarrow> missing | _ \<Rightarrow> False)"

section \<open>The Workspace custom resource\<close>

record Module =
  m_Source :: string
  m_Version :: string

record VCS =
  vcs_TokenID :: string
  vcs_RepoIdentifier :: string
  vcs_Branch :: string
  vcs_IngressSubmodules :: bool

record OutputSpec =
  os_Key :: string
  os_ModuleOutputName :: string

record OutputStatus =
  out_Key :: string
  out_Value :: string

text \<open>A key of a ConfigMap or Secret, and the two sources of \<open>corev1.EnvVarSource\<close> the operator reads.\<close>

record KeySelector =
  sel_Name :: string
  sel_Key :: string

record EnvVarSource =
  ConfigMapKeyRef :: "KeySelector option"
  SecretKeyRef :: "KeySelector option"

record Variable =
  v_Key :: string
  v_Value :: string
  v_ValueFrom :: "EnvVarSource option"
  v_HCL :: bool
  v_Sensitive :: bool
  v_EnvironmentVariable :: bool

record Notification =
  n_Type :: string
  n_Enabled :: bool
  n_Name :: string
  n_URL :: string
  n_Token :: string
  n_Triggers :: "string slice"
  n_Recipients :: "string slice"
  n_Users :: "string slice"

record RunTrigger =
  rt_SourceableName :: string

record WorkspaceSpec =
  sp_Organization :: string
  sp_Module :: "Module option"
  sp_VCS :: "VCS option"
  sp_Variables :: "Variable list"
  sp_RunTriggers :: "RunTrigger list"
  sp_SecretsMountPath :: string
  sp_SSHKeyID :: string
  sp_Outputs :: "OutputSpec list"
  sp_TerraformVersion :: string
  sp_AgentPoolID :: string
  sp_Notifications :: "Notification list"
  sp_OmitNamespacePrefix :: bool
  sp_AgentPoolName :: string

record WorkspaceStatus =
  st_RunStatus :: string
  st_WorkspaceID :: string
  st_RunID :: string
  st_ConfigVersionID :: string
  st_Outputs :: "OutputStatus slice"

text \<open>The metadata the operator uses of \<open>metav1.ObjectMeta\<close>.\<close>

record OwnerReference =
  or_APIVersion :: string
  or_Kind :: string
  or_Name :: string
  or_UID :: string
  or_Controller :: bool

record ObjectMeta =
  om_Name :: string
  om_Namespace :: string
  om_UID :: string
  om_Finalizers :: "string list"
  om_DeletionTimestamp :: "string option"
  om_OwnerReferences :: "OwnerReference list"

record Workspace =
  Meta :: ObjectMeta
  Spec :: WorkspaceSpec
  Status :: WorkspaceStatus

abbreviation ws_Name :: "Workspace \<Rightarrow> string" where
  "ws_Name w \<equiv> om_Name (Meta w)"

abbreviation ws_Namespace :: "Workspace \<Rightarrow> string" where
  "ws_Namespace w \<equiv> om_Namespace (Meta w)"

abbreviation set_status :: "(WorkspaceStatus \<Rightarrow> WorkspaceStatus) \<Rightarrow> Workspace \<Rightarrow> Workspace" where
  "set_status f w \<equiv> w\<lparr>Status := f (Status w)\<rparr>"

record ConfigMap =
  cm_Meta :: ObjectMeta
  cm_Data :: "string gomap"

record Secret =
  sec_Meta :: ObjectMeta
  sec_Data :: "bytes gomap"

record NamespacedName =
  nn_Namespace :: string
  nn_Name :: string

section \<open>Objects of the Terraform Cloud client\<close>

record SSHKey =
  ssh_ID :: string
  ssh_Name :: string

record AgentPool =
  ap_ID :: string
  ap_Name :: string

record Run =
  run_ID :: string
  run_Status :: string

record tfc_Workspace =
  tw_ID :: string
  tw_Name :: string
  tw_AgentPoolID :: string
  tw_TerraformVersion :: string
  tw_SSHKey :: "SSHKey option"
  tw_CurrentRun :: "Run option"

definition new_tfc_Workspace :: "string \<Rightarrow> tfc_Workspace" where
  "new_tfc_Workspace ident = \<lparr>tw_ID = ident, tw_Name = '''', tw_AgentPoolID = '''',
     tw_TerraformVersion = '''', tw_SSHKey = None, tw_CurrentRun = None\<rparr>"

record tfc_Variable =
  tv_ID :: string
  tv_Key :: string
  tv_Value :: string
  tv_Category :: string
  tv_HCL :: bool
  tv_Sensitive :: bool
  tv_Workspace :: "tfc_Workspace option"

record tfc_RunTrigger =
  trt_ID :: string
  trt_SourceableName :: string
  trt_WorkspaceName :: string

record ConfigurationVersion =
  cv_ID :: string
  cv_Status :: string
  cv_UploadURL :: string

record NotificationConfiguration =
  nc_ID :: string
  nc_DestinationType :: string
  nc_Enabled :: bool
  nc_Name :: string
  nc_Token :: string
  nc_Triggers :: "string slice"
  nc_URL :: string
  nc_EmailAddresses :: "string slice"
  nc_EmailUsers :: "string list"

text \<open>The options of the calls; a pointer field is an option, nil being "not sent".\<close>

record VCSRepoOptions =
  vro_Branch :: "string option"
  vro_Identifier :: "string option"
  vro_IngressSubmodules :: "bool option"
  vro_OAuthTokenID :: "string option"

record WorkspaceCreateOptions =
  wco_AgentPoolID :: "string option"
  wco_AutoApply :: "bool option"
  wco_ExecutionMode :: "string option"
  wco_Name :: "string option"
  wco_Operations :: "bool option"
  wco_TerraformVersion :: "string option"
  wco_VCSRepo :: "VCSRepoOptions option"

record WorkspaceUpdateOptions =
  wuo_AgentPoolID :: "string option"
  wuo_ExecutionMode :: "string option"
  wuo_Name :: "string option"
  wuo_Operations :: "bool option"
  wuo_TerraformVersion :: "string option"

definition no_update :: WorkspaceUpdateOptions where
  "no_update = \<lparr>wuo_AgentPoolID = None, wuo_ExecutionMode = None, wuo_Name = None,
     wuo_Operations = None, wuo_TerraformVersion = None\<rparr>"

record VariableCreateOptions =
  vco_Key :: "string option"
  vco_Value :: "string option"
  vco_Category :: "string option"
  vco_HCL :: "bool option"
  vco_Sensitive :: "bool option"

record VariableUpdateOptions =
  vuo_Key :: "string option"
  vuo_Value :: "string option"
  vuo_HCL :: "bool option"
  vuo_Sensitive :: "bool option"

record RunCreateOptions =
  rco_IsDestroy :: "bool option"
  rco_Message :: "string option"
  rco_ConfigurationVersion :: "ConfigurationVersion option"
  rco_Workspace :: "tfc_Workspace option"

record NotificationConfigurationCreateOptions =
  nco_DestinationType :: "string option"
  nco_Enabled :: "bool option"
  nco_Name :: "string option"
  nco_Token :: "string option"
  nco_Triggers :: "string slice"
  nco_URL :: "string option"
  nco_EmailAddresses :: "string slice"
  nco_EmailUsers :: "string list"

section \<open>An example\<close>

text \<open>The resource of \<open>terraform_test.go\<close>, used by the examples of the development.\<close>

definition plain_variable :: "string \<Rightarrow> string \<Rightarrow> Variable" where
  "plain_variable key val = \<lparr>v_Key = key, v_Value = val, v_ValueFrom = None, v_HCL = False,
     v_Sensitive = False, v_EnvironmentVariable = False\<rparr>"

definition example_workspace :: Workspace where
  "example_workspace = \<lparr>
     Meta = \<lparr>om_Name = ''hello'', om_Namespace = ''prod'', om_UID = ''uid'', om_Finalizers = [],
       om_DeletionTimestamp = None, om_OwnerReferences = []\<rparr>,
     Spec = \<lparr>sp_Organization = ''world'',
       sp_Module = Some \<lparr>m_Source = ''my_source'', m_Version = ''0.3.2''\<rparr>, sp_VCS = None,
       sp_Variables = [plain_variable ''some_var'' ''here'', plain_variable ''hello'' ''world''],
       sp_RunTriggers = [], sp_SecretsMountPath = ''/tmp'', sp_SSHKeyID = '''', sp_Outputs = [],
       sp_TerraformVersion = '''', sp_AgentPoolID = '''', sp_Notifications = [],
       sp_OmitNamespacePrefix = False, sp_AgentPoolName = ''''\<rparr>,
     Status = \<lparr>st_RunStatus = '''', st_WorkspaceID = '''', st_RunID = '''', st_ConfigVersionID = '''',
       st_Outputs = None\<rparr>\<rparr>"

end
