(* ===== verification/Runtime.thy ===== *)
theory Runtime
  imports Api_Types
begin

text \<open>
  How the operator runs. Everything outside the process (the Terraform Cloud API, the
  Kubernetes API server and its event recorder, the file system, the clock) is one
  parameter \<open>env\<close>: it answers a request with an error or a response, and the answer may
  depend on the whole history of earlier requests and answers, so nothing is assumed
  about concurrent users of the same services. A computation of type \<open>'a go\<close> gets the
  environment, the history and the mutable fields of the shared Terraform Cloud client,
  and returns the Go function's outcome, the client's fields and the events it added;
  \<open>None\<close> is a call that never returns. An outcome is a value, a non-nil error or a panic.
\<close>

section \<open>Requests, responses and the environment\<close>

text \<open>The requests of each service of the Terraform Cloud client, of Kubernetes and of the host.\<close>

datatype workspaces_request =
    Workspace_Read string string
  | Workspace_ReadByID string
  | Workspace_Create string WorkspaceCreateOptions
  | Workspace_Update string string WorkspaceUpdateOptions
  | Workspace_DeleteByID string
  | Workspace_AssignSSHKey string string
  | Workspace_UnassignSSHKey string

datatype variables_request =
    Variable_List string nat
  | Variable_Create string VariableCreateOptions
  | Variable_Update string string VariableUpdateOptions
  | Variable_Delete string string

datatype runs_request =
    Run_List string
  | Run_Create RunCreateOptions
  | Run_Read string
  | Run_ForceCancel string "string option"

datatype run_triggers_request =
    RunTrigger_List string string
  | RunTrigger_Create string tfc_Workspace
  | RunTrigger_Delete string

datatype config_versions_request =
    ConfigVersion_List string
  | ConfigVersion_Create string "bool option" "bool option"
  | ConfigVersion_Read string
  | ConfigVersion_Put string string

datatype notifications_request =
    Notification_List string
  | Notification_Create string NotificationConfigurationCreateOptions
  | Notification_Delete string

datatype state_versions_request =
    StateVersion_Current string
  | StateVersion_Download string

datatype organization_request =
    Organization_Read string
  | SSHKey_List string
  | AgentPool_List string nat

datatype kube_request =
    Get_Workspace NamespacedName
  | Update_Workspace Workspace
  | UpdateStatus_Workspace Workspace
  | Get_ConfigMap NamespacedName
  | Create_ConfigMap ConfigMap
  | Update_ConfigMap ConfigMap
  | Get_Secret NamespacedName
  | Create_Secret Secret
  | Update_Secret Secret
  | Record_Event Workspace string string string

datatype host_request =
    Stat string
  | Mkdir string
  | ReadFile string
  | WriteFile string string
  | Pack string
  | Sleep nat

datatype request =
    is_Organizations: Organizations organization_request
  | is_Workspaces: Workspaces workspaces_request
  | is_Variables: Variables variables_request
  | is_Runs: Runs runs_request
  | is_RunTriggers: RunTriggers run_triggers_request
  | is_ConfigVersions: ConfigVersions config_versions_request
  | is_Notifications: Notifications notifications_request
  | is_StateVersions: StateVersions state_versions_request
  | is_Kube: Kube kube_request
  | is_Host: Host host_request

datatype response =
    R_None
  | R_Workspace tfc_Workspace
  | R_SSHKeys "SSHKey list"
  | R_AgentPools "AgentPool list"
  | R_Variables "tfc_Variable list"
  | R_Runs "Run list"
  | R_Run Run
  | R_RunTriggers "tfc_RunTrigger list"
  | R_ConfigVersions "ConfigurationVersion list"
  | R_ConfigVersion ConfigurationVersion
  | R_Notifications "NotificationConfiguration list"
  | R_StateVersion string
  | R_Bytes string
  | R_Resource Workspace
  | R_ConfigMap ConfigMap
  | R_Secret Secret
  | R_FileInfo bool

type_synonym event = "request \<times> (go_error + response)"
type_synonym trace = "event list"
type_synonym env = "trace \<Rightarrow> request \<Rightarrow> go_error + response"

text \<open>The fields of \<open>TerraformCloudClient\<close> that the reconciler sets before every use.\<close>

record tfclient =
  tf_Organization :: string
  tf_SecretsMountPath :: string

datatype 'a outcome = Ok 'a | Err go_error | Panic string

type_synonym 'a go = "env \<Rightarrow> trace \<Rightarrow> tfclient \<Rightarrow> ('a outcome \<times> tfclient \<times> trace) option"

section \<open>Computations\<close>

definition ret :: "'a \<Rightarrow> 'a go" where
  "ret a = (\<lambda>E h t. Some (Ok a, t, []))"

definition fail :: "go_error \<Rightarrow> 'a go" where
  "fail e = (\<lambda>E h t. Some (Err e, t, []))"

definition panic :: "string \<Rightarrow> 'a go" where
  "panic s = (\<lambda>E h t. Some (Panic s, t, []))"

text \<open>
  \<open>andThen m k\<close> is Go's \<open>x, err := m; if err != nil { return err }; k x\<close>; \<open>attempt m\<close> is
  \<open>x, err := m\<close> with the error kept as a value.
\<close>

definition andThen :: "'a go \<Rightarrow> ('a \<Rightarrow> 'b go) \<Rightarrow> 'b go" where
  "andThen m k = (\<lambda>E h t. case m E h t of
     None \<Rightarrow> None
   | Some (Ok a, t1, ev1) \<Rightarrow>
       (case k a E (h @ ev1) t1 of
          None \<Rightarrow> None
        | Some (r, t2, ev2) \<Rightarrow> Some (r, t2, ev1 @ ev2))
   | Some (Err e, t1, ev1) \<Rightarrow> Some (Err e, t1, ev1)
   | Some (Panic s, t1, ev1) \<Rightarrow> Some (Panic s, t1, ev1))"

definition attempt :: "'a go \<Rightarrow> (go_error + 'a) go" where
  "attempt m = (\<lambda>E h t. case m E h t of
     None \<Rightarrow> None
   | Some (Ok a, t1, ev1) \<Rightarrow> Some (Ok (Inr a), t1, ev1)
   | Some (Err e, t1, ev1) \<Rightarrow> Some (Ok (Inl e), t1, ev1)
   | Some (Panic s, t1, ev1) \<Rightarrow> Some (Panic s, t1, ev1))"

definition get_client :: "tfclient go" where
  "get_client = (\<lambda>E h t. Some (Ok t, t, []))"

definition set_client :: "(tfclient \<Rightarrow> tfclient) \<Rightarrow> unit go" where
  "set_client f = (\<lambda>E h t. Some (Ok (), f t, []))"

text \<open>A request whose response is decoded as the resource the call asks for.\<close>

definition call :: "request \<Rightarrow> (response \<Rightarrow> 'a option) \<Rightarrow> 'a go" where
  "call q decode = (\<lambda>E h t. let r = E h q in
     Some (case r of
             Inl e \<Rightarrow> Err e
           | Inr x \<Rightarrow> (case decode x of None \<Rightarrow> Err (DecodeError ''unexpected resource'') | Some a \<Rightarrow> Ok a),
           t, [(q, r)]))"

text \<open>A request whose response is not read, and one whose error is not read either.\<close>

definition perform :: "request \<Rightarrow> unit go" where
  "perform q = call q (\<lambda>_. Some ())"

definition notify :: "request \<Rightarrow> unit go" where
  "notify q = andThen (attempt (perform q)) (\<lambda>_. ret ())"

text \<open>\<open>for _, x := range xs { if err := f(x); err != nil { return err } }\<close>\<close>

primrec each :: "('a \<Rightarrow> unit go) \<Rightarrow> 'a list \<Rightarrow> unit go" where
  "each f [] = ret ()"
| "each f (x # xs) = andThen (f x) (\<lambda>_. each f xs)"

text \<open>A loop that rewrites the elements of a slice of pointers in order.\<close>

primrec rewrite_each :: "('a \<Rightarrow> 'a go) \<Rightarrow> 'a list \<Rightarrow> 'a list go" where
  "rewrite_each f [] = ret []"
| "rewrite_each f (x # xs) = andThen (f x) (\<lambda>y. andThen (rewrite_each f xs) (\<lambda>ys. ret (y # ys)))"

lemmas go_defs [run_simps] = ret_def fail_def panic_def andThen_def attempt_def get_client_def
  set_client_def call_def perform_def notify_def

section \<open>Decoders\<close>

fun as_workspace :: "response \<Rightarrow> tfc_Workspace option" where
  "as_workspace (R_Workspace w) = Some w"
| "as_workspace _ = None"

fun as_sshkeys :: "response \<Rightarrow> SSHKey list option" where
  "as_sshkeys (R_SSHKeys x) = Some x"
| "as_sshkeys _ = None"

fun as_agentpools :: "response \<Rightarrow> AgentPool list option" where
  "as_agentpools (R_AgentPools x) = Some x"
| "as_agentpools _ = None"

fun as_variables :: "response \<Rightarrow> tfc_Variable list option" where
  "as_variables (R_Variables x) = Some x"
| "as_variables _ = None"

fun as_runs :: "response \<Rightarrow> Run list option" where
  "as_runs (R_Runs x) = Some x"
| "as_runs _ = None"

fun as_run :: "response \<Rightarrow> Run option" where
  "as_run (R_Run x) = Some x"
| "as_run _ = None"

fun as_runtriggers :: "response \<Rightarrow> tfc_RunTrigger list option" where
  "as_runtriggers (R_RunTriggers x) = Some x"
| "as_runtriggers _ = None"

fun as_configversions :: "response \<Rightarrow> ConfigurationVersion list option" where
  "as_configversions (R_ConfigVersions x) = Some x"
| "as_configversions _ = None"

fun as_configversion :: "response \<Rightarrow> ConfigurationVersion option" where
  "as_configversion (R_ConfigVersion x) = Some x"
| "as_configversion _ = None"

fun as_notifications :: "response \<Rightarrow> NotificationConfiguration list option" where
  "as_notifications (R_Notifications x) = Some x"
| "as_notifications _ = None"

fun as_stateversion :: "response \<Rightarrow> string option" where
  "as_stateversion (R_StateVersion x) = Some x"
| "as_stateversion _ = None"

fun as_bytes :: "response \<Rightarrow> string option" where
  "as_bytes (R_Bytes x) = Some x"
| "as_bytes _ = None"

fun as_resource :: "response \<Rightarrow> Workspace option" where
  "as_resource (R_Resource x) = Some x"
| "as_resource _ = None"

fun as_configmap :: "response \<Rightarrow> ConfigMap option" where
  "as_configmap (R_ConfigMap x) = Some x"
| "as_configmap _ = None"

fun as_secret :: "response \<Rightarrow> Secret option" where
  "as_secret (R_Secret x) = Some x"
| "as_secret _ = None"

fun as_fileinfo :: "response \<Rightarrow> bool option" where
  "as_fileinfo (R_FileInfo x) = Some x"
| "as_fileinfo _ = None"

section \<open>Scripted environments\<close>

text \<open>An environment that gives fixed answers in order, for the examples.\<close>

definition script :: "(go_error + response) list \<Rightarrow> env" where
  "script answers = (\<lambda>h q. if length h < length answers then answers ! length h else Inr R_None)"

definition example_client :: tfclient where
  "example_client = \<lparr>tf_Organization = ''world'', tf_SecretsMountPath = ''/tmp/secrets''\<rparr>"

end
