(* ===== verification/Effects.thy ===== *)
theory Effects
  imports Runtime
begin

text \<open>
  Reasoning about computations: inversion of a run of a sequence, the monad laws, which
  requests a computation may issue (\<open>emits\<close>), that a computation returns (\<open>returns\<close>), and
  what a loop that got through has requested.
\<close>

section \<open>Inversion of runs\<close>

lemma andThen_SomeE:
  assumes "andThen m k E h t = Some (r, t', ev)"
  obtains (ok) a t1 ev1 ev2 where "m E h t = Some (Ok a, t1, ev1)"
      "k a E (h @ ev1) t1 = Some (r, t', ev2)" "ev = ev1 @ ev2"
    | (error) e where "m E h t = Some (Err e, t', ev)" "r = Err e"
    | (crash) s where "m E h t = Some (Panic s, t', ev)" "r = Panic s"
  using assms by (auto simp: andThen_def split: option.splits outcome.splits)

lemma andThen_OkE:
  assumes "andThen m k E h t = Some (Ok b, t', ev)"
  obtains a t1 ev1 ev2 where "m E h t = Some (Ok a, t1, ev1)"
    "k a E (h @ ev1) t1 = Some (Ok b, t', ev2)" "ev = ev1 @ ev2"
  using assms by (auto elim!: andThen_SomeE)

lemma ret_Some [simp]: "ret a E h t = Some (r, t', ev) \<longleftrightarrow> r = Ok a \<and> t' = t \<and> ev = []"
  by (auto simp: ret_def)

lemma fail_Some [simp]: "fail e E h t = Some (r, t', ev) \<longleftrightarrow> r = Err e \<and> t' = t \<and> ev = []"
  by (auto simp: fail_def)

lemma panic_Some [simp]: "panic s E h t = Some (r, t', ev) \<longleftrightarrow> r = Panic s \<and> t' = t \<and> ev = []"
  by (auto simp: panic_def)

lemma get_client_Some [simp]:
  "get_client E h t = Some (r, t', ev) \<longleftrightarrow> r = Ok t \<and> t' = t \<and> ev = []"
  by (auto simp: get_client_def)

lemma set_client_Some [simp]:
  "set_client f E h t = Some (r, t', ev) \<longleftrightarrow> r = Ok () \<and> t' = f t \<and> ev = []"
  by (auto simp: set_client_def)

lemma attempt_Some:
  "attempt m E h t = Some (r, t', ev) \<longleftrightarrow>
     (\<exists>a. r = Ok (Inr a) \<and> m E h t = Some (Ok a, t', ev)) \<or>
     (\<exists>e. r = Ok (Inl e) \<and> m E h t = Some (Err e, t', ev)) \<or>
     (\<exists>s. r = Panic s \<and> m E h t = Some (Panic s, t', ev))"
  by (auto simp: attempt_def split: option.splits outcome.splits)

lemma call_Some:
  "call q dec E h t = Some (r, t', ev) \<longleftrightarrow> t' = t \<and> ev = [(q, E h q)] \<and>
     r = (case E h q of Inl e \<Rightarrow> Err e
          | Inr x \<Rightarrow> (case dec x of None \<Rightarrow> Err (DecodeError ''unexpected resource'') | Some a \<Rightarrow> Ok a))"
  by (auto simp: call_def Let_def)

lemma call_Ok:
  "call q dec E h t = Some (Ok a, t', ev) \<longleftrightarrow>
     t' = t \<and> ev = [(q, E h q)] \<and> (\<exists>x. E h q = Inr x \<and> dec x = Some a)"
  by (auto simp: call_Some split: sum.splits option.splits)

lemma perform_Ok:
  "perform q E h t = Some (Ok a, t', ev) \<longleftrightarrow> t' = t \<and> ev = [(q, E h q)] \<and> (\<exists>x. E h q = Inr x)"
  by (auto simp: perform_def call_Ok)

lemma notify_Some [simp]:
  "notify q E h t = Some (r, t', ev) \<longleftrightarrow> r = Ok () \<and> t' = t \<and> ev = [(q, E h q)]"
  by (auto simp: notify_def andThen_def attempt_def perform_def call_def Let_def ret_def
      split: sum.splits)

lemma andThen_attempt_OkE:
  assumes "andThen (attempt m) k E h t = Some (Ok b, t', ev)"
  obtains (success) a t1 ev1 ev2 where "m E h t = Some (Ok a, t1, ev1)"
      "k (Inr a) E (h @ ev1) t1 = Some (Ok b, t', ev2)" "ev = ev1 @ ev2"
    | (failure) e t1 ev1 ev2 where "m E h t = Some (Err e, t1, ev1)"
      "k (Inl e) E (h @ ev1) t1 = Some (Ok b, t', ev2)" "ev = ev1 @ ev2"
  using assms by (auto elim!: andThen_OkE simp: attempt_Some)

text \<open>Running a sequence step by step.\<close>

lemma andThen_run:
  "m E h t = Some (Ok a, t1, ev1) \<Longrightarrow> \<exists>ev. k a E (h @ ev1) t1 = Some (r, t2, ev) \<Longrightarrow>
   \<exists>ev. andThen m k E h t = Some (r, t2, ev)"
  by (auto simp: andThen_def)

lemma ret_run: "ret a E h t = Some (Ok a, t, [])" and fail_run: "fail e E h t = Some (Err e, t, [])"
  by simp_all

section \<open>Monad laws\<close>

lemma andThen_ret [simp]: "andThen (ret a) k = k a"
  by (auto simp: andThen_def ret_def fun_eq_iff split: option.splits)

lemma andThen_fail [simp]: "andThen (fail e) k = fail e"
  by (auto simp: andThen_def fail_def fun_eq_iff)

lemma andThen_panic [simp]: "andThen (panic s) k = panic s"
  by (auto simp: andThen_def panic_def fun_eq_iff)

lemma andThen_get_client [simp]: "andThen get_client k E h t = k t E h t"
  by (auto simp: andThen_def get_client_def split: option.split)

lemma andThen_ret_right [simp]: "andThen m ret = m"
  by (auto simp: andThen_def ret_def fun_eq_iff split: option.splits outcome.splits)

lemma andThen_assoc [simp]: "andThen (andThen m f) g = andThen m (\<lambda>x. andThen (f x) g)"
  by (auto simp: andThen_def fun_eq_iff split: option.splits outcome.splits)

lemma each_run:
  assumes "\<And>x h. x \<in> set xs \<Longrightarrow> \<exists>ev. f x E h t = Some (Ok (), t, ev)"
  shows "\<exists>ev. each f xs E h t = Some (Ok (), t, ev)"
  using assms
proof (induction xs arbitrary: h)
  case (Cons x xs)
  from Cons.prems [of x h] obtain ev where "f x E h t = Some (Ok (), t, ev)" by auto
  moreover from Cons.IH [of "h @ ev"] Cons.prems have "\<exists>ev'. each f xs E (h @ ev) t = Some (Ok (), t, ev')" by simp
  ultimately show ?case by (simp add: andThen_run)
qed simp

lemma each_append: "each f (xs @ ys) = andThen (each f xs) (\<lambda>_. each f ys)"
  by (induction xs) auto

lemma each_filter:
  "each (\<lambda>x. if P x then f x else ret ()) xs = each f (filter P xs)"
  by (induction xs) auto

section \<open>The requests a computation issues\<close>

definition emits :: "(request \<Rightarrow> bool) \<Rightarrow> 'a go \<Rightarrow> bool" where
  "emits P m \<longleftrightarrow> (\<forall>E h t r t' ev. m E h t = Some (r, t', ev) \<longrightarrow> (\<forall>e \<in> set ev. P (fst e)))"

lemma emitsI:
  "(\<And>E h t r t' ev e. m E h t = Some (r, t', ev) \<Longrightarrow> e \<in> set ev \<Longrightarrow> P (fst e)) \<Longrightarrow> emits P m"
  unfolding emits_def by blast

lemma emitsD: "emits P m \<Longrightarrow> m E h t = Some (r, t', ev) \<Longrightarrow> e \<in> set ev \<Longrightarrow> P (fst e)"
  unfolding emits_def by blast

lemma emits_mono: "emits P m \<Longrightarrow> (\<And>q. P q \<Longrightarrow> Q q) \<Longrightarrow> emits Q m"
  unfolding emits_def by blast

lemma emits_ret [emits_rules]: "emits P (ret a)"
  by (auto simp: emits_def)

lemma emits_fail [emits_rules]: "emits P (fail e)"
  by (auto simp: emits_def)

lemma emits_panic [emits_rules]: "emits P (panic s)"
  by (auto simp: emits_def)

lemma emits_get_client [emits_rules]: "emits P get_client"
  by (auto simp: emits_def)

lemma emits_set_client [emits_rules]: "emits P (set_client f)"
  by (auto simp: emits_def)

lemma emits_call [emits_rules]: "P q \<Longrightarrow> emits P (call q dec)"
  by (auto simp: emits_def call_Some)

lemma emits_perform [emits_rules]: "P q \<Longrightarrow> emits P (perform q)"
  by (simp add: perform_def emits_call)

lemma emits_andThen [emits_rules]:
  assumes m: "emits P m" and k: "\<And>a. emits P (k a)"
  shows "emits P (andThen m k)"
proof (rule emitsI)
  fix E h t r t' ev e
  assume run: "andThen m k E h t = Some (r, t', ev)" and e: "e \<in> set ev"
  from run show "P (fst e)"
    by (cases rule: andThen_SomeE) (use e in \<open>auto dest: emitsD [OF m] emitsD [OF k]\<close>)
qed

lemma emits_attempt [emits_rules]: "emits P m \<Longrightarrow> emits P (attempt m)"
  by (rule emitsI) (auto simp: attempt_Some dest: emitsD)

lemma emits_notify [emits_rules]: "P q \<Longrightarrow> emits P (notify q)"
  by (auto simp: emits_def)

lemma emits_if [emits_rules]:
  "(b \<Longrightarrow> emits P m) \<Longrightarrow> (\<not> b \<Longrightarrow> emits P n) \<Longrightarrow> emits P (if b then m else n)"
  by simp

lemma emits_option [emits_rules]:
  "(x = None \<Longrightarrow> emits P m) \<Longrightarrow> (\<And>y. x = Some y \<Longrightarrow> emits P (n y)) \<Longrightarrow>
   emits P (case x of None \<Rightarrow> m | Some y \<Rightarrow> n y)"
  by (cases x) auto

lemma emits_sum [emits_rules]:
  "(\<And>e. x = Inl e \<Longrightarrow> emits P (m e)) \<Longrightarrow> (\<And>y. x = Inr y \<Longrightarrow> emits P (n y)) \<Longrightarrow>
   emits P (case x of Inl e \<Rightarrow> m e | Inr y \<Rightarrow> n y)"
  by (cases x) auto

lemma emits_Let [emits_rules]: "emits P (f x) \<Longrightarrow> emits P (let y = x in f y)"
  by simp

lemma emits_prod [emits_rules]:
  "(\<And>a b. x = (a, b) \<Longrightarrow> emits P (f a b)) \<Longrightarrow> emits P (case x of (a, b) \<Rightarrow> f a b)"
  by (cases x) auto

lemma emits_each [emits_rules]: "(\<And>x. x \<in> set xs \<Longrightarrow> emits P (f x)) \<Longrightarrow> emits P (each f xs)"
  by (induction xs) (auto intro!: emits_ret emits_andThen)

lemma emits_rewrite_each [emits_rules]:
  "(\<And>x. x \<in> set xs \<Longrightarrow> emits P (f x)) \<Longrightarrow> emits P (rewrite_each f xs)"
  by (induction xs) (auto intro!: emits_ret emits_andThen)

lemma emits_True [simp]: "emits (\<lambda>_. True) m"
  by (simp add: emits_def)

section \<open>Computations that return\<close>

definition returns :: "'a go \<Rightarrow> bool" where
  "returns m \<longleftrightarrow> (\<forall>E h t. \<exists>r t' ev. m E h t = Some (r, t', ev))"

lemma returnsD: "returns m \<Longrightarrow> \<exists>r t' ev. m E h t = Some (r, t', ev)"
  by (simp add: returns_def)

named_theorems returns_rules \<open>which computations return\<close>

lemma returns_basic [returns_rules]:
  "returns (ret a)" "returns (fail e)" "returns (panic s)" "returns get_client"
  "returns (set_client f)" "returns (call q dec)" "returns (perform q)" "returns (notify q)"
  by (auto simp: returns_def ret_def fail_def panic_def get_client_def set_client_def call_def
      perform_def notify_def andThen_def attempt_def Let_def split: sum.splits option.splits)

lemma returns_andThen [returns_rules]:
  assumes m: "returns m" and k: "\<And>a. returns (k a)"
  shows "returns (andThen m k)"
  unfolding returns_def
proof (intro allI)
  fix E h t
  from returnsD [OF m] obtain r t1 ev1 where run: "m E h t = Some (r, t1, ev1)" by blast
  show "\<exists>r t' ev. andThen m k E h t = Some (r, t', ev)"
  proof (cases r)
    case (Ok a)
    from returnsD [OF k] obtain r2 t2 ev2 where "k a E (h @ ev1) t1 = Some (r2, t2, ev2)" by blast
    with run Ok show ?thesis by (simp add: andThen_def)
  qed (use run in \<open>auto simp: andThen_def\<close>)
qed

lemma returns_attempt [returns_rules]: "returns m \<Longrightarrow> returns (attempt m)"
  by (fastforce simp: returns_def attempt_def split: option.splits outcome.splits)

lemma returns_if [returns_rules]:
  "(b \<Longrightarrow> returns m) \<Longrightarrow> (\<not> b \<Longrightarrow> returns n) \<Longrightarrow> returns (if b then m else n)"
  by simp

lemma returns_option [returns_rules]:
  "(x = None \<Longrightarrow> returns m) \<Longrightarrow> (\<And>y. x = Some y \<Longrightarrow> returns (n y)) \<Longrightarrow>
   returns (case x of None \<Rightarrow> m | Some y \<Rightarrow> n y)"
  by (cases x) auto

lemma returns_sum [returns_rules]:
  "(\<And>e. x = Inl e \<Longrightarrow> returns (m e)) \<Longrightarrow> (\<And>y. x = Inr y \<Longrightarrow> returns (n y)) \<Longrightarrow>
   returns (case x of Inl e \<Rightarrow> m e | Inr y \<Rightarrow> n y)"
  by (cases x) auto

lemma returns_prod [returns_rules]:
  "(\<And>a b. x = (a, b) \<Longrightarrow> returns (f a b)) \<Longrightarrow> returns (case x of (a, b) \<Rightarrow> f a b)"
  by (cases x) auto

lemma returns_Let [returns_rules]: "returns (f x) \<Longrightarrow> returns (let y = x in f y)"
  by simp

lemma returns_each [returns_rules]: "(\<And>x. x \<in> set xs \<Longrightarrow> returns (f x)) \<Longrightarrow> returns (each f xs)"
  by (induction xs) (auto intro!: returns_rules)

lemma returns_rewrite_each [returns_rules]:
  "(\<And>x. x \<in> set xs \<Longrightarrow> returns (f x)) \<Longrightarrow> returns (rewrite_each f xs)"
  by (induction xs) (auto intro!: returns_rules)

section \<open>Loops over requests\<close>

text \<open>A loop that got through issued the requests of every element, in order.\<close>

lemma each_Ok_set:
  assumes "each f xs E h t = Some (Ok u, t', ev)" and "x \<in> set xs"
  shows "\<exists>h1 t1 t2 ev1. f x E h1 t1 = Some (Ok (), t2, ev1) \<and> set ev1 \<subseteq> set ev"
  using assms
proof (induction xs arbitrary: h t ev)
  case Nil
  then show ?case by simp
next
  case (Cons y ys)
  from Cons.prems(1) obtain t1 ev1 ev2 where y: "f y E h t = Some (Ok (), t1, ev1)"
    and ys: "each f ys E (h @ ev1) t1 = Some (Ok u, t', ev2)" and ev: "ev = ev1 @ ev2"
    by (auto elim!: andThen_OkE)
  show ?case
  proof (cases "x = y")
    case True
    with y ev show ?thesis by auto
  next
    case False
    with Cons.prems(2) have "x \<in> set ys" by simp
    from Cons.IH [OF ys this] obtain h1 t2 t3 ev3
      where "f x E h1 t2 = Some (Ok (), t3, ev3)" "set ev3 \<subseteq> set ev2" by blast
    with ev show ?thesis by (intro exI [of _ h1] exI [of _ t2] exI [of _ t3] exI [of _ ev3]) auto
  qed
qed

lemma each_perform_Ok:
  assumes "each (\<lambda>x. perform (q x)) xs E h t = Some (Ok u, t', ev)"
  shows "map fst ev = map q xs"
  using assms
  by (induction xs arbitrary: h t ev) (auto elim!: andThen_OkE simp: perform_Ok)

section \<open>The requests of one kind that were sent\<close>

definition sent :: "(request \<Rightarrow> 'b option) \<Rightarrow> trace \<Rightarrow> 'b list" where
  "sent d ev = List.map_filter (\<lambda>e. d (fst e)) ev"

lemma sent_simps [simp]:
  "sent d [] = []"
  "sent d (e # ev) = (case d (fst e) of None \<Rightarrow> sent d ev | Some x \<Rightarrow> x # sent d ev)"
  "sent d (ev @ ev') = sent d ev @ sent d ev'"
  by (auto simp: sent_def map_filter_def split: option.splits)

lemma sent_none:
  assumes "emits (\<lambda>q. d q = None) m" and "m E h t = Some (r, t', ev)"
  shows "sent d ev = []"
  using emitsD [OF assms] by (auto simp: sent_def map_filter_def filter_empty_conv)

text \<open>A loop that got through sent what its elements send, in order.\<close>

lemma each_Ok_sent:
  assumes "each f xs E h t = Some (Ok u, t', ev)"
    and "\<And>x h t t' ev. x \<in> set xs \<Longrightarrow> f x E h t = Some (Ok (), t', ev) \<Longrightarrow> sent d ev = g x"
  shows "sent d ev = concat (map g xs)"
  using assms
proof (induction xs arbitrary: h t ev)
  case Nil
  then show ?case by simp
next
  case (Cons x xs)
  from Cons.prems(1) obtain t1 ev1 ev2 where x: "f x E h t = Some (Ok (), t1, ev1)"
    and xs: "each f xs E (h @ ev1) t1 = Some (Ok u, t', ev2)" and ev: "ev = ev1 @ ev2"
    by (auto elim!: andThen_OkE)
  from Cons.prems(2) x have "sent d ev1 = g x" by simp
  moreover from Cons.IH [OF xs] Cons.prems(2) have "sent d ev2 = concat (map g xs)" by auto
  ultimately show ?case using ev by simp
qed

section \<open>Computations that leave the client's fields alone\<close>

definition keeps_client :: "'a go \<Rightarrow> bool" where
  "keeps_client m \<longleftrightarrow> (\<forall>E h t r t' ev. m E h t = Some (r, t', ev) \<longrightarrow> t' = t)"

named_theorems keeps_rules \<open>which computations leave the client's fields alone\<close>

lemma keeps_clientD: "keeps_client m \<Longrightarrow> m E h t = Some (r, t', ev) \<Longrightarrow> t' = t"
  unfolding keeps_client_def by blast

lemma keeps_basic [keeps_rules]:
  "keeps_client (ret a)" "keeps_client (fail e)" "keeps_client (panic s)" "keeps_client get_client"
  "keeps_client (call q dec)" "keeps_client (perform q)" "keeps_client (notify q)"
  by (auto simp: keeps_client_def call_Some perform_def)

lemma keeps_andThen [keeps_rules]:
  "keeps_client m \<Longrightarrow> (\<And>a. keeps_client (k a)) \<Longrightarrow> keeps_client (andThen m k)"
  unfolding keeps_client_def by (blast elim!: andThen_SomeE)

lemma keeps_attempt [keeps_rules]: "keeps_client m \<Longrightarrow> keeps_client (attempt m)"
  unfolding keeps_client_def attempt_Some by blast

lemma keeps_if [keeps_rules]:
  "(b \<Longrightarrow> keeps_client m) \<Longrightarrow> (\<not> b \<Longrightarrow> keeps_client n) \<Longrightarrow> keeps_client (if b then m else n)"
  by simp

lemma keeps_option [keeps_rules]:
  "(x = None \<Longrightarrow> keeps_client m) \<Longrightarrow> (\<And>y. x = Some y \<Longrightarrow> keeps_client (n y)) \<Longrightarrow>
   keeps_client (case x of None \<Rightarrow> m | Some y \<Rightarrow> n y)"
  by (cases x) auto

lemma keeps_sum [keeps_rules]:
  "(\<And>e. x = Inl e \<Longrightarrow> keeps_client (m e)) \<Longrightarrow> (\<And>y. x = Inr y \<Longrightarrow> keeps_client (n y)) \<Longrightarrow>
   keeps_client (case x of Inl e \<Rightarrow> m e | Inr y \<Rightarrow> n y)"
  by (cases x) auto

lemma keeps_prod [keeps_rules]:
  "(\<And>a b. x = (a, b) \<Longrightarrow> keeps_client (f a b)) \<Longrightarrow> keeps_client (case x of (a, b) \<Rightarrow> f a b)"
  by (cases x) auto

lemma keeps_Let [keeps_rules]: "keeps_client (f x) \<Longrightarrow> keeps_client (let y = x in f y)"
  by simp

lemma keeps_each [keeps_rules]:
  "(\<And>x. x \<in> set xs \<Longrightarrow> keeps_client (f x)) \<Longrightarrow> keeps_client (each f xs)"
  by (induction xs) (auto intro!: keeps_rules)

lemma keeps_rewrite_each [keeps_rules]:
  "(\<And>x. x \<in> set xs \<Longrightarrow> keeps_client (f x)) \<Longrightarrow> keeps_client (rewrite_each f xs)"
  by (induction xs) (auto intro!: keeps_rules)

end
