(* ===== verification/Helper.thy ===== *)
theory Helper
  imports Effects
begin

text \<open>
  \<open>workspacehelper/helper.go\<close>: membership and removal in the finalizer list. \<open>remove\<close>
  deletes from the slice it is ranging over: the loop keeps the original length and reads
  the shared backing array, which every deletion shifts. The model keeps that array.
\<close>

section \<open>Definitions\<close>

primrec contains :: "string list \<Rightarrow> string \<Rightarrow> bool" where
  "contains [] s = False"
| "contains (v # vs) s = (if v = s then True else contains vs s)"

text \<open>
  The loop of \<open>remove\<close>: index \<open>i\<close> of the range over the original \<open>length arr\<close> elements, the
  backing array \<open>arr\<close>, and the current length \<open>n\<close> of \<open>list\<close>. A match moves the elements
  after \<open>i\<close> one place down in the array (\<open>append(list[:i], list[i+1:]...)\<close> has the
  capacity); \<open>list[i+1:]\<close> panics when \<open>i+1\<close> is past the current length.
\<close>

function remove_loop :: "string \<Rightarrow> nat \<Rightarrow> string list \<Rightarrow> nat \<Rightarrow> string list option" where
  "remove_loop s i arr n =
     (if length arr \<le> i then Some (take n arr)
      else if arr ! i = s then
        (if n < i + 1 then None
         else (let moved = drop (i + 1) (take n arr) in
               remove_loop s (i + 1) (take i arr @ moved @ drop (i + length moved) arr) (n - 1)))
      else remove_loop s (i + 1) arr n)"
  by pat_completeness auto
termination
  by (relation "measure (\<lambda>(s, i, arr, n). length arr - i)") (auto simp: min_def)

declare remove_loop.simps [simp del]

definition remove :: "string list \<Rightarrow> string \<Rightarrow> string list option" where
  "remove xs s = remove_loop s 0 xs (length xs)"

section \<open>Correctness\<close>

lemma contains_iff [simp]: "contains xs s \<longleftrightarrow> s \<in> set xs"
  by (induction xs) auto

lemma remove_loop_absent:
  "s \<notin> set (drop i arr) \<Longrightarrow> remove_loop s i arr n = Some (take n arr)"
proof (induction s i arr n rule: remove_loop.induct)
  case (1 s i arr n)
  show ?case
  proof (cases "length arr \<le> i")
    case True
    then show ?thesis by (simp add: remove_loop.simps [of s i arr n])
  next
    case False
    then have "drop i arr = arr ! i # drop (i + 1) arr"
      by (simp add: Cons_nth_drop_Suc)
    with "1.prems" have ne: "arr ! i \<noteq> s" and rest: "s \<notin> set (drop (i + 1) arr)" by auto
    from "1.IH"(2) [OF False ne rest] show ?thesis
      using False ne by (simp add: remove_loop.simps [of s i arr n])
  qed
qed

lemma remove_loop_skip:
  "s \<notin> set ys \<Longrightarrow> remove_loop s (length xs) (xs @ ys @ zs) n = remove_loop s (length xs + length ys) (xs @ ys @ zs) n"
proof (induction ys arbitrary: xs)
  case Nil
  then show ?case by simp
next
  case (Cons y ys)
  from Cons.prems have "y \<noteq> s" by auto
  then have "remove_loop s (length xs) (xs @ (y # ys) @ zs) n = remove_loop s (Suc (length xs)) (xs @ (y # ys) @ zs) n"
    by (simp add: remove_loop.simps [of s "length xs"] nth_append)
  also have "\<dots> = remove_loop s (length (xs @ [y])) ((xs @ [y]) @ ys @ zs) n" by simp
  also have "\<dots> = remove_loop s (length (xs @ [y]) + length ys) ((xs @ [y]) @ ys @ zs) n"
    using Cons by (intro Cons.IH) auto
  finally show ?case by simp
qed

lemma remove_absent: "s \<notin> set xs \<Longrightarrow> remove xs s = Some xs"
  by (simp add: remove_def remove_loop_absent)

text \<open>One occurrence: the array ends with a stale copy of its last element, which the range still reads.\<close>

lemma remove_single:
  assumes "s \<notin> set ys" "s \<notin> set zs"
  shows "remove (ys @ s # zs) s = Some (ys @ zs)"
proof -
  let ?arr = "ys @ s # zs" and ?n = "length (ys @ s # zs)"
  have "remove ?arr s = remove_loop s (length ys) ?arr ?n"
    using remove_loop_skip [of s ys "[]" "s # zs" ?n] assms(1) by (simp add: remove_def)
  also have "\<dots> = remove_loop s (Suc (length ys)) (ys @ zs @ [last (s # zs)]) (length (ys @ zs))"
  proof -
    have "drop (length zs) (s # zs) = [last (s # zs)]"
      by (induction zs rule: rev_induct) (auto simp: drop_Cons')
    then show ?thesis by (simp add: remove_loop.simps [of s "length ys" ?arr] Let_def)
  qed
  also have "\<dots> = Some (ys @ zs)"
  proof -
    have "drop (Suc (length ys)) (ys @ zs @ [last (s # zs)]) = drop 1 (zs @ [last (s # zs)])"
      by simp
    moreover have "s \<notin> set (drop 1 (zs @ [last (s # zs)]))"
      using assms(2) by (cases zs) auto
    ultimately show ?thesis by (simp add: remove_loop_absent)
  qed
  finally show ?thesis .
qed

text \<open>
  \<open>remove\<close> panics when the string to remove occurs exactly twice, at the end of the list:
  both occurrences are found, and the second one is past the shortened list.
\<close>

lemma remove_trailing_pair:
  assumes "s \<notin> set xs"
  shows "remove (xs @ [s, s]) s = None"
proof -
  have "remove (xs @ [s, s]) s = remove_loop s (length xs) (xs @ [s, s]) (length xs + 2)"
    using remove_loop_skip [of s xs "[]" "[s, s]" "length xs + 2"] assms by (simp add: remove_def)
  also have "\<dots> = remove_loop s (length xs + 1) (xs @ [s, s]) (length xs + 1)"
    by (simp add: remove_loop.simps [of s "length xs"] nth_append Let_def)
  also have "\<dots> = None"
    by (simp add: remove_loop.simps [of s "Suc (length xs)"] nth_append)
  finally show ?thesis .
qed

lemma remove_trailing_pair_witness: "remove [''a'', ''b'', ''b''] ''b'' = None"
  using remove_trailing_pair [of "''b''" "[''a'']"] by simp

lemma remove_at_most_once:
  assumes "count_list xs s \<le> 1"
  shows "remove xs s = Some (filter (\<lambda>x. x \<noteq> s) xs)"
proof (cases "s \<in> set xs")
  case False
  then have "filter (\<lambda>x. x \<noteq> s) xs = xs" by (auto simp: filter_id_conv)
  with False show ?thesis by (simp add: remove_absent)
next
  case True
  then obtain ys zs where xs: "xs = ys @ s # zs" and ys: "s \<notin> set ys" by (metis split_list_first)
  with assms have "count_list zs s = 0" by simp
  then have zs: "s \<notin> set zs" by (simp add: count_list_0_iff)
  have "filter (\<lambda>x. x \<noteq> s) ys = ys" "filter (\<lambda>x. x \<noteq> s) zs = zs"
    using ys zs by (auto simp: filter_id_conv)
  with xs ys zs show ?thesis by (simp add: remove_single)
qed

end
