(* ===== verification/Template.thy ===== *)
theory Template
  imports Api_Types
begin

text \<open>
  \<open>workspacehelper/terraform.go\<close>: the Terraform configuration rendered from a Workspace by
  Go's \<open>text/template\<close>. The template is unrolled: \<open>{{-\<close> trims the white space before it, so
  every loop body and conditional block contributes its lines with their leading newline.
  Evaluating \<open>.Spec.Module.Source\<close> through a nil Module is the only execution error. The
  last section shows that the text determines everything it was rendered from, as long as
  no interpolated string holds a double quote or a newline.
\<close>

section \<open>Rendering\<close>

definition dq :: char where "dq = CHR 0x22"

definition quoted :: "string \<Rightarrow> string" where
  "quoted s = [dq] @ s @ [dq]"

text \<open>A line of the configuration: its newline, its indentation and its text.\<close>

definition line :: "nat \<Rightarrow> string \<Rightarrow> string" where
  "line n s = nl @ concat (replicate n tab) @ s"

definition template_keys :: "Variable list \<Rightarrow> string list" where
  "template_keys vs = map v_Key (filter (\<lambda>v. \<not> v_EnvironmentVariable v) vs)"

definition backend_block :: "string \<Rightarrow> string \<Rightarrow> string" where
  "backend_block organization workspace =
     ''terraform {'' @
     line 2 (''backend '' @ quoted ''remote'' @ '' {'') @
     line 3 (''organization = '' @ quoted organization) @
     line 1 '''' @
     line 3 ''workspaces {'' @
     line 4 (''name = '' @ quoted workspace) @
     line 3 ''}'' @
     line 2 ''}'' @
     line 1 ''}''"

definition variable_block :: "string \<Rightarrow> string" where
  "variable_block key = line 1 (''variable '' @ quoted key @ '' {}'')"

definition output_block :: "OutputSpec \<Rightarrow> string" where
  "output_block out =
     line 1 (''output '' @ quoted (os_Key out) @ '' {'') @
     line 2 (''value = module.operator.'' @ os_ModuleOutputName out) @
     line 1 ''}''"

definition argument_line :: "string \<Rightarrow> string" where
  "argument_line key = line 2 (key @ '' = var.'' @ key)"

definition module_block :: "Module \<Rightarrow> string list \<Rightarrow> string" where
  "module_block m keys =
     line 1 (''module '' @ quoted ''operator'' @ '' {'') @
     line 2 (''source = '' @ quoted (m_Source m)) @
     (if m_Version m \<noteq> '''' then line 2 (''version = '' @ quoted (m_Version m)) else '''') @
     concat (map argument_line keys) @
     line 1 ''}''"

definition CreateTerraformTemplate :: "Workspace \<Rightarrow> go_error + string" where
  "CreateTerraformTemplate w =
     (let spec = Spec w; keys = template_keys (sp_Variables spec) in
      case sp_Module spec of
        None \<Rightarrow> Inl (ErrorString (''template: main.tf:21:19: executing '' @ quoted ''main.tf''
          @ '' at <.Spec.Module.Source>: nil pointer evaluating *v1alpha1.Module.Source''))
      | Some m \<Rightarrow> Inr (
          backend_block (sp_Organization spec) (ws_Namespace w @ ''-'' @ ws_Name w) @
          concat (map variable_block keys) @
          concat (map output_block (sp_Outputs spec)) @
          module_block m keys))"

section \<open>The text determines what was rendered\<close>

text \<open>A string that neither closes a quotation nor ends a line.\<close>

definition plain :: "string \<Rightarrow> bool" where
  "plain s \<longleftrightarrow> dq \<notin> set s \<and> CHR 0x0A \<notin> set s"

definition plain_workspace :: "Workspace \<Rightarrow> bool" where
  "plain_workspace w \<longleftrightarrow>
     plain (sp_Organization (Spec w)) \<and> plain (ws_Namespace w) \<and> plain (ws_Name w) \<and>
     list_all plain (template_keys (sp_Variables (Spec w))) \<and>
     list_all (\<lambda>o1. plain (os_Key o1) \<and> plain (os_ModuleOutputName o1)) (sp_Outputs (Spec w)) \<and>
     (case sp_Module (Spec w) of None \<Rightarrow> True | Some m \<Rightarrow> plain (m_Source m) \<and> plain (m_Version m))"

lemma delimited:
  assumes "c \<notin> set a" "c \<notin> set b"
  shows "a @ c # r = b @ c # r' \<longleftrightarrow> a = b \<and> r = r'"
  using assms
proof (induction a arbitrary: b)
  case Nil
  then show ?case by (cases b) auto
next
  case (Cons x a)
  then show ?case by (cases b) auto
qed

lemma variable_block_append:
  "variable_block k @ r = (nl @ tab @ ''variable '' @ [dq]) @ k @ dq # '' {}'' @ r"
  by (simp add: variable_block_def line_def quoted_def)

lemma output_block_append:
  "output_block x @ r = (nl @ tab @ ''output '' @ [dq]) @ os_Key x @ dq # ('' {'' @ nl @ tab @ tab
     @ ''value = module.operator.'') @ os_ModuleOutputName x @ CHR 0x0A # tab @ ''}'' @ r"
  by (simp add: output_block_def line_def quoted_def nl_def eval_nat_numeral)

lemma module_block_split:
  "module_block m ks = (nl @ tab @ ''module '' @ quoted ''operator'' @ '' {'' @ nl @ tab @ tab
     @ ''source = '' @ [dq]) @ m_Source m @ dq #
     (if m_Version m \<noteq> '''' then line 2 (''version = '' @ quoted (m_Version m)) else '''') @
     concat (map argument_line ks) @ line 1 ''}''"
  by (simp add: module_block_def line_def quoted_def eval_nat_numeral)

lemma backend_block_append:
  "backend_block org name @ r = (''terraform {'' @ line 2 (''backend '' @ quoted ''remote'' @ '' {'')
     @ line 3 ''organization = '' @ [dq]) @ org @ dq # (line 1 '''' @ line 3 ''workspaces {''
     @ line 4 (''name = '') @ [dq]) @ name @ dq # (line 3 ''}'' @ line 2 ''}'' @ line 1 ''}'') @ r"
  by (simp add: backend_block_def line_def quoted_def)

lemma variable_blocks_unique:
  assumes "list_all plain ks" "list_all plain ks'"
    and "concat (map variable_block ks) @ r = concat (map variable_block ks') @ r'"
    and "\<And>z. r \<noteq> nl @ tab @ ''v'' @ z" "\<And>z. r' \<noteq> nl @ tab @ ''v'' @ z"
  shows "ks = ks' \<and> r = r'"
  using assms
proof (induction ks arbitrary: ks')
  case Nil
  then show ?case by (cases ks') (auto simp: variable_block_def line_def nl_def tab_def)
next
  case (Cons k ks)
  show ?case
  proof (cases ks')
    case Nil
    with Cons.prems show ?thesis by (auto simp: variable_block_def line_def nl_def tab_def)
  next
    case (Cons k' ks'')
    with Cons.prems(3)
    have "k @ dq # '' {}'' @ concat (map variable_block ks) @ r =
      k' @ dq # '' {}'' @ concat (map variable_block ks'') @ r'"
      by (simp only: list.map concat.simps append_assoc append_Cons append_Nil list.inject simp_thms
        variable_block_append same_append_eq)
    then have "k = k'" "concat (map variable_block ks) @ r = concat (map variable_block ks'') @ r'"
      using Cons Cons.prems(1,2) delimited [of dq k k'] by (auto simp: plain_def)
    with Cons.IH [of ks''] Cons Cons.prems show ?thesis by auto
  qed
qed

lemma output_blocks_unique:
  assumes "list_all (\<lambda>o1. plain (os_Key o1) \<and> plain (os_ModuleOutputName o1)) xs"
    and "list_all (\<lambda>o1. plain (os_Key o1) \<and> plain (os_ModuleOutputName o1)) xs'"
    and "concat (map output_block xs) @ r = concat (map output_block xs') @ r'"
    and "\<And>z. r \<noteq> nl @ tab @ ''o'' @ z" "\<And>z. r' \<noteq> nl @ tab @ ''o'' @ z"
  shows "xs = xs' \<and> r = r'"
  using assms
proof (induction xs arbitrary: xs')
  case Nil
  then show ?case by (cases xs') (auto simp: output_block_def line_def nl_def tab_def)
next
  case (Cons x xs)
  show ?case
  proof (cases xs')
    case Nil
    with Cons.prems show ?thesis by (auto simp: output_block_def line_def nl_def tab_def)
  next
    case (Cons x' xs'')
    let ?rest = "\<lambda>ys r. tab @ ''}'' @ concat (map output_block ys) @ r"
    let ?val = "'' {'' @ nl @ tab @ tab @ ''value = module.operator.''"
    from Cons Cons.prems(3)
    have "os_Key x @ dq # ?val @ os_ModuleOutputName x @ CHR 0x0A # ?rest xs r =
      os_Key x' @ dq # ?val @ os_ModuleOutputName x' @ CHR 0x0A # ?rest xs'' r'"
      by (simp only: list.map concat.simps append_assoc append_Cons append_Nil list.inject simp_thms
        output_block_append same_append_eq)
    then have k: "os_Key x = os_Key x'"
      and "os_ModuleOutputName x @ CHR 0x0A # ?rest xs r = os_ModuleOutputName x' @ CHR 0x0A # ?rest xs'' r'"
      using Cons Cons.prems(1,2) delimited [of dq "os_Key x" "os_Key x'"] by (auto simp: plain_def)
    then have "os_ModuleOutputName x = os_ModuleOutputName x'"
      and "concat (map output_block xs) @ r = concat (map output_block xs'') @ r'"
      using Cons Cons.prems(1,2)
        delimited [of "CHR 0x0A" "os_ModuleOutputName x" "os_ModuleOutputName x'"]
      by (auto simp: plain_def)
    with k Cons.IH [of xs''] Cons Cons.prems show ?thesis by auto
  qed
qed

lemma module_block_unique:
  assumes "plain (m_Source m)" "plain (m_Version m)" "plain (m_Source m')" "plain (m_Version m')"
    and "\<And>k. k \<in> set ks \<Longrightarrow> plain k"
    and "module_block m ks = module_block m' ks"
  shows "m = m'"
proof -
  let ?ver = "\<lambda>m. if m_Version m \<noteq> '''' then line 2 (''version = '' @ quoted (m_Version m)) else ''''"
  let ?suffix = "concat (map argument_line ks) @ line 1 ''}''"
  from assms(6) have "m_Source m @ dq # ?ver m @ ?suffix = m_Source m' @ dq # ?ver m' @ ?suffix"
    by (simp only: module_block_split append_assoc append_Cons append_Nil list.inject
        simp_thms same_append_eq)
  then have src: "m_Source m = m_Source m'" and ver: "?ver m @ ?suffix = ?ver m' @ ?suffix"
    using assms(1,3) delimited [of dq "m_Source m" "m_Source m'"] by (auto simp: plain_def)
  from ver have "?ver m = ?ver m'" by simp
  then have "m_Version m = m_Version m'"
    by (auto simp: line_def quoted_def nl_def split: if_splits)
  with src show ?thesis by simp
qed

lemma output_or_module:
  "concat (map output_block xs) @ module_block m ks \<noteq> nl @ tab @ ''v'' @ z"
  "module_block m ks \<noteq> nl @ tab @ ''o'' @ z"
  by (cases xs) (auto simp: output_block_def module_block_def line_def nl_def tab_def)

lemma backend_block_unique:
  assumes "plain o1" "plain o2" "plain w1" "plain w2"
    and "backend_block o1 w1 @ r1 = backend_block o2 w2 @ r2"
  shows "o1 = o2 \<and> w1 = w2 \<and> r1 = r2"
proof -
  let ?tail = "\<lambda>r. (line 3 ''}'' @ line 2 ''}'' @ line 1 ''}'') @ r"
  let ?mid = "line 1 '''' @ line 3 ''workspaces {'' @ line 4 (''name = '') @ [dq]"
  have "o1 @ dq # ?mid @ w1 @ dq # ?tail r1 = o2 @ dq # ?mid @ w2 @ dq # ?tail r2"
    using assms(5) by (simp only: backend_block_append append_assoc append_Cons append_Nil list.inject
        simp_thms same_append_eq)
  then have "o1 = o2" "w1 @ dq # ?tail r1 = w2 @ dq # ?tail r2"
    using assms(1,2) delimited [of dq o1 o2] by (auto simp: plain_def)
  then show ?thesis using assms(3,4) delimited [of dq w1 w2] by (auto simp: plain_def)
qed

text \<open>What the configuration is made of; variable values and environment variables are not in it.\<close>

definition configuration_of ::
    "Workspace \<Rightarrow> string \<times> string \<times> string list \<times> OutputSpec list \<times> Module option" where
  "configuration_of w = (sp_Organization (Spec w), ws_Namespace w @ ''-'' @ ws_Name w,
     template_keys (sp_Variables (Spec w)), sp_Outputs (Spec w), sp_Module (Spec w))"

lemma template_determines_configuration:
  assumes "CreateTerraformTemplate w = Inr text" "CreateTerraformTemplate w' = Inr text"
    and "plain_workspace w" "plain_workspace w'"
  shows "configuration_of w = configuration_of w'"
proof -
  let ?ks = "\<lambda>w. template_keys (sp_Variables (Spec w))" and ?os = "\<lambda>w. sp_Outputs (Spec w)"
  let ?name = "\<lambda>w. ws_Namespace w @ ''-'' @ ws_Name w"
  from assms(1,2) obtain m m' where m: "sp_Module (Spec w) = Some m" "sp_Module (Spec w') = Some m'"
    by (auto simp: CreateTerraformTemplate_def Let_def split: option.splits)
  have eq: "backend_block (sp_Organization (Spec w)) (?name w) @ concat (map variable_block (?ks w)) @
      concat (map output_block (?os w)) @ module_block m (?ks w) =
    backend_block (sp_Organization (Spec w')) (?name w') @ concat (map variable_block (?ks w')) @
      concat (map output_block (?os w')) @ module_block m' (?ks w')"
    using assms(1,2) m by (simp add: CreateTerraformTemplate_def Let_def)
  note pl = assms(3,4) [unfolded plain_workspace_def m option.case]
  from pl have "plain (?name w)" "plain (?name w')" by (auto simp: plain_def dq_def)
  with pl backend_block_unique [OF _ _ _ _ eq]
  have org: "sp_Organization (Spec w) = sp_Organization (Spec w')" "?name w = ?name w'"
    and rest: "concat (map variable_block (?ks w)) @ concat (map output_block (?os w)) @ module_block m (?ks w) =
      concat (map variable_block (?ks w')) @ concat (map output_block (?os w')) @ module_block m' (?ks w')"
    by blast+
  from pl variable_blocks_unique [OF _ _ rest] output_or_module(1)
  have ks: "?ks w = ?ks w'" and rest2: "concat (map output_block (?os w)) @ module_block m (?ks w) =
      concat (map output_block (?os w')) @ module_block m' (?ks w')" by blast+
  from pl output_blocks_unique [OF _ _ rest2] output_or_module(2)
  have os: "?os w = ?os w'" and "module_block m (?ks w) = module_block m' (?ks w')" by blast+
  with pl ks have "m = m'"
    using module_block_unique [of m m' "?ks w"] by (auto simp: list_all_iff)
  with org ks os m show ?thesis by (simp add: configuration_of_def)
qed

lemma template_depends_on_configuration:
  "configuration_of w = configuration_of w' \<Longrightarrow> CreateTerraformTemplate w = CreateTerraformTemplate w'"
  by (simp only: configuration_of_def CreateTerraformTemplate_def Let_def prod.inject)

lemma template_error_iff: "(\<exists>e. CreateTerraformTemplate w = Inl e) \<longleftrightarrow> sp_Module (Spec w) = None"
  by (auto simp: CreateTerraformTemplate_def Let_def split: option.splits)

text \<open>
  C32. Two workspaces with a module render to the same configuration exactly when they agree
  on the organization, the workspace name, the keys of the Terraform variables, the outputs
  and the module: comparing the rendered text misses no change of these and reacts to no
  other change, provided the interpolated strings hold no quotes or newlines.
\<close>

theorem template_same_iff:
  assumes "plain_workspace w" "plain_workspace w'" "sp_Module (Spec w) \<noteq> None"
  shows "CreateTerraformTemplate w = CreateTerraformTemplate w' \<longleftrightarrow>
    configuration_of w = configuration_of w'"
proof
  assume eq: "CreateTerraformTemplate w = CreateTerraformTemplate w'"
  from assms(3) template_error_iff [of w] obtain cfg where "CreateTerraformTemplate w = Inr cfg"
    by (cases "CreateTerraformTemplate w") auto
  with eq assms(1,2) show "configuration_of w = configuration_of w'"
    by (metis template_determines_configuration)
qed (rule template_depends_on_configuration)

text \<open>The example with another module version: the rendered configuration differs.\<close>

definition example_upgraded :: Workspace where
  "example_upgraded = example_workspace\<lparr>Spec := (Spec example_workspace)\<lparr>
     sp_Module := Some \<lparr>m_Source = ''my_source'', m_Version = ''0.3.3''\<rparr>\<rparr>\<rparr>"

theorem template_same_iff_witness:
  "CreateTerraformTemplate example_workspace \<noteq> CreateTerraformTemplate example_upgraded"
  using template_same_iff [of example_workspace example_upgraded]
  by (simp add: plain_workspace_def example_workspace_def example_upgraded_def plain_def dq_def
      template_keys_def plain_variable_def configuration_of_def)

text \<open>The first test of \<open>terraform_test.go\<close>.\<close>

lemma template_test_vector:
  "CreateTerraformTemplate example_workspace = Inr (
     ''terraform {'' @ nl @ tab @ tab @ ''backend '' @ quoted ''remote'' @ '' {'' @ nl @
     tab @ tab @ tab @ ''organization = '' @ quoted ''world'' @ nl @ tab @ nl @
     tab @ tab @ tab @ ''workspaces {'' @ nl @
     tab @ tab @ tab @ tab @ ''name = '' @ quoted ''prod-hello'' @ nl @
     tab @ tab @ tab @ ''}'' @ nl @ tab @ tab @ ''}'' @ nl @ tab @ ''}'' @ nl @
     tab @ ''variable '' @ quoted ''some_var'' @ '' {}'' @ nl @
     tab @ ''variable '' @ quoted ''hello'' @ '' {}'' @ nl @
     tab @ ''module '' @ quoted ''operator'' @ '' {'' @ nl @
     tab @ tab @ ''source = '' @ quoted ''my_source'' @ nl @
     tab @ tab @ ''version = '' @ quoted ''0.3.2'' @ nl @
     tab @ tab @ ''some_var = var.some_var'' @ nl @
     tab @ tab @ ''hello = var.hello'' @ nl @ tab @ ''}'')"
  by code_simp

end
