(* ===== verification/Kube_Client.thy ===== *)
theory Kube_Client
  imports Effects
begin

text \<open>
  The Kubernetes client the operator uses (\<open>controller-runtime\<close>'s \<open>client.Client\<close> and event
  recorder) and \<open>controllerutil.SetControllerReference\<close>. A successful write of a Workspace
  overwrites the object it was given with the server's answer (\<open>typed_client.go\<close> ends in
  \<open>Into(obj)\<close>), so it returns the new object; the operator drops what the writes of
  ConfigMaps and Secrets return.
\<close>

section \<open>Requests\<close>

definition kube_Get_Workspace :: "NamespacedName \<Rightarrow> Workspace go" where
  "kube_Get_Workspace nn = call (Kube (Get_Workspace nn)) as_resource"

definition kube_Update_Workspace :: "Workspace \<Rightarrow> Workspace go" where
  "kube_Update_Workspace obj = call (Kube (Update_Workspace obj)) as_resource"

definition kube_UpdateStatus_Workspace :: "Workspace \<Rightarrow> Workspace go" where
  "kube_UpdateStatus_Workspace obj = call (Kube (UpdateStatus_Workspace obj)) as_resource"

definition kube_Get_ConfigMap :: "NamespacedName \<Rightarrow> ConfigMap go" where
  "kube_Get_ConfigMap nn = call (Kube (Get_ConfigMap nn)) as_configmap"

definition kube_Get_Secret :: "NamespacedName \<Rightarrow> Secret go" where
  "kube_Get_Secret nn = call (Kube (Get_Secret nn)) as_secret"

definition kube_Create_ConfigMap :: "ConfigMap \<Rightarrow> unit go" where
  "kube_Create_ConfigMap obj = perform (Kube (Create_ConfigMap obj))"

definition kube_Update_ConfigMap :: "ConfigMap \<Rightarrow> unit go" where
  "kube_Update_ConfigMap obj = perform (Kube (Update_ConfigMap obj))"

definition kube_Create_Secret :: "Secret \<Rightarrow> unit go" where
  "kube_Create_Secret obj = perform (Kube (Create_Secret obj))"

definition kube_Update_Secret :: "Secret \<Rightarrow> unit go" where
  "kube_Update_Secret obj = perform (Kube (Update_Secret obj))"

text \<open>\<open>recorder.Event(object, type, reason, message)\<close>; delivery is asynchronous and never fails the caller.\<close>

definition record_event :: "Workspace \<Rightarrow> string \<Rightarrow> string \<Rightarrow> string \<Rightarrow> unit go" where
  "record_event obj etype reason msg = notify (Kube (Record_Event obj etype reason msg))"

lemmas kube_defs [run_simps] = kube_Get_Workspace_def kube_Update_Workspace_def
  kube_UpdateStatus_Workspace_def kube_Get_ConfigMap_def kube_Get_Secret_def
  kube_Create_ConfigMap_def kube_Update_ConfigMap_def kube_Create_Secret_def
  kube_Update_Secret_def record_event_def

lemma emits_kube [emits_rules]:
  "P (Kube (Get_Workspace nn)) \<Longrightarrow> emits P (kube_Get_Workspace nn)"
  "P (Kube (Update_Workspace w)) \<Longrightarrow> emits P (kube_Update_Workspace w)"
  "P (Kube (UpdateStatus_Workspace w)) \<Longrightarrow> emits P (kube_UpdateStatus_Workspace w)"
  "P (Kube (Get_ConfigMap nn)) \<Longrightarrow> emits P (kube_Get_ConfigMap nn)"
  "P (Kube (Get_Secret nn)) \<Longrightarrow> emits P (kube_Get_Secret nn)"
  "P (Kube (Create_ConfigMap c)) \<Longrightarrow> emits P (kube_Create_ConfigMap c)"
  "P (Kube (Update_ConfigMap c)) \<Longrightarrow> emits P (kube_Update_ConfigMap c)"
  "P (Kube (Create_Secret s)) \<Longrightarrow> emits P (kube_Create_Secret s)"
  "P (Kube (Update_Secret s)) \<Longrightarrow> emits P (kube_Update_Secret s)"
  "P (Kube (Record_Event w ty re ms)) \<Longrightarrow> emits P (record_event w ty re ms)"
  unfolding kube_defs by (intro emits_rules; assumption)+

lemma returns_kube [returns_rules]:
  "returns (kube_Get_Workspace nn)" "returns (kube_Update_Workspace w)"
  "returns (kube_UpdateStatus_Workspace w)" "returns (kube_Get_ConfigMap nn)"
  "returns (kube_Get_Secret nn)" "returns (kube_Create_ConfigMap c)"
  "returns (kube_Update_ConfigMap c)" "returns (kube_Create_Secret s)"
  "returns (kube_Update_Secret s)" "returns (record_event w ty re ms)"
  unfolding kube_defs by (intro returns_rules)+

lemma keeps_kube [keeps_rules]:
  "keeps_client (kube_Get_Workspace nn)" "keeps_client (kube_Update_Workspace w)"
  "keeps_client (kube_UpdateStatus_Workspace w)" "keeps_client (kube_Get_ConfigMap nn)"
  "keeps_client (kube_Get_Secret nn)" "keeps_client (kube_Create_ConfigMap c)"
  "keeps_client (kube_Update_ConfigMap c)" "keeps_client (kube_Create_Secret s)"
  "keeps_client (kube_Update_Secret s)" "keeps_client (record_event w ty re ms)"
  unfolding kube_defs by (intro keeps_rules)+

lemma kube_Ok:
  "kube_Get_Workspace nn E h t = Some (Ok w, t', ev) \<longleftrightarrow>
     t' = t \<and> ev = [(Kube (Get_Workspace nn), Inr (R_Resource w))] \<and>
     E h (Kube (Get_Workspace nn)) = Inr (R_Resource w)"
  "kube_Update_Workspace obj E h t = Some (Ok w, t', ev) \<longleftrightarrow>
     t' = t \<and> ev = [(Kube (Update_Workspace obj), Inr (R_Resource w))] \<and>
     E h (Kube (Update_Workspace obj)) = Inr (R_Resource w)"
  "kube_UpdateStatus_Workspace obj E h t = Some (Ok w, t', ev) \<longleftrightarrow>
     t' = t \<and> ev = [(Kube (UpdateStatus_Workspace obj), Inr (R_Resource w))] \<and>
     E h (Kube (UpdateStatus_Workspace obj)) = Inr (R_Resource w)"
  "kube_Get_ConfigMap nn E h t = Some (Ok c, t', ev) \<longleftrightarrow>
     t' = t \<and> ev = [(Kube (Get_ConfigMap nn), Inr (R_ConfigMap c))] \<and>
     E h (Kube (Get_ConfigMap nn)) = Inr (R_ConfigMap c)"
  "kube_Get_Secret nn E h t = Some (Ok s, t', ev) \<longleftrightarrow>
     t' = t \<and> ev = [(Kube (Get_Secret nn), Inr (R_Secret s))] \<and>
     E h (Kube (Get_Secret nn)) = Inr (R_Secret s)"
  by (auto simp: kube_defs call_Ok elim!: as_resource.elims as_configmap.elims as_secret.elims)

section \<open>Owner references\<close>

fun ParseGroupVersion :: "string \<Rightarrow> go_error + (string \<times> string)" where
  "ParseGroupVersion gv =
     (if gv = '''' \<or> gv = ''/'' then Inr ('''', '''')
      else if count_list gv (CHR ''/'') = 0 then Inr ('''', gv)
      else if count_list gv (CHR ''/'') = 1 then
        Inr (takeWhile (\<lambda>c. c \<noteq> CHR ''/'') gv, tl (dropWhile (\<lambda>c. c \<noteq> CHR ''/'') gv))
      else Inl (ErrorString (''unexpected GroupVersion string: '' @ gv)))"

definition referSameObject :: "OwnerReference \<Rightarrow> OwnerReference \<Rightarrow> bool" where
  "referSameObject a b =
     (case ParseGroupVersion (or_APIVersion a) of
        Inl _ \<Rightarrow> False
      | Inr (ga, _) \<Rightarrow>
          (case ParseGroupVersion (or_APIVersion b) of
             Inl _ \<Rightarrow> False
           | Inr (gb, _) \<Rightarrow> ga = gb \<and> or_Kind a = or_Kind b \<and> or_Name a = or_Name b))"

fun upsertOwnerRef :: "OwnerReference \<Rightarrow> OwnerReference list \<Rightarrow> OwnerReference list" where
  "upsertOwnerRef ref [] = [ref]"
| "upsertOwnerRef ref (r # rs) = (if referSameObject r ref then ref # rs else r # upsertOwnerRef ref rs)"

definition validateOwner :: "ObjectMeta \<Rightarrow> ObjectMeta \<Rightarrow> go_error option" where
  "validateOwner owner object =
     (if om_Namespace owner = '''' then None
      else if om_Namespace object = '''' then
        Some (ErrorString (''cluster-scoped resource must not have a namespace-scoped owner, owner''
          @ [CHR 0x27] @ ''s namespace '' @ om_Namespace owner))
      else if om_Namespace owner \<noteq> om_Namespace object then
        Some (ErrorString (''cross-namespace owner references are disallowed, owner'' @ [CHR 0x27]
          @ ''s namespace '' @ om_Namespace owner @ '', obj'' @ [CHR 0x27] @ ''s namespace ''
          @ om_Namespace object))
      else None)"

text \<open>The reference to a Workspace, whose kind is registered as \<open>app.terraform.io/v1alpha1\<close>.\<close>

definition controller_ref :: "ObjectMeta \<Rightarrow> OwnerReference" where
  "controller_ref owner = \<lparr>or_APIVersion = ''app.terraform.io/v1alpha1'', or_Kind = ''Workspace'',
     or_Name = om_Name owner, or_UID = om_UID owner, or_Controller = True\<rparr>"

definition SetControllerReference :: "ObjectMeta \<Rightarrow> ObjectMeta \<Rightarrow> go_error + ObjectMeta" where
  "SetControllerReference owner controlled =
     (case validateOwner owner controlled of
        Some e \<Rightarrow> Inl e
      | None \<Rightarrow>
          (let ref = controller_ref owner in
           case List.find or_Controller (om_OwnerReferences controlled) of
             Some existing \<Rightarrow>
               if \<not> referSameObject existing ref then
                 Inl (ErrorString (''Object '' @ om_Namespace controlled @ ''/'' @ om_Name controlled
                   @ '' is already owned by another '' @ or_Kind existing @ '' controller ''
                   @ or_Name existing))
               else Inr (controlled\<lparr>om_OwnerReferences :=
                      upsertOwnerRef ref (om_OwnerReferences controlled)\<rparr>)
           | None \<Rightarrow> Inr (controlled\<lparr>om_OwnerReferences :=
                      upsertOwnerRef ref (om_OwnerReferences controlled)\<rparr>)))"

lemma upsertOwnerRef_in [simp]: "ref \<in> set (upsertOwnerRef ref rs)"
  by (induction rs) auto

lemma SetControllerReference_owned:
  assumes "SetControllerReference owner obj = Inr obj'"
  shows "controller_ref owner \<in> set (om_OwnerReferences obj')"
    and "om_Name obj' = om_Name obj" and "om_Namespace obj' = om_Namespace obj"
  using assms
  by (auto simp: SetControllerReference_def Let_def split: option.splits if_splits)

end
