(* ===== verification/K8s_Objects.thy ===== *)
theory K8s_Objects
  imports Kube_Client
begin

text \<open>
  \<open>workspacehelper/k8s_configmap.go\<close> and \<open>workspacehelper/k8s_secret.go\<close>: the ConfigMap that
  keeps the rendered Terraform configuration, the Secret that exposes the outputs, and the
  resolution of variables whose value comes from a ConfigMap or a Secret. A variable is
  mutated through its pointer in the source; here the resolved variable is returned.
\<close>

section \<open>Definitions\<close>

definition TerraformConfigMap :: string where
  "TerraformConfigMap = ''terraform''"

definition new_meta :: "string \<Rightarrow> string \<Rightarrow> ObjectMeta" where
  "new_meta name namespace = \<lparr>om_Name = name, om_Namespace = namespace, om_UID = '''',
     om_Finalizers = [], om_DeletionTimestamp = None, om_OwnerReferences = []\<rparr>"

definition configMapForTerraform :: "string \<Rightarrow> string \<Rightarrow> string \<Rightarrow> ConfigMap" where
  "configMapForTerraform name namespace template =
     \<lparr>cm_Meta = new_meta name namespace, cm_Data = Some [(TerraformConfigMap, template)]\<rparr>"

definition outputsToMap :: "OutputStatus list \<Rightarrow> bytes gomap" where
  "outputsToMap outputs =
     Some (foldl (\<lambda>m output. put m (out_Key output) (Some (out_Value output))) [] outputs)"

definition secretForOutputs :: "string \<Rightarrow> string \<Rightarrow> OutputStatus list \<Rightarrow> Secret" where
  "secretForOutputs name namespace outputs =
     \<lparr>sec_Meta = new_meta name namespace, sec_Data = outputsToMap outputs\<rparr>"

definition UpsertTerraformConfig :: "Workspace \<Rightarrow> string \<Rightarrow> bool go" where
  "UpsertTerraformConfig w template =
     andThen (attempt (kube_Get_ConfigMap \<lparr>nn_Namespace = ws_Namespace w, nn_Name = ws_Name w\<rparr>))
     (\<lambda>res. case res of
        Inl err \<Rightarrow>
          if k8s_IsNotFound err then
            (let configMap = configMapForTerraform (ws_Name w) (ws_Namespace w) template in
             case SetControllerReference (Meta w) (cm_Meta configMap) of
               Inl e \<Rightarrow> fail e
             | Inr meta' \<Rightarrow>
                 andThen (kube_Create_ConfigMap (configMap\<lparr>cm_Meta := meta'\<rparr>)) (\<lambda>_. ret True))
          else fail err
      | Inr found \<Rightarrow>
          if (case lookup_map (cm_Data found) TerraformConfigMap of None \<Rightarrow> '''' | Some s \<Rightarrow> s) = template
          then ret False
          else (case cm_Data found of
                  None \<Rightarrow> panic ''assignment to entry in nil map''
                | Some d \<Rightarrow>
                    andThen (kube_Update_ConfigMap
                      (found\<lparr>cm_Data := Some (put d TerraformConfigMap template)\<rparr>)) (\<lambda>_. ret True)))"

definition GetConfigMapForVariable :: "string \<Rightarrow> Variable \<Rightarrow> Variable go" where
  "GetConfigMapForVariable namespace variable =
     (if v_Sensitive variable \<or> v_Value variable \<noteq> '''' then ret variable
      else case v_ValueFrom variable of
        None \<Rightarrow> fail (ErrorString ''non-sensitive variables require a value'')
      | Some from_src \<Rightarrow>
          (case ConfigMapKeyRef from_src of
             None \<Rightarrow> fail (ErrorString ''Include ConfigMap in ValueFrom'')
           | Some sel \<Rightarrow>
               andThen (kube_Get_ConfigMap \<lparr>nn_Namespace = namespace, nn_Name = sel_Name sel\<rparr>) (\<lambda>found.
               case lookup_map (cm_Data found) (sel_Key sel) of
                 None \<Rightarrow> fail (ErrorString ''Include ConfigMap key reference in ValueFrom'')
               | Some value_str \<Rightarrow> ret (variable\<lparr>v_Value := value_str\<rparr>))))"

definition GetSecretData :: "string \<Rightarrow> string \<Rightarrow> bytes gomap go" where
  "GetSecretData namespace name =
     andThen (kube_Get_Secret \<lparr>nn_Namespace = namespace, nn_Name = name\<rparr>) (\<lambda>secret.
     ret (sec_Data secret))"

definition GetSecretForVariable :: "string \<Rightarrow> Variable \<Rightarrow> Variable go" where
  "GetSecretForVariable namespace variable =
     (case v_ValueFrom variable of
        None \<Rightarrow> ret variable
      | Some from_src \<Rightarrow>
          if \<not> v_Sensitive variable then ret variable
          else case SecretKeyRef from_src of
            None \<Rightarrow> fail (ErrorString ''Include Secret in ValueFrom'')
          | Some sel \<Rightarrow>
              andThen (GetSecretData namespace (sel_Name sel)) (\<lambda>data.
              case lookup_map data (sel_Key sel) of
                None \<Rightarrow> fail (ErrorString ''Include Secret key reference in ValueFrom'')
              | Some value_bytes \<Rightarrow> ret (variable\<lparr>v_Value := elems value_bytes\<rparr>)))"

definition UpsertSecretOutputs :: "Workspace \<Rightarrow> OutputStatus list \<Rightarrow> unit go" where
  "UpsertSecretOutputs w outputs =
     (let outputName = ws_Name w @ ''-outputs'' in
      andThen (attempt (kube_Get_Secret \<lparr>nn_Namespace = ws_Namespace w, nn_Name = outputName\<rparr>))
      (\<lambda>res. case res of
         Inl err \<Rightarrow>
           if k8s_IsNotFound err then
             (let secret = secretForOutputs outputName (ws_Namespace w) outputs in
              case SetControllerReference (Meta w) (sec_Meta secret) of
                Inl e \<Rightarrow> fail e
              | Inr meta' \<Rightarrow> kube_Create_Secret (secret\<lparr>sec_Meta := meta'\<rparr>))
           else fail err
       | Inr found \<Rightarrow>
           (let currentOutputs = outputsToMap outputs in
            if \<not> deep_equal_map (sec_Data found) currentOutputs
            then kube_Update_Secret (found\<lparr>sec_Data := currentOutputs\<rparr>)
            else ret ())))"

lemmas k8s_objects_defs [run_simps] = UpsertTerraformConfig_def GetConfigMapForVariable_def
  GetSecretData_def GetSecretForVariable_def UpsertSecretOutputs_def

section \<open>Effects\<close>

definition touches_configmap :: "NamespacedName \<Rightarrow> request \<Rightarrow> bool" where
  "touches_configmap nn q \<longleftrightarrow>
     (q = Kube (Get_ConfigMap nn) \<or>
      (\<exists>c. q = Kube (Create_ConfigMap c) \<and> om_Name (cm_Meta c) = nn_Name nn \<and>
           om_Namespace (cm_Meta c) = nn_Namespace nn) \<or>
      (\<exists>c. q = Kube (Update_ConfigMap c)))"

lemma emits_UpsertTerraformConfig [emits_rules]:
  assumes "\<And>nn. P (Kube (Get_ConfigMap nn))" "\<And>c. P (Kube (Create_ConfigMap c))"
    "\<And>c. P (Kube (Update_ConfigMap c))"
  shows "emits P (UpsertTerraformConfig w template)"
  unfolding UpsertTerraformConfig_def by (intro emits_rules assms)

lemma emits_GetConfigMapForVariable [emits_rules]:
  assumes "\<And>nn. P (Kube (Get_ConfigMap nn))"
  shows "emits P (GetConfigMapForVariable ns v)"
  unfolding GetConfigMapForVariable_def by (intro emits_rules assms)

lemma emits_GetSecretForVariable [emits_rules]:
  assumes "\<And>nn. P (Kube (Get_Secret nn))"
  shows "emits P (GetSecretForVariable ns v)"
  unfolding GetSecretForVariable_def GetSecretData_def by (intro emits_rules assms)

lemma emits_UpsertSecretOutputs [emits_rules]:
  assumes "\<And>nn. P (Kube (Get_Secret nn))" "\<And>c. P (Kube (Create_Secret c))"
    "\<And>c. P (Kube (Update_Secret c))"
  shows "emits P (UpsertSecretOutputs w outputs)"
  unfolding UpsertSecretOutputs_def by (intro emits_rules assms)

lemma returns_k8s_objects [returns_rules]:
  "returns (UpsertTerraformConfig w template)" "returns (GetConfigMapForVariable ns v)"
  "returns (GetSecretForVariable ns v)" "returns (UpsertSecretOutputs w outputs)"
  unfolding UpsertTerraformConfig_def GetConfigMapForVariable_def GetSecretForVariable_def
    GetSecretData_def UpsertSecretOutputs_def
  by (intro returns_rules)+

lemma keeps_k8s_objects [keeps_rules]:
  "keeps_client (UpsertTerraformConfig w template)" "keeps_client (GetConfigMapForVariable ns v)"
  "keeps_client (GetSecretForVariable ns v)" "keeps_client (UpsertSecretOutputs w outputs)"
  unfolding UpsertTerraformConfig_def GetConfigMapForVariable_def GetSecretForVariable_def
    GetSecretData_def UpsertSecretOutputs_def
  by (intro keeps_rules)+

end
