(* ===== verification/Tfe_Client.thy ===== *)
theory Tfe_Client
  imports Effects
begin

text \<open>
  The methods of the Terraform Cloud client (\<open>vendor/github.com/hashicorp/go-tfe\<close>) that the
  operator calls: each checks its arguments and options before it sends anything, then
  sends one request. What the service answers is the environment's. Reads "with options"
  are modelled with the nil options the operator's calls pass. Where the operator drops
  the resource a call returns, the response is not read: a body that does not decode is
  one of the errors the environment may answer.
\<close>

section \<open>Validation\<close>

definition id_char :: "char \<Rightarrow> bool" where
  "id_char c \<longleftrightarrow>
     (let n = (of_char c :: nat) in
      (97 \<le> n \<and> n \<le> 122) \<or> (65 \<le> n \<and> n \<le> 90) \<or> (48 \<le> n \<and> n \<le> 57) \<or>
      c = CHR ''-'' \<or> c = CHR ''.'' \<or> c = CHR ''_'')"

definition validString :: "string option \<Rightarrow> bool" where
  "validString v = (case v of None \<Rightarrow> False | Some s \<Rightarrow> s \<noteq> '''')"

definition validStringID :: "string option \<Rightarrow> bool" where
  "validStringID v = (case v of None \<Rightarrow> False | Some s \<Rightarrow> s \<noteq> '''' \<and> list_all id_char s)"

lemma validStringID_None [simp]: "\<not> validStringID None"
  by (simp add: validStringID_def)

lemma validStringID_empty [simp]: "\<not> validStringID (Some [])"
  by (simp add: validStringID_def)

text \<open>Guarding a computation by a check that fails with a fixed error.\<close>

definition require :: "bool \<Rightarrow> go_error \<Rightarrow> 'a go \<Rightarrow> 'a go" where
  "require b e m = (if b then m else fail e)"

lemma require_simps [simp]: "require True e m = m" "require False e m = fail e"
  by (simp_all add: require_def)

lemma emits_require [emits_rules]: "(b \<Longrightarrow> emits P m) \<Longrightarrow> emits P (require b e m)"
  by (simp add: require_def emits_rules)

lemma returns_require [returns_rules]: "(b \<Longrightarrow> returns m) \<Longrightarrow> returns (require b e m)"
  by (simp add: require_def returns_rules)

lemma keeps_require [keeps_rules]: "(b \<Longrightarrow> keeps_client m) \<Longrightarrow> keeps_client (require b e m)"
  by (simp add: require_def keeps_rules)

lemma require_Ok:
  "require b e m E h t = Some (Ok a, t', ev) \<longleftrightarrow> b \<and> m E h t = Some (Ok a, t', ev)"
  by (simp add: require_def)

text \<open>An options check is an error or nothing.\<close>

definition check_options :: "go_error option \<Rightarrow> 'a go \<Rightarrow> 'a go" where
  "check_options e m = (case e of None \<Rightarrow> m | Some err \<Rightarrow> fail err)"

lemma check_options_simps [simp]:
  "check_options None m = m" "check_options (Some e) m = fail e"
  by (simp_all add: check_options_def)

lemma emits_check_options [emits_rules]: "emits P m \<Longrightarrow> emits P (check_options e m)"
  by (simp add: check_options_def emits_rules split: option.split)

lemma returns_check_options [returns_rules]: "returns m \<Longrightarrow> returns (check_options e m)"
  by (simp add: check_options_def returns_rules split: option.split)

lemma keeps_check_options [keeps_rules]: "keeps_client m \<Longrightarrow> keeps_client (check_options e m)"
  by (simp add: check_options_def keeps_rules split: option.split)

lemma check_options_Ok:
  "check_options e m E h t = Some (Ok a, t', ev) \<longleftrightarrow> e = None \<and> m E h t = Some (Ok a, t', ev)"
  by (simp add: check_options_def split: option.split)

section \<open>Organizations, SSH keys, agent pools\<close>

definition Organizations_Read :: "string \<Rightarrow> unit go" where
  "Organizations_Read organization =
     require (validStringID (Some organization)) ErrInvalidOrg
       (perform (Organizations (Organization_Read organization)))"

definition SSHKeys_List :: "string \<Rightarrow> SSHKey list go" where
  "SSHKeys_List organization =
     require (validStringID (Some organization)) ErrInvalidOrg
       (call (Organizations (SSHKey_List organization)) as_sshkeys)"

definition AgentPools_List :: "string \<Rightarrow> nat \<Rightarrow> AgentPool list go" where
  "AgentPools_List organization page_size =
     require (validStringID (Some organization)) ErrInvalidOrg
       (call (Organizations (AgentPool_List organization page_size)) as_agentpools)"

section \<open>Workspaces\<close>

definition valid_WorkspaceCreateOptions :: "WorkspaceCreateOptions \<Rightarrow> go_error option" where
  "valid_WorkspaceCreateOptions opts =
     (if \<not> validString (wco_Name opts) then Some ErrRequiredName
      else if \<not> validStringID (wco_Name opts) then Some ErrInvalidName
      else if wco_Operations opts \<noteq> None \<and> wco_ExecutionMode opts \<noteq> None then
        Some (ErrorString ''operations is deprecated and cannot be specified when execution mode is used'')
      else if wco_AgentPoolID opts \<noteq> None \<and> wco_ExecutionMode opts \<noteq> Some ''agent'' then
        Some (ErrorString (''specifying an agent pool ID requires '' @ [CHR 0x27] @ ''agent'' @ [CHR 0x27] @ '' execution mode''))
      else if wco_AgentPoolID opts = None \<and> wco_ExecutionMode opts = Some ''agent'' then
        Some (ErrorString ([CHR 0x27] @ ''agent'' @ [CHR 0x27] @ '' execution mode requires an agent pool ID to be specified''))
      else None)"

definition Workspaces_Create :: "string \<Rightarrow> WorkspaceCreateOptions \<Rightarrow> tfc_Workspace go" where
  "Workspaces_Create organization opts =
     require (validStringID (Some organization)) ErrInvalidOrg
       (check_options (valid_WorkspaceCreateOptions opts)
         (call (Workspaces (Workspace_Create organization opts)) as_workspace))"

definition Workspaces_Read :: "string \<Rightarrow> string \<Rightarrow> tfc_Workspace go" where
  "Workspaces_Read organization workspace =
     require (validStringID (Some organization)) ErrInvalidOrg
       (require (validStringID (Some workspace)) ErrInvalidWorkspaceValue
         (call (Workspaces (Workspace_Read organization workspace)) as_workspace))"

definition Workspaces_ReadByID :: "string \<Rightarrow> tfc_Workspace go" where
  "Workspaces_ReadByID workspaceID =
     require (validStringID (Some workspaceID)) ErrInvalidWorkspaceID
       (call (Workspaces (Workspace_ReadByID workspaceID)) as_workspace)"

definition valid_WorkspaceUpdateOptions :: "WorkspaceUpdateOptions \<Rightarrow> go_error option" where
  "valid_WorkspaceUpdateOptions opts =
     (if wuo_Name opts \<noteq> None \<and> \<not> validStringID (wuo_Name opts) then Some ErrInvalidName
      else if wuo_Operations opts \<noteq> None \<and> wuo_ExecutionMode opts \<noteq> None then
        Some (ErrorString ''operations is deprecated and cannot be specified when execution mode is used'')
      else if wuo_AgentPoolID opts = None \<and> wuo_ExecutionMode opts = Some ''agent'' then
        Some (ErrorString ([CHR 0x27] @ ''agent'' @ [CHR 0x27] @ '' execution mode requires an agent pool ID to be specified''))
      else None)"

definition Workspaces_Update :: "string \<Rightarrow> string \<Rightarrow> WorkspaceUpdateOptions \<Rightarrow> tfc_Workspace go" where
  "Workspaces_Update organization workspace opts =
     require (validStringID (Some organization)) ErrInvalidOrg
       (require (validStringID (Some workspace)) ErrInvalidWorkspaceValue
         (check_options (valid_WorkspaceUpdateOptions opts)
           (call (Workspaces (Workspace_Update organization workspace opts)) as_workspace)))"

definition Workspaces_DeleteByID :: "string \<Rightarrow> unit go" where
  "Workspaces_DeleteByID workspaceID =
     require (validStringID (Some workspaceID)) ErrInvalidWorkspaceID
       (perform (Workspaces (Workspace_DeleteByID workspaceID)))"

definition valid_AssignSSHKeyOptions :: "string option \<Rightarrow> go_error option" where
  "valid_AssignSSHKeyOptions sshKeyID =
     (if \<not> validString sshKeyID then Some (ErrorString ''SSH key ID is required'')
      else if \<not> validStringID sshKeyID then Some (ErrorString ''invalid value for SSH key ID'')
      else None)"

definition Workspaces_AssignSSHKey :: "string \<Rightarrow> string \<Rightarrow> tfc_Workspace go" where
  "Workspaces_AssignSSHKey workspaceID sshKeyID =
     require (validStringID (Some workspaceID)) ErrInvalidWorkspaceID
       (check_options (valid_AssignSSHKeyOptions (Some sshKeyID))
         (call (Workspaces (Workspace_AssignSSHKey workspaceID sshKeyID)) as_workspace))"

definition Workspaces_UnassignSSHKey :: "string \<Rightarrow> tfc_Workspace go" where
  "Workspaces_UnassignSSHKey workspaceID =
     require (validStringID (Some workspaceID)) ErrInvalidWorkspaceID
       (call (Workspaces (Workspace_UnassignSSHKey workspaceID)) as_workspace)"

section \<open>Variables\<close>

definition Variables_List :: "string \<Rightarrow> nat \<Rightarrow> tfc_Variable list go" where
  "Variables_List workspaceID page_size =
     require (validStringID (Some workspaceID)) ErrInvalidWorkspaceID
       (call (Variables (Variable_List workspaceID page_size)) as_variables)"

definition valid_VariableCreateOptions :: "VariableCreateOptions \<Rightarrow> go_error option" where
  "valid_VariableCreateOptions opts =
     (if \<not> validString (vco_Key opts) then Some (ErrorString ''key is required'')
      else if vco_Category opts = None then Some (ErrorString ''category is required'')
      else None)"

definition Variables_Create :: "string \<Rightarrow> VariableCreateOptions \<Rightarrow> unit go" where
  "Variables_Create workspaceID opts =
     require (validStringID (Some workspaceID)) ErrInvalidWorkspaceID
       (check_options (valid_VariableCreateOptions opts)
         (perform (Variables (Variable_Create workspaceID opts))))"

definition Variables_Update :: "string \<Rightarrow> string \<Rightarrow> VariableUpdateOptions \<Rightarrow> unit go" where
  "Variables_Update workspaceID variableID opts =
     require (validStringID (Some workspaceID)) ErrInvalidWorkspaceID
       (require (validStringID (Some variableID)) (ErrorString ''invalid value for variable ID'')
         (perform (Variables (Variable_Update workspaceID variableID opts))))"

definition Variables_Delete :: "string \<Rightarrow> string \<Rightarrow> unit go" where
  "Variables_Delete workspaceID variableID =
     require (validStringID (Some workspaceID)) ErrInvalidWorkspaceID
       (require (validStringID (Some variableID)) (ErrorString ''invalid value for variable ID'')
         (perform (Variables (Variable_Delete workspaceID variableID))))"

section \<open>Runs\<close>

definition Runs_List :: "string \<Rightarrow> Run list go" where
  "Runs_List workspaceID =
     require (validStringID (Some workspaceID)) ErrInvalidWorkspaceID
       (call (Runs (Run_List workspaceID)) as_runs)"

definition Runs_Create :: "RunCreateOptions \<Rightarrow> Run go" where
  "Runs_Create opts =
     require (rco_Workspace opts \<noteq> None) (ErrorString ''workspace is required'')
       (call (Runs (Run_Create opts)) as_run)"

definition Runs_Read :: "string \<Rightarrow> Run go" where
  "Runs_Read runID =
     require (validStringID (Some runID)) ErrInvalidRunID
       (call (Runs (Run_Read runID)) as_run)"

definition Runs_ForceCancel :: "string \<Rightarrow> string option \<Rightarrow> unit go" where
  "Runs_ForceCancel runID comment =
     require (validStringID (Some runID)) ErrInvalidRunID
       (perform (Runs (Run_ForceCancel runID comment)))"

section \<open>Run triggers\<close>

definition valid_RunTriggerListOptions :: "string option \<Rightarrow> go_error option" where
  "valid_RunTriggerListOptions rtype =
     (if \<not> validString rtype then Some (ErrorString ''run-trigger type is required'')
      else if rtype \<noteq> Some ''inbound'' \<and> rtype \<noteq> Some ''outbound'' then
        Some (ErrorString ''invalid value for run-trigger type'')
      else None)"

definition RunTriggers_List :: "string \<Rightarrow> string \<Rightarrow> tfc_RunTrigger list go" where
  "RunTriggers_List workspaceID rtype =
     require (validStringID (Some workspaceID)) ErrInvalidWorkspaceID
       (check_options (valid_RunTriggerListOptions (Some rtype))
         (call (RunTriggers (RunTrigger_List workspaceID rtype)) as_runtriggers))"

definition RunTriggers_Create :: "string \<Rightarrow> tfc_Workspace option \<Rightarrow> unit go" where
  "RunTriggers_Create workspaceID sourceable =
     require (validStringID (Some workspaceID)) ErrInvalidWorkspaceID
       (case sourceable of
          None \<Rightarrow> fail (ErrorString ''sourceable is required'')
        | Some w \<Rightarrow> perform (RunTriggers (RunTrigger_Create workspaceID w)))"

definition RunTriggers_Delete :: "string \<Rightarrow> unit go" where
  "RunTriggers_Delete runTriggerID =
     require (validStringID (Some runTriggerID)) (ErrorString ''invalid value for run trigger ID'')
       (perform (RunTriggers (RunTrigger_Delete runTriggerID)))"

section \<open>Configuration versions\<close>

definition ConfigurationVersions_List :: "string \<Rightarrow> ConfigurationVersion list go" where
  "ConfigurationVersions_List workspaceID =
     require (validStringID (Some workspaceID)) ErrInvalidWorkspaceID
       (call (ConfigVersions (ConfigVersion_List workspaceID)) as_configversions)"

definition ConfigurationVersions_Create ::
    "string \<Rightarrow> bool option \<Rightarrow> bool option \<Rightarrow> ConfigurationVersion go" where
  "ConfigurationVersions_Create workspaceID auto_queue spec =
     require (validStringID (Some workspaceID)) ErrInvalidWorkspaceID
       (call (ConfigVersions (ConfigVersion_Create workspaceID auto_queue spec)) as_configversion)"

definition ConfigurationVersions_Read :: "string \<Rightarrow> ConfigurationVersion go" where
  "ConfigurationVersions_Read cvID =
     require (validStringID (Some cvID)) ErrInvalidConfigVersionID
       (call (ConfigVersions (ConfigVersion_Read cvID)) as_configversion)"

text \<open>\<open>slug.Pack\<close> of another package reads the directory; its archive is the environment's answer.\<close>

definition ConfigurationVersions_Upload :: "string \<Rightarrow> string \<Rightarrow> unit go" where
  "ConfigurationVersions_Upload url path =
     andThen (call (Host (Stat path)) as_fileinfo) (\<lambda>is_dir.
     require is_dir ErrMissingDirectory
       (andThen (call (Host (Pack path)) as_bytes) (\<lambda>body.
        perform (ConfigVersions (ConfigVersion_Put url body)))))"

section \<open>Notification configurations\<close>

definition NotificationConfigurations_List :: "string \<Rightarrow> NotificationConfiguration list go" where
  "NotificationConfigurations_List workspaceID =
     require (validStringID (Some workspaceID)) ErrInvalidWorkspaceID
       (call (Notifications (Notification_List workspaceID)) as_notifications)"

definition valid_NotificationCreateOptions ::
    "NotificationConfigurationCreateOptions \<Rightarrow> go_error option" where
  "valid_NotificationCreateOptions opts =
     (case nco_DestinationType opts of
        None \<Rightarrow> Some (ErrorString ''destination type is required'')
      | Some dt \<Rightarrow>
          if nco_Enabled opts = None then Some (ErrorString ''enabled is required'')
          else if \<not> validString (nco_Name opts) then Some ErrRequiredName
          else if (dt = ''generic'' \<or> dt = ''slack'') \<and> nco_URL opts = None
          then Some (ErrorString ''url is required'')
          else None)"

definition NotificationConfigurations_Create ::
    "string \<Rightarrow> NotificationConfigurationCreateOptions \<Rightarrow> unit go" where
  "NotificationConfigurations_Create workspaceID opts =
     require (validStringID (Some workspaceID)) ErrInvalidWorkspaceID
       (check_options (valid_NotificationCreateOptions opts)
         (perform (Notifications (Notification_Create workspaceID opts))))"

definition NotificationConfigurations_Delete :: "string \<Rightarrow> unit go" where
  "NotificationConfigurations_Delete ncID =
     require (validStringID (Some ncID)) (ErrorString ''invalid value for notification configuration ID'')
       (perform (Notifications (Notification_Delete ncID)))"

section \<open>State versions\<close>

text \<open>The current state version, of which the operator reads the download URL.\<close>

definition StateVersions_Current :: "string \<Rightarrow> string go" where
  "StateVersions_Current workspaceID =
     require (validStringID (Some workspaceID)) ErrInvalidWorkspaceID
       (call (StateVersions (StateVersion_Current workspaceID)) as_stateversion)"

definition StateVersions_Download :: "string \<Rightarrow> string go" where
  "StateVersions_Download url = call (StateVersions (StateVersion_Download url)) as_bytes"

section \<open>What the client sends\<close>

lemmas tfe_defs [run_simps] =
  require_def check_options_def
  Organizations_Read_def SSHKeys_List_def AgentPools_List_def
  Workspaces_Create_def Workspaces_Read_def Workspaces_ReadByID_def Workspaces_Update_def
  Workspaces_DeleteByID_def Workspaces_AssignSSHKey_def Workspaces_UnassignSSHKey_def
  Variables_List_def Variables_Create_def Variables_Update_def Variables_Delete_def
  Runs_List_def Runs_Create_def Runs_Read_def Runs_ForceCancel_def
  RunTriggers_List_def RunTriggers_Create_def RunTriggers_Delete_def
  ConfigurationVersions_List_def ConfigurationVersions_Create_def ConfigurationVersions_Read_def
  ConfigurationVersions_Upload_def
  NotificationConfigurations_List_def NotificationConfigurations_Create_def
  NotificationConfigurations_Delete_def StateVersions_Current_def StateVersions_Download_def

lemma emits_tfe [emits_rules]:
  "P (Organizations (Organization_Read x)) \<Longrightarrow> emits P (Organizations_Read x)"
  "P (Organizations (SSHKey_List x)) \<Longrightarrow> emits P (SSHKeys_List x)"
  "P (Organizations (AgentPool_List x n)) \<Longrightarrow> emits P (AgentPools_List x n)"
  "P (Workspaces (Workspace_Create x co)) \<Longrightarrow> emits P (Workspaces_Create x co)"
  "P (Workspaces (Workspace_Read x y)) \<Longrightarrow> emits P (Workspaces_Read x y)"
  "P (Workspaces (Workspace_ReadByID x)) \<Longrightarrow> emits P (Workspaces_ReadByID x)"
  "P (Workspaces (Workspace_Update x y uo)) \<Longrightarrow> emits P (Workspaces_Update x y uo)"
  "P (Workspaces (Workspace_DeleteByID x)) \<Longrightarrow> emits P (Workspaces_DeleteByID x)"
  "P (Workspaces (Workspace_AssignSSHKey x y)) \<Longrightarrow> emits P (Workspaces_AssignSSHKey x y)"
  "P (Workspaces (Workspace_UnassignSSHKey x)) \<Longrightarrow> emits P (Workspaces_UnassignSSHKey x)"
  "P (Variables (Variable_List x n)) \<Longrightarrow> emits P (Variables_List x n)"
  "P (Variables (Variable_Create x vc)) \<Longrightarrow> emits P (Variables_Create x vc)"
  "P (Variables (Variable_Update x y vu)) \<Longrightarrow> emits P (Variables_Update x y vu)"
  "P (Variables (Variable_Delete x y)) \<Longrightarrow> emits P (Variables_Delete x y)"
  "P (Runs (Run_List x)) \<Longrightarrow> emits P (Runs_List x)"
  "P (Runs (Run_Create ro)) \<Longrightarrow> emits P (Runs_Create ro)"
  "P (Runs (Run_Read x)) \<Longrightarrow> emits P (Runs_Read x)"
  "P (Runs (Run_ForceCancel x c)) \<Longrightarrow> emits P (Runs_ForceCancel x c)"
  "P (RunTriggers (RunTrigger_List x y)) \<Longrightarrow> emits P (RunTriggers_List x y)"
  "(\<And>w. P (RunTriggers (RunTrigger_Create x w))) \<Longrightarrow> emits P (RunTriggers_Create x src)"
  "P (RunTriggers (RunTrigger_Delete x)) \<Longrightarrow> emits P (RunTriggers_Delete x)"
  "P (ConfigVersions (ConfigVersion_List x)) \<Longrightarrow> emits P (ConfigurationVersions_List x)"
  "P (ConfigVersions (ConfigVersion_Create x a b)) \<Longrightarrow> emits P (ConfigurationVersions_Create x a b)"
  "P (ConfigVersions (ConfigVersion_Read x)) \<Longrightarrow> emits P (ConfigurationVersions_Read x)"
  "P (Host (Stat y)) \<Longrightarrow> P (Host (Pack y)) \<Longrightarrow> (\<And>b. P (ConfigVersions (ConfigVersion_Put x b))) \<Longrightarrow>
     emits P (ConfigurationVersions_Upload x y)"
  "P (Notifications (Notification_List x)) \<Longrightarrow> emits P (NotificationConfigurations_List x)"
  "P (Notifications (Notification_Create x no)) \<Longrightarrow> emits P (NotificationConfigurations_Create x no)"
  "P (Notifications (Notification_Delete x)) \<Longrightarrow> emits P (NotificationConfigurations_Delete x)"
  "P (StateVersions (StateVersion_Current x)) \<Longrightarrow> emits P (StateVersions_Current x)"
  "P (StateVersions (StateVersion_Download x)) \<Longrightarrow> emits P (StateVersions_Download x)"
  unfolding tfe_defs(3-) by (intro emits_rules; assumption?)+

lemma returns_tfe [returns_rules]:
  "returns (Organizations_Read x)" "returns (SSHKeys_List x)" "returns (AgentPools_List x n)"
  "returns (Workspaces_Create x co)" "returns (Workspaces_Read x y)" "returns (Workspaces_ReadByID x)"
  "returns (Workspaces_Update x y uo)" "returns (Workspaces_DeleteByID x)"
  "returns (Workspaces_AssignSSHKey x y)" "returns (Workspaces_UnassignSSHKey x)"
  "returns (Variables_List x n)" "returns (Variables_Create x vc)" "returns (Variables_Update x y vu)"
  "returns (Variables_Delete x y)" "returns (Runs_List x)" "returns (Runs_Create ro)"
  "returns (Runs_Read x)" "returns (Runs_ForceCancel x c)" "returns (RunTriggers_List x y)"
  "returns (RunTriggers_Create x src)" "returns (RunTriggers_Delete x)"
  "returns (ConfigurationVersions_List x)" "returns (ConfigurationVersions_Create x a b)"
  "returns (ConfigurationVersions_Read x)" "returns (ConfigurationVersions_Upload x y)"
  "returns (NotificationConfigurations_List x)" "returns (NotificationConfigurations_Create x no)"
  "returns (NotificationConfigurations_Delete x)" "returns (StateVersions_Current x)"
  "returns (StateVersions_Download x)"
  unfolding tfe_defs(3-) by (intro returns_rules)+

lemma keeps_tfe [keeps_rules]:
  "keeps_client (Organizations_Read x)" "keeps_client (SSHKeys_List x)" "keeps_client (AgentPools_List x n)"
  "keeps_client (Workspaces_Create x co)" "keeps_client (Workspaces_Read x y)" "keeps_client (Workspaces_ReadByID x)"
  "keeps_client (Workspaces_Update x y uo)" "keeps_client (Workspaces_DeleteByID x)"
  "keeps_client (Workspaces_AssignSSHKey x y)" "keeps_client (Workspaces_UnassignSSHKey x)"
  "keeps_client (Variables_List x n)" "keeps_client (Variables_Create x vc)" "keeps_client (Variables_Update x y vu)"
  "keeps_client (Variables_Delete x y)" "keeps_client (Runs_List x)" "keeps_client (Runs_Create ro)"
  "keeps_client (Runs_Read x)" "keeps_client (Runs_ForceCancel x c)" "keeps_client (RunTriggers_List x y)"
  "keeps_client (RunTriggers_Create x src)" "keeps_client (RunTriggers_Delete x)"
  "keeps_client (ConfigurationVersions_List x)" "keeps_client (ConfigurationVersions_Create x a b)"
  "keeps_client (ConfigurationVersions_Read x)" "keeps_client (ConfigurationVersions_Upload x y)"
  "keeps_client (NotificationConfigurations_List x)" "keeps_client (NotificationConfigurations_Create x no)"
  "keeps_client (NotificationConfigurations_Delete x)" "keeps_client (StateVersions_Current x)"
  "keeps_client (StateVersions_Download x)"
  unfolding tfe_defs(3-) by (intro keeps_rules)+

text \<open>A successful call was one request, answered with the value returned.\<close>

lemma tfe_Ok:
  "Workspaces_Read x y E h t = Some (Ok w, t', ev) \<Longrightarrow>
     t' = t \<and> ev = [(Workspaces (Workspace_Read x y), Inr (R_Workspace w))]"
  "Workspaces_ReadByID x E h t = Some (Ok w, t', ev) \<Longrightarrow>
     t' = t \<and> ev = [(Workspaces (Workspace_ReadByID x), Inr (R_Workspace w))]"
  "Runs_Read x E h t = Some (Ok run, t', ev) \<Longrightarrow>
     t' = t \<and> ev = [(Runs (Run_Read x), Inr (R_Run run))]"
  "Runs_Create ro E h t = Some (Ok run, t', ev) \<Longrightarrow>
     t' = t \<and> ev = [(Runs (Run_Create ro), Inr (R_Run run))]"
  "Runs_List x E h t = Some (Ok rs, t', ev) \<Longrightarrow>
     t' = t \<and> ev = [(Runs (Run_List x), Inr (R_Runs rs))]"
  "Variables_List x n E h t = Some (Ok vs, t', ev) \<Longrightarrow>
     t' = t \<and> ev = [(Variables (Variable_List x n), Inr (R_Variables vs))]"
  "RunTriggers_List x y E h t = Some (Ok ts, t', ev) \<Longrightarrow>
     t' = t \<and> ev = [(RunTriggers (RunTrigger_List x y), Inr (R_RunTriggers ts))]"
  "NotificationConfigurations_List x E h t = Some (Ok ns, t', ev) \<Longrightarrow>
     t' = t \<and> ev = [(Notifications (Notification_List x), Inr (R_Notifications ns))]"
  by (auto simp: Workspaces_Read_def Workspaces_ReadByID_def Runs_Read_def Runs_Create_def
      Runs_List_def Variables_List_def RunTriggers_List_def NotificationConfigurations_List_def
      require_Ok check_options_Ok call_Ok elim!: as_workspace.elims as_run.elims as_runs.elims
      as_variables.elims as_runtriggers.elims as_notifications.elims)

end
