(* ===== verification/Variables_Sync.thy ===== *)
theory Variables_Sync
  imports Tfe_Client
begin

text \<open>
  \<open>workspacehelper/tfc_variable.go\<close>: the variables of a Terraform Cloud workspace follow
  the spec. Variables whose key the spec does not have are deleted, missing ones are
  created, and the others are updated where a non-sensitive one differs. The source
  mutates the spec's fresh \<open>tfc.Variable\<close>s in place (a value read from a file, the ID and
  workspace of the remote variable); each variable that is written so is processed by one
  of the three steps only, so the model passes the written copy on instead.
\<close>

section \<open>Definitions\<close>

definition PageSize :: nat where "PageSize = 500"

definition setVariableType :: "bool \<Rightarrow> string" where
  "setVariableType isEnvironmentVariable = (if isEnvironmentVariable then ''env'' else ''terraform'')"

definition MapToTFCVariable :: "Variable list \<Rightarrow> tfc_Variable list" where
  "MapToTFCVariable specVariables = map (\<lambda>variable. \<lparr>
     tv_ID = '''', tv_Key = v_Key variable, tv_Value = TrimSuffix (v_Value variable) nl,
     tv_Category = setVariableType (v_EnvironmentVariable variable), tv_HCL = v_HCL variable,
     tv_Sensitive = v_Sensitive variable, tv_Workspace = None\<rparr>) specVariables"

definition CheckSecretsMountPath :: "unit go" where
  "CheckSecretsMountPath =
     andThen get_client (\<lambda>t.
     andThen (attempt (call (Host (Stat (tf_SecretsMountPath t))) as_fileinfo)) (\<lambda>res.
     case res of
       Inl err \<Rightarrow>
         if os_IsNotExist err
         then fail (ErrorString (''Secrets Mount Path is invalid: '' @ tf_SecretsMountPath t))
         else ret ()
     | Inr _ \<Rightarrow> ret ()))"

primrec find_loop :: "int \<Rightarrow> tfc_Variable list \<Rightarrow> string \<Rightarrow> int" where
  "find_loop index [] key = -1"
| "find_loop index (variable # rest) key =
     (if tv_Key variable = key then index else find_loop (index + 1) rest key)"

definition find :: "tfc_Variable list \<Rightarrow> string \<Rightarrow> int" where
  "find tfcVariables key = find_loop 0 tfcVariables key"

definition listVariables :: "string \<Rightarrow> tfc_Variable list go" where
  "listVariables workspaceID = Variables_List workspaceID PageSize"

definition DeleteVariable :: "tfc_Variable \<Rightarrow> unit go" where
  "DeleteVariable variable =
     (case tv_Workspace variable of
        None \<Rightarrow> panic ''nil pointer dereference''
      | Some w \<Rightarrow> Variables_Delete (tw_ID w) (tv_ID variable))"

definition deleteVariablesFromTFC :: "tfc_Variable list \<Rightarrow> tfc_Variable list \<Rightarrow> unit go" where
  "deleteVariablesFromTFC specTFCVariables workspaceVariables =
     each (\<lambda>v. if find specTFCVariables (tv_Key v) < 0 then DeleteVariable v else ret ())
       workspaceVariables"

definition checkAndRetrieveIfSensitive :: "tfc_Variable \<Rightarrow> string \<Rightarrow> tfc_Variable go" where
  "checkAndRetrieveIfSensitive variable secretsMountPath =
     (if tv_Sensitive variable \<and> tv_Value variable = '''' then
        andThen (attempt (call (Host (ReadFile (secretsMountPath @ ''/'' @ tv_Key variable))) as_bytes))
        (\<lambda>res. case res of
           Inl err \<Rightarrow> fail (ErrorString (''could not get secret, '' @ error_text err))
         | Inr data \<Rightarrow> ret (variable\<lparr>tv_Value := data\<rparr>))
      else ret variable)"

definition CreateTerraformVariable :: "tfc_Workspace \<Rightarrow> tfc_Variable \<Rightarrow> unit go" where
  "CreateTerraformVariable workspace variable =
     andThen get_client (\<lambda>t.
     andThen (checkAndRetrieveIfSensitive variable (tf_SecretsMountPath t)) (\<lambda>v.
     Variables_Create (tw_ID workspace) \<lparr>vco_Key = Some (tv_Key v), vco_Value = Some (tv_Value v),
       vco_Category = Some (tv_Category v), vco_HCL = Some (tv_HCL v),
       vco_Sensitive = Some (tv_Sensitive v)\<rparr>))"

definition createVariablesOnTFC ::
    "tfc_Workspace \<Rightarrow> tfc_Variable list \<Rightarrow> tfc_Variable list \<Rightarrow> bool go" where
  "createVariablesOnTFC workspace specTFCVariables workspaceVariables =
     andThen (each (\<lambda>v. if find workspaceVariables (tv_Key v) < 0
                        then CreateTerraformVariable workspace v else ret ()) specTFCVariables)
     (\<lambda>_. ret (list_ex (\<lambda>v. find workspaceVariables (tv_Key v) < 0) specTFCVariables))"

definition checkIfVariableChanged :: "tfc_Variable \<Rightarrow> tfc_Variable \<Rightarrow> bool" where
  "checkIfVariableChanged specVariable workspaceVariable =
     (if tv_Value specVariable \<noteq> tv_Value workspaceVariable then True
      else if tv_HCL specVariable \<noteq> tv_HCL workspaceVariable then True
      else if \<not> tv_Sensitive specVariable \<and> tv_Sensitive workspaceVariable then True
      else False)"

primrec getNonSensitiveVariablesToUpdate ::
    "tfc_Variable list \<Rightarrow> tfc_Variable list \<Rightarrow> tfc_Variable list" where
  "getNonSensitiveVariablesToUpdate [] workspaceVariables = []"
| "getNonSensitiveVariablesToUpdate (v # vs) workspaceVariables =
     (let index = find workspaceVariables (tv_Key v); w = workspaceVariables ! nat index in
      if index < 0 \<or> tv_Sensitive w then getNonSensitiveVariablesToUpdate vs workspaceVariables
      else if checkIfVariableChanged v w then
        v\<lparr>tv_ID := tv_ID w, tv_Workspace := tv_Workspace w\<rparr>
          # getNonSensitiveVariablesToUpdate vs workspaceVariables
      else getNonSensitiveVariablesToUpdate vs workspaceVariables)"

primrec getSensitiveVariablesToUpdate ::
    "tfc_Variable list \<Rightarrow> tfc_Variable list \<Rightarrow> string \<Rightarrow> tfc_Variable list go" where
  "getSensitiveVariablesToUpdate [] workspaceVariables secretsMountPath = ret []"
| "getSensitiveVariablesToUpdate (v # vs) workspaceVariables secretsMountPath =
     (let index = find workspaceVariables (tv_Key v); w = workspaceVariables ! nat index in
      if index < 0 then getSensitiveVariablesToUpdate vs workspaceVariables secretsMountPath
      else if tv_Sensitive w then
        andThen (checkAndRetrieveIfSensitive v secretsMountPath) (\<lambda>v'.
        andThen (getSensitiveVariablesToUpdate vs workspaceVariables secretsMountPath) (\<lambda>rest.
        ret (v'\<lparr>tv_ID := tv_ID w, tv_Workspace := tv_Workspace w, tv_Sensitive := True\<rparr> # rest)))
      else getSensitiveVariablesToUpdate vs workspaceVariables secretsMountPath)"

definition generateUpdateVariableList ::
    "tfc_Variable list \<Rightarrow> tfc_Variable list \<Rightarrow> string \<Rightarrow> tfc_Variable list go" where
  "generateUpdateVariableList specTFCVariables workspaceVariables secretsMountPath =
     (let nonSensitive = getNonSensitiveVariablesToUpdate specTFCVariables workspaceVariables in
      if length nonSensitive = 0 then ret []
      else andThen (getSensitiveVariablesToUpdate specTFCVariables workspaceVariables secretsMountPath)
        (\<lambda>sensitive. ret (nonSensitive @ sensitive)))"

definition update_options :: "tfc_Variable \<Rightarrow> VariableUpdateOptions" where
  "update_options v = \<lparr>vuo_Key = Some (tv_Key v), vuo_Value = Some (tv_Value v),
     vuo_HCL = Some (tv_HCL v), vuo_Sensitive = Some (tv_Sensitive v)\<rparr>"

definition UpdateTerraformVariables :: "tfc_Variable list \<Rightarrow> unit go" where
  "UpdateTerraformVariables variables =
     (if length variables = 0 then ret ()
      else each (\<lambda>v. case tv_Workspace v of
          None \<Rightarrow> panic ''nil pointer dereference''
        | Some w \<Rightarrow> Variables_Update (tw_ID w) (tv_ID v) (update_options v)) variables)"

definition CheckVariables :: "string \<Rightarrow> tfc_Variable list \<Rightarrow> bool go" where
  "CheckVariables workspace specTFCVariables =
     andThen get_client (\<lambda>t.
     andThen (Workspaces_Read (tf_Organization t) workspace) (\<lambda>tfcWorkspace.
     andThen (listVariables (tw_ID tfcWorkspace)) (\<lambda>workspaceVariables.
     andThen (deleteVariablesFromTFC specTFCVariables workspaceVariables) (\<lambda>_.
     andThen (createVariablesOnTFC tfcWorkspace specTFCVariables workspaceVariables) (\<lambda>createdVariables.
     andThen (generateUpdateVariableList specTFCVariables workspaceVariables (tf_SecretsMountPath t))
     (\<lambda>variablesToUpdate.
       if length variablesToUpdate = 0 then ret False
       else andThen (UpdateTerraformVariables variablesToUpdate) (\<lambda>_.
            ret (createdVariables \<or> length variablesToUpdate > 0))))))))"

lemmas variables_defs [run_simps] = CheckSecretsMountPath_def listVariables_def DeleteVariable_def
  deleteVariablesFromTFC_def checkAndRetrieveIfSensitive_def CreateTerraformVariable_def
  createVariablesOnTFC_def generateUpdateVariableList_def UpdateTerraformVariables_def
  CheckVariables_def

section \<open>The search\<close>

lemma find_loop_shift:
  "0 \<le> i \<Longrightarrow> find_loop i vs k = (if find_loop 0 vs k < 0 then -1 else find_loop 0 vs k + i)"
proof (induction vs arbitrary: i)
  case Nil
  then show ?case by simp
next
  case (Cons v vs)
  from Cons.IH [of "i + 1"] Cons.IH [of 1] Cons.prems show ?case by simp
qed

interpretation vs: key_search find tv_Key
proof
  fix x :: tfc_Variable and xs :: "tfc_Variable list" and k
  show "find [] k = -1" by (simp add: find_def)
  show "find (x # xs) k =
    (if tv_Key x = k then 0 else if find xs k < 0 then -1 else find xs k + 1)"
    using find_loop_shift [of 1 xs k] by (simp add: find_def)
qed

section \<open>What the steps send\<close>

fun variable_delete :: "request \<Rightarrow> (string \<times> string) option" where
  "variable_delete (Variables (Variable_Delete w i)) = Some (w, i)"
| "variable_delete _ = None"

fun variable_create :: "request \<Rightarrow> (string \<times> VariableCreateOptions) option" where
  "variable_create (Variables (Variable_Create w c)) = Some (w, c)"
| "variable_create _ = None"

fun variable_update :: "request \<Rightarrow> (string \<times> string \<times> VariableUpdateOptions) option" where
  "variable_update (Variables (Variable_Update w i u)) = Some (w, i, u)"
| "variable_update _ = None"

text \<open>The requests of a synchronisation of variables, and which of them write.\<close>

definition variable_sync_request :: "request \<Rightarrow> bool" where
  "variable_sync_request q \<longleftrightarrow> is_Variables q \<or> (\<exists>o1 n. q = Workspaces (Workspace_Read o1 n)) \<or>
     (\<exists>f. q = Host (ReadFile f))"

lemma emits_checkAndRetrieve [emits_rules]:
  "(\<And>f. P (Host (ReadFile f))) \<Longrightarrow> emits P (checkAndRetrieveIfSensitive v path)"
  unfolding checkAndRetrieveIfSensitive_def by (intro emits_rules)

lemma emits_CreateTerraformVariable [emits_rules]:
  "(\<And>f. P (Host (ReadFile f))) \<Longrightarrow> (\<And>x c. P (Variables (Variable_Create x c))) \<Longrightarrow>
   emits P (CreateTerraformVariable w v)"
  unfolding CreateTerraformVariable_def by (intro emits_rules)

lemma emits_getSensitive [emits_rules]:
  assumes "\<And>f. P (Host (ReadFile f))"
  shows "emits P (getSensitiveVariablesToUpdate spec remote path)"
  by (induction spec) (auto simp: Let_def assms intro!: emits_rules)

lemma emits_deleteVariables [emits_rules]:
  "(\<And>x i. P (Variables (Variable_Delete x i))) \<Longrightarrow> emits P (deleteVariablesFromTFC spec remote)"
  unfolding deleteVariablesFromTFC_def DeleteVariable_def by (intro emits_rules)

lemma emits_createVariables [emits_rules]:
  "(\<And>f. P (Host (ReadFile f))) \<Longrightarrow> (\<And>x c. P (Variables (Variable_Create x c))) \<Longrightarrow>
   emits P (createVariablesOnTFC w spec remote)"
  unfolding createVariablesOnTFC_def by (intro emits_rules)

lemma emits_generateUpdate [emits_rules]:
  "(\<And>f. P (Host (ReadFile f))) \<Longrightarrow> emits P (generateUpdateVariableList spec remote path)"
  unfolding generateUpdateVariableList_def by (intro emits_rules)

lemma emits_UpdateTerraformVariables [emits_rules]:
  "(\<And>x i u. P (Variables (Variable_Update x i u))) \<Longrightarrow> emits P (UpdateTerraformVariables vs)"
  unfolding UpdateTerraformVariables_def by (intro emits_rules)

lemma emits_CheckVariables [emits_rules]:
  assumes "\<And>q. variable_sync_request q \<Longrightarrow> P q"
  shows "emits P (CheckVariables name spec)"
  unfolding CheckVariables_def listVariables_def
  by (intro emits_rules; rule assms) (auto simp: variable_sync_request_def)

lemma emits_CheckSecretsMountPath [emits_rules]:
  "(\<And>f. P (Host (Stat f))) \<Longrightarrow> emits P CheckSecretsMountPath"
  unfolding CheckSecretsMountPath_def by (intro emits_rules)

lemma returns_getSensitive [returns_rules]: "returns (getSensitiveVariablesToUpdate spec remote path)"
  by (induction spec) (auto simp: Let_def checkAndRetrieveIfSensitive_def intro!: returns_rules)

lemma returns_variables [returns_rules]:
  "returns CheckSecretsMountPath" "returns (CheckVariables name spec)"
  unfolding variables_defs by (intro returns_rules)+

lemma keeps_getSensitive [keeps_rules]:
  "keeps_client (getSensitiveVariablesToUpdate spec remote path)"
  by (induction spec) (auto simp: Let_def checkAndRetrieveIfSensitive_def intro!: keeps_rules)

lemma keeps_variables [keeps_rules]:
  "keeps_client CheckSecretsMountPath" "keeps_client (CheckVariables name spec)"
  unfolding variables_defs by (intro keeps_rules)+

section \<open>The plan\<close>

definition remote_of :: "tfc_Variable list \<Rightarrow> tfc_Variable \<Rightarrow> tfc_Variable" where
  "remote_of remote v = remote ! nat (find remote (tv_Key v))"

definition to_update :: "tfc_Variable list \<Rightarrow> tfc_Variable \<Rightarrow> bool" where
  "to_update remote v \<longleftrightarrow> 0 \<le> find remote (tv_Key v) \<and> \<not> tv_Sensitive (remote_of remote v) \<and>
     checkIfVariableChanged v (remote_of remote v)"

definition to_rewrite :: "tfc_Variable list \<Rightarrow> tfc_Variable \<Rightarrow> bool" where
  "to_rewrite remote v \<longleftrightarrow> 0 \<le> find remote (tv_Key v) \<and> tv_Sensitive (remote_of remote v)"

text \<open>The variable sent for \<open>v\<close>: the remote one's identity, always sensitive, maybe a value from a file.\<close>

definition refreshed :: "tfc_Variable list \<Rightarrow> tfc_Variable \<Rightarrow> tfc_Variable \<Rightarrow> bool" where
  "refreshed remote s v \<longleftrightarrow> s = v\<lparr>tv_ID := tv_ID (remote_of remote v),
     tv_Workspace := tv_Workspace (remote_of remote v), tv_Sensitive := True, tv_Value := tv_Value s\<rparr>"

lemma refreshed_fields:
  assumes "refreshed remote s v"
  shows "tv_Key s = tv_Key v" "tv_ID s = tv_ID (remote_of remote v)" "tv_HCL s = tv_HCL v"
    "tv_Workspace s = tv_Workspace (remote_of remote v)" "tv_Sensitive s"
  using assms unfolding refreshed_def by (cases s, simp)+

lemma checkIfVariableChanged_iff:
  "checkIfVariableChanged v w \<longleftrightarrow>
   tv_Value v \<noteq> tv_Value w \<or> tv_HCL v \<noteq> tv_HCL w \<or> \<not> tv_Sensitive v \<and> tv_Sensitive w"
  by (auto simp: checkIfVariableChanged_def)

lemma remote_of_in:
  assumes "0 \<le> find remote (tv_Key v)"
  shows "remote_of remote v \<in> set remote" "tv_Key (remote_of remote v) = tv_Key v"
  using assms vs.search_bounds vs.search_key unfolding remote_of_def by auto

lemma getNonSensitive_eq:
  "getNonSensitiveVariablesToUpdate spec remote =
   map (\<lambda>v. v\<lparr>tv_ID := tv_ID (remote_of remote v), tv_Workspace := tv_Workspace (remote_of remote v)\<rparr>)
     (filter (to_update remote) spec)"
  by (induction spec) (auto simp: Let_def to_update_def remote_of_def)

lemma getSensitive_Ok:
  assumes "getSensitiveVariablesToUpdate spec remote path E h t = Some (Ok ss, t', ev)"
  shows "list_all2 (refreshed remote) ss (filter (to_rewrite remote) spec)"
  using assms
proof (induction spec arbitrary: ss h t ev)
  case Nil
  then show ?case by simp
next
  case (Cons v vs)
  show ?case
  proof (cases "to_rewrite remote v")
    case True
    with Cons.prems obtain v' h1 t1 ev1 h2 t2 ev2 rest where
      v': "checkAndRetrieveIfSensitive v path E h1 t1 = Some (Ok v', t2, ev1)"
      and rest: "getSensitiveVariablesToUpdate vs remote path E h2 t2 = Some (Ok rest, t', ev2)"
      and ss: "ss = v'\<lparr>tv_ID := tv_ID (remote_of remote v),
        tv_Workspace := tv_Workspace (remote_of remote v), tv_Sensitive := True\<rparr> # rest"
      by (fastforce simp: Let_def to_rewrite_def remote_of_def elim!: andThen_OkE split: if_splits)
    from v' have "v' = v\<lparr>tv_Value := tv_Value v'\<rparr>"
      by (auto simp: checkAndRetrieveIfSensitive_def attempt_Some elim!: andThen_OkE
          split: if_splits sum.splits)
    then have "refreshed remote (v'\<lparr>tv_ID := tv_ID (remote_of remote v),
        tv_Workspace := tv_Workspace (remote_of remote v), tv_Sensitive := True\<rparr>) v"
      unfolding refreshed_def by (cases v; cases v') simp
    with Cons.IH [OF rest] ss True show ?thesis by simp
  next
    case False
    with Cons.prems have "getSensitiveVariablesToUpdate vs remote path E h t = Some (Ok ss, t', ev)"
      by (auto simp: Let_def to_rewrite_def remote_of_def split: if_splits)
    from Cons.IH [OF this] False show ?thesis by simp
  qed
qed

lemma generateUpdate_Ok:
  assumes "generateUpdateVariableList spec remote path E h t = Some (Ok us, t', ev)"
  shows "us = [] \<longleftrightarrow> filter (to_update remote) spec = []"
    and "us \<noteq> [] \<Longrightarrow> map (\<lambda>u. (tv_Key u, tv_ID u, tv_Workspace u)) us =
      map (\<lambda>v. (tv_Key v, tv_ID (remote_of remote v), tv_Workspace (remote_of remote v)))
        (filter (to_update remote) spec @ filter (to_rewrite remote) spec)"
    and "u \<in> set us \<Longrightarrow> \<exists>v \<in> set spec. tv_Key u = tv_Key v \<and> tv_HCL u = tv_HCL v \<and>
      tv_ID u = tv_ID (remote_of remote v) \<and> tv_Workspace u = tv_Workspace (remote_of remote v) \<and>
      0 \<le> find remote (tv_Key v) \<and> (tv_Sensitive (remote_of remote v) \<longrightarrow> tv_Sensitive u) \<and>
      (\<not> tv_Sensitive (remote_of remote v) \<longrightarrow> tv_Value u = tv_Value v \<and> tv_Sensitive u = tv_Sensitive v)"
proof -
  let ?ns = "getNonSensitiveVariablesToUpdate spec remote"
  show iff: "us = [] \<longleftrightarrow> filter (to_update remote) spec = []"
    using assms by (auto simp: generateUpdateVariableList_def Let_def getNonSensitive_eq
        elim!: andThen_OkE split: if_splits)
  have "\<exists>ss. us = ?ns @ ss \<and> list_all2 (refreshed remote) ss (filter (to_rewrite remote) spec)" if "us \<noteq> []"
    using assms that by (auto simp: generateUpdateVariableList_def Let_def
        elim!: andThen_OkE dest: getSensitive_Ok split: if_splits)
  then obtain ss where us: "us \<noteq> [] \<Longrightarrow> us = ?ns @ ss" and ss: "us \<noteq> [] \<Longrightarrow>
      list_all2 (refreshed remote) ss (filter (to_rewrite remote) spec)" by blast
  have upd: "map (\<lambda>u. (tv_Key u, tv_ID u, tv_Workspace u)) ss =
      map (\<lambda>v. (tv_Key v, tv_ID (remote_of remote v), tv_Workspace (remote_of remote v))) vs"
    if "list_all2 (refreshed remote) ss vs" for ss vs
    using that by (induction rule: list_all2_induct) (auto dest: refreshed_fields)
  show "us \<noteq> [] \<Longrightarrow> map (\<lambda>u. (tv_Key u, tv_ID u, tv_Workspace u)) us =
      map (\<lambda>v. (tv_Key v, tv_ID (remote_of remote v), tv_Workspace (remote_of remote v)))
        (filter (to_update remote) spec @ filter (to_rewrite remote) spec)"
    using us upd [OF ss] by (simp add: getNonSensitive_eq)
  show "\<exists>v \<in> set spec. tv_Key u = tv_Key v \<and> tv_HCL u = tv_HCL v \<and>
      tv_ID u = tv_ID (remote_of remote v) \<and> tv_Workspace u = tv_Workspace (remote_of remote v) \<and>
      0 \<le> find remote (tv_Key v) \<and> (tv_Sensitive (remote_of remote v) \<longrightarrow> tv_Sensitive u) \<and>
      (\<not> tv_Sensitive (remote_of remote v) \<longrightarrow> tv_Value u = tv_Value v \<and> tv_Sensitive u = tv_Sensitive v)"
    if u: "u \<in> set us"
  proof -
    from u have ne: "us \<noteq> []" by auto
    with u us consider (ns) "u \<in> set ?ns" | (s) "u \<in> set ss" by auto
    then show ?thesis
    proof cases
      case ns
      then show ?thesis by (auto simp: getNonSensitive_eq to_update_def)
    next
      case s
      from list_all2_setD [OF ss [OF ne] s] obtain v
        where "v \<in> set spec" "to_rewrite remote v" "refreshed remote u v" by auto
      then show ?thesis
        by (intro bexI [of _ v]) (auto simp: refreshed_fields to_rewrite_def)
    qed
  qed
qed

section \<open>A synchronisation that succeeds\<close>

definition update_key :: "string \<times> string \<times> VariableUpdateOptions \<Rightarrow> string \<times> string option" where
  "update_key p = (case p of (w, i, u) \<Rightarrow> (i, vuo_Key u))"

lemma deleteVariables_sent:
  assumes "deleteVariablesFromTFC spec remote E h t = Some (Ok x, t', ev)"
  shows "sent variable_delete ev =
    map (\<lambda>v. (tw_ID (the (tv_Workspace v)), tv_ID v)) (vs.extras spec remote)"
proof -
  have step: "sent variable_delete ev = [(tw_ID (the (tv_Workspace v)), tv_ID v)]"
    if "DeleteVariable v E h t = Some (Ok (), t', ev)" for v h t t' ev
    using that by (auto simp: DeleteVariable_def Variables_Delete_def require_Ok perform_Ok
        split: option.splits)
  from assms have "each DeleteVariable (vs.extras spec remote) E h t = Some (Ok x, t', ev)"
    by (simp add: deleteVariablesFromTFC_def each_filter vs.extras_def)
  from each_Ok_sent [OF this step] show ?thesis by (simp add: concat_map_singleton)
qed

lemma createVariables_sent:
  assumes "createVariablesOnTFC w spec remote E h t = Some (Ok b, t', ev)"
  shows "map (\<lambda>(i, c). (i, vco_Key c)) (sent variable_create ev) =
      map (\<lambda>v. (tw_ID w, Some (tv_Key v))) (vs.missing spec remote)"
    and "b \<longleftrightarrow> vs.missing spec remote \<noteq> []"
proof -
  have step: "map (\<lambda>(i, c). (i, vco_Key c)) (sent variable_create ev) = [(tw_ID w, Some (tv_Key v))]"
    if "CreateTerraformVariable w v E h t = Some (Ok (), t', ev)" for v h t t' ev
    using that by (auto simp: CreateTerraformVariable_def checkAndRetrieveIfSensitive_def attempt_Some
        call_Ok call_Some Variables_Create_def require_Ok check_options_Ok perform_Ok
        elim!: andThen_OkE split: if_splits sum.splits)
  let ?d = "\<lambda>q. map_option (\<lambda>(i, c). (i, vco_Key c)) (variable_create q)"
  have sent_map: "sent ?d ev = map (\<lambda>(i, c). (i, vco_Key c)) (sent variable_create ev)" for ev
    by (induction ev) (auto split: option.splits)
  from assms obtain u where "each (CreateTerraformVariable w) (vs.missing spec remote) E h t = Some (Ok u, t', ev)"
    and b: "b \<longleftrightarrow> list_ex (\<lambda>v. find remote (tv_Key v) < 0) spec"
    by (auto simp: createVariablesOnTFC_def each_filter vs.missing_def elim!: andThen_OkE)
  from each_Ok_sent [OF this(1), of ?d "\<lambda>v. [(tw_ID w, Some (tv_Key v))]"] step
  show "map (\<lambda>(i, c). (i, vco_Key c)) (sent variable_create ev) =
      map (\<lambda>v. (tw_ID w, Some (tv_Key v))) (vs.missing spec remote)"
    by (simp add: sent_map concat_map_singleton)
  from b show "b \<longleftrightarrow> vs.missing spec remote \<noteq> []"
    by (auto simp: vs.missing_def list_ex_iff filter_empty_conv)
qed

lemma updateVariables_sent:
  assumes "UpdateTerraformVariables us E h t = Some (Ok x, t', ev)"
  shows "sent variable_update ev =
    map (\<lambda>u. (tw_ID (the (tv_Workspace u)), tv_ID u, update_options u)) us"
proof -
  let ?f = "\<lambda>v. case tv_Workspace v of
      None \<Rightarrow> panic ''nil pointer dereference''
    | Some w \<Rightarrow> Variables_Update (tw_ID w) (tv_ID v) (update_options v)"
  have step: "sent variable_update ev = [(tw_ID (the (tv_Workspace v)), tv_ID v, update_options v)]"
    if "?f v E h t = Some (Ok (), t', ev)" for v h t t' ev
    using that by (auto simp: Variables_Update_def require_Ok perform_Ok split: option.splits)
  from assms have "each ?f us E h t = Some (Ok x, t', ev)"
    by (auto simp: UpdateTerraformVariables_def split: if_splits)
  from each_Ok_sent [OF this step] show ?thesis by (simp add: concat_map_singleton)
qed

text \<open>The steps of a successful run.\<close>

lemma CheckVariables_OkE:
  assumes "CheckVariables name spec E h t = Some (Ok b, t', ev)"
  obtains w remote us ev1 ev2 ev3 ev4 h1 h2 h3 h4 t1 t2 t3 t4 x1 x2 cb where
    "ev = (Workspaces (Workspace_Read (tf_Organization t) name), Inr (R_Workspace w)) #
          (Variables (Variable_List (tw_ID w) PageSize), Inr (R_Variables remote)) # ev1 @ ev2 @ ev3 @ ev4"
    "deleteVariablesFromTFC spec remote E h1 t = Some (Ok x1, t1, ev1)"
    "createVariablesOnTFC w spec remote E h2 t1 = Some (Ok cb, t2, ev2)"
    "generateUpdateVariableList spec remote (tf_SecretsMountPath t) E h3 t2 = Some (Ok us, t3, ev3)"
    "us = [] \<and> ev4 = [] \<and> \<not> b \<or>
     us \<noteq> [] \<and> b \<and> UpdateTerraformVariables us E h4 t3 = Some (Ok x2, t4, ev4)"
proof -
  let ?last = "\<lambda>us cb. if length us = 0 then ret False
    else andThen (UpdateTerraformVariables us) (\<lambda>_. ret (cb \<or> length us > 0))"
  from assms obtain w remote x1 t1 ev1 cb t2 ev2 us t3 ev3 ev4 h1 h2 h3 h4 where
    ev: "ev = (Workspaces (Workspace_Read (tf_Organization t) name), Inr (R_Workspace w)) #
          (Variables (Variable_List (tw_ID w) PageSize), Inr (R_Variables remote)) # ev1 @ ev2 @ ev3 @ ev4"
    and steps: "deleteVariablesFromTFC spec remote E h1 t = Some (Ok x1, t1, ev1)"
      "createVariablesOnTFC w spec remote E h2 t1 = Some (Ok cb, t2, ev2)"
      "generateUpdateVariableList spec remote (tf_SecretsMountPath t) E h3 t2 = Some (Ok us, t3, ev3)"
    and last: "?last us cb E h4 t3 = Some (Ok b, t', ev4)"
    unfolding CheckVariables_def listVariables_def
    by (auto elim!: andThen_OkE dest!: tfe_Ok split del: if_split)
  show ?thesis
  proof (cases "us = []")
    case True
    with last show ?thesis by (intro that [OF ev steps]) auto
  next
    case False
    with last obtain x2 t4 where "UpdateTerraformVariables us E h4 t3 = Some (Ok x2, t4, ev4)" "b"
      by (auto elim!: andThen_OkE)
    with False show ?thesis by (intro that [OF ev steps]) auto
  qed
qed

lemma key_filters:
  "vs.extras spec remote = filter (\<lambda>v. tv_Key v \<notin> tv_Key ` set spec) remote"
  "vs.missing spec remote = filter (\<lambda>v. tv_Key v \<notin> tv_Key ` set remote) spec"
  by (simp_all add: vs.extras_def vs.missing_def vs.search_neg)

lemma CheckVariables_sent:
  assumes "deleteVariablesFromTFC spec remote E h1 t = Some (Ok x1, t1, ev1)"
    "createVariablesOnTFC w spec remote E h2 t1 = Some (Ok cb, t2, ev2)"
    "generateUpdateVariableList spec remote path E h3 t2 = Some (Ok us, t3, ev3)"
    "us = [] \<and> ev4 = [] \<and> \<not> b \<or>
     us \<noteq> [] \<and> b \<and> UpdateTerraformVariables us E h4 t3 = Some (Ok x2, t4, ev4)"
  shows "sent variable_delete (ev1 @ ev2 @ ev3 @ ev4) = sent variable_delete ev1"
    and "sent variable_create (ev1 @ ev2 @ ev3 @ ev4) = sent variable_create ev2"
    and "sent variable_update (ev1 @ ev2 @ ev3 @ ev4) =
      map (\<lambda>u. (tw_ID (the (tv_Workspace u)), tv_ID u, update_options u)) us"
proof -
  have e: "emits (\<lambda>q. variable_create q = None) (deleteVariablesFromTFC spec remote)"
    "emits (\<lambda>q. variable_update q = None) (deleteVariablesFromTFC spec remote)"
    "emits (\<lambda>q. variable_delete q = None) (createVariablesOnTFC w spec remote)"
    "emits (\<lambda>q. variable_update q = None) (createVariablesOnTFC w spec remote)"
    "emits (\<lambda>q. variable_delete q = None) (generateUpdateVariableList spec remote path)"
    "emits (\<lambda>q. variable_create q = None) (generateUpdateVariableList spec remote path)"
    "emits (\<lambda>q. variable_update q = None) (generateUpdateVariableList spec remote path)"
    by (intro emits_rules; simp)+
  note sent_none [OF e(1) assms(1)] sent_none [OF e(2) assms(1)] sent_none [OF e(3) assms(2)]
    sent_none [OF e(4) assms(2)] sent_none [OF e(5) assms(3)] sent_none [OF e(6) assms(3)]
    sent_none [OF e(7) assms(3)]
  moreover have "sent variable_delete ev4 = []" "sent variable_create ev4 = []"
  proof -
    have "emits (\<lambda>q. variable_delete q = None) (UpdateTerraformVariables us)"
      "emits (\<lambda>q. variable_create q = None) (UpdateTerraformVariables us)"
      by (intro emits_rules, simp)+
    with assms(4) show "sent variable_delete ev4 = []" "sent variable_create ev4 = []"
      by (auto dest: sent_none)
  qed
  ultimately show "sent variable_delete (ev1 @ ev2 @ ev3 @ ev4) = sent variable_delete ev1"
    "sent variable_create (ev1 @ ev2 @ ev3 @ ev4) = sent variable_create ev2"
    "sent variable_update (ev1 @ ev2 @ ev3 @ ev4) =
      map (\<lambda>u. (tw_ID (the (tv_Workspace u)), tv_ID u, update_options u)) us"
    using assms(4) updateVariables_sent by auto
qed

lemma CheckVariables_writes:
  assumes "CheckVariables name spec E h t = Some (Ok b, t', ev)"
  shows "\<exists>w remote rest.
    ev = (Workspaces (Workspace_Read (tf_Organization t) name), Inr (R_Workspace w)) #
         (Variables (Variable_List (tw_ID w) PageSize), Inr (R_Variables remote)) # rest \<and>
    sent variable_delete rest = map (\<lambda>v. (tw_ID (the (tv_Workspace v)), tv_ID v))
      (filter (\<lambda>v. tv_Key v \<notin> tv_Key ` set spec) remote) \<and>
    map (\<lambda>(i, c). (i, vco_Key c)) (sent variable_create rest) = map (\<lambda>v. (tw_ID w, Some (tv_Key v)))
      (filter (\<lambda>v. tv_Key v \<notin> tv_Key ` set remote) spec) \<and>
    map update_key (sent variable_update rest) =
      (if b then map (\<lambda>v. (tv_ID (remote_of remote v), Some (tv_Key v)))
         (filter (to_update remote) spec @ filter (to_rewrite remote) spec) else []) \<and>
    (b \<longleftrightarrow> (\<exists>v \<in> set spec. to_update remote v))"
  using assms
proof (cases rule: CheckVariables_OkE)
  case (1 w remote us ev1 ev2 ev3 ev4 h1 h2 h3 h4 t1 t2 t3 t4 x1 x2 cb)
  note sent = CheckVariables_sent [OF 1(2-5)]
  from 1(5) have b: "b \<longleftrightarrow> us \<noteq> []" by auto
  have keys: "map update_key (map (\<lambda>u. (tw_ID (the (tv_Workspace u)), tv_ID u, update_options u)) us) =
    map (\<lambda>(k, i, _). (i, Some k)) (map (\<lambda>u. (tv_Key u, tv_ID u, tv_Workspace u)) us)"
    by (simp add: update_key_def update_options_def)
  show ?thesis
  proof (intro exI conjI)
    show "ev = (Workspaces (Workspace_Read (tf_Organization t) name), Inr (R_Workspace w)) #
         (Variables (Variable_List (tw_ID w) PageSize), Inr (R_Variables remote)) # (ev1 @ ev2 @ ev3 @ ev4)"
      using 1(1) by simp
    show "b \<longleftrightarrow> (\<exists>v \<in> set spec. to_update remote v)"
      using b generateUpdate_Ok(1) [OF 1(4)] by (auto simp: filter_empty_conv)
    show "map update_key (sent variable_update (ev1 @ ev2 @ ev3 @ ev4)) =
      (if b then map (\<lambda>v. (tv_ID (remote_of remote v), Some (tv_Key v)))
         (filter (to_update remote) spec @ filter (to_rewrite remote) spec) else [])"
    proof (cases "us = []")
      case False
      then show ?thesis
        unfolding sent(3) keys generateUpdate_Ok(2) [OF 1(4) False] using b by simp
    qed (use b sent(3) in simp)
  qed (simp_all only: sent deleteVariables_sent [OF 1(2)] createVariables_sent(1) [OF 1(3)] key_filters)
qed

text \<open>
  C20. A successful synchronisation of variables deletes exactly the remote variables whose
  key the spec lacks, creates exactly the spec's variables whose key the workspace lacks,
  and sends one update for every non-sensitive variable that differs, followed by all
  sensitive ones, or no update at all when no non-sensitive one differs. It reports a change
  exactly in the former case: variables that were only created or deleted are not reported.
\<close>

theorem CheckVariables_plan:
  assumes "CheckVariables name spec E h t = Some (Ok b, t', ev)"
  shows "\<exists>w remote rest.
    ev = (Workspaces (Workspace_Read (tf_Organization t) name), Inr (R_Workspace w)) #
         (Variables (Variable_List (tw_ID w) PageSize), Inr (R_Variables remote)) # rest \<and>
    sent variable_delete rest = map (\<lambda>v. (tw_ID (the (tv_Workspace v)), tv_ID v))
      (filter (\<lambda>v. tv_Key v \<notin> tv_Key ` set spec) remote) \<and>
    map (\<lambda>(i, c). (i, vco_Key c)) (sent variable_create rest) = map (\<lambda>v. (tw_ID w, Some (tv_Key v)))
      (filter (\<lambda>v. tv_Key v \<notin> tv_Key ` set remote) spec) \<and>
    map update_key (sent variable_update rest) =
      (if b then map (\<lambda>v. (tv_ID (remote_of remote v), Some (tv_Key v)))
         (filter (to_update remote) spec @ filter (to_rewrite remote) spec) else []) \<and>
    (b \<longleftrightarrow> (\<exists>v \<in> set spec. to_update remote v))"
  using assms by (rule CheckVariables_writes)


section \<open>Examples\<close>

definition example_variable :: "string \<Rightarrow> string \<Rightarrow> string \<Rightarrow> tfc_Variable" where
  "example_variable ident key val = \<lparr>tv_ID = ident, tv_Key = key, tv_Value = val,
     tv_Category = ''terraform'', tv_HCL = False, tv_Sensitive = False,
     tv_Workspace = Some (new_tfc_Workspace ''ws-1'')\<rparr>"

text \<open>The workspace holds \<open>old\<close> and a different \<open>size\<close>; the spec wants \<open>size\<close> and \<open>region\<close>.\<close>

definition example_variables_env :: env where
  "example_variables_env = script [Inr (R_Workspace (new_tfc_Workspace ''ws-1'')),
     Inr (R_Variables [example_variable ''var-1'' ''old'' ''x'', example_variable ''var-2'' ''size'' ''1''])]"

definition example_spec_variables :: "tfc_Variable list" where
  "example_spec_variables = [example_variable '''' ''size'' ''2'', example_variable '''' ''region'' ''eu'']"

lemma example_variables_run:
  "CheckVariables ''prod-hello'' example_spec_variables example_variables_env [] example_client =
   Some (Ok True, example_client,
     [(Workspaces (Workspace_Read ''world'' ''prod-hello''), Inr (R_Workspace (new_tfc_Workspace ''ws-1''))),
      (Variables (Variable_List ''ws-1'' PageSize), Inr (R_Variables
         [example_variable ''var-1'' ''old'' ''x'', example_variable ''var-2'' ''size'' ''1''])),
      (Variables (Variable_Delete ''ws-1'' ''var-1''), Inr R_None),
      (Variables (Variable_Create ''ws-1'' \<lparr>vco_Key = Some ''region'', vco_Value = Some ''eu'',
         vco_Category = Some ''terraform'', vco_HCL = Some False, vco_Sensitive = Some False\<rparr>), Inr R_None),
      (Variables (Variable_Update ''ws-1'' ''var-2'' \<lparr>vuo_Key = Some ''size'', vuo_Value = Some ''2'',
         vuo_HCL = Some False, vuo_Sensitive = Some False\<rparr>), Inr R_None)])"
  by (simp add: run_simps example_variables_env_def script_def validStringID_def validString_def
      id_char_def valid_VariableCreateOptions_def new_tfc_Workspace_def example_client_def
      example_spec_variables_def example_variable_def find_def checkIfVariableChanged_def
      update_options_def Let_def)

theorem CheckVariables_plan_witness:
  "\<exists>remote rest. sent variable_delete rest = map (\<lambda>v. (tw_ID (the (tv_Workspace v)), tv_ID v))
      (filter (\<lambda>v. tv_Key v \<notin> tv_Key ` set example_spec_variables) remote) \<and>
    (\<exists>v \<in> set example_spec_variables. to_update remote v)"
proof -
  from CheckVariables_plan [OF example_variables_run] obtain w remote rest where
    "sent variable_delete rest = map (\<lambda>v. (tw_ID (the (tv_Workspace v)), tv_ID v))
      (filter (\<lambda>v. tv_Key v \<notin> tv_Key ` set example_spec_variables) remote)"
    "True \<longleftrightarrow> (\<exists>v \<in> set example_spec_variables. to_update remote v)"
    by (elim exE conjE) (rule that; assumption)
  then show ?thesis by blast
qed


end
