(* ===== verification/RunTriggers_Sync.thy ===== *)
theory RunTriggers_Sync
  imports Tfe_Client
begin

text \<open>
  \<open>workspacehelper/tfc_run_trigger.go\<close>: the inbound run triggers of a Terraform Cloud
  workspace follow the spec. Triggers are matched by the name of their source workspace.
  \<open>CreateTerraformRunTrigger\<close> looks the source workspace up, sends the request and drops
  its error: the \<open>err\<close> it tests afterwards is the one of the lookup.
\<close>

section \<open>Definitions\<close>

definition MapToTFCRunTrigger :: "string \<Rightarrow> RunTrigger list \<Rightarrow> tfc_RunTrigger list" where
  "MapToTFCRunTrigger workspace specRunTriggers = map (\<lambda>runTrigger.
     \<lparr>trt_ID = '''', trt_SourceableName = rt_SourceableName runTrigger, trt_WorkspaceName = workspace\<rparr>)
     specRunTriggers"

primrec findRT_loop :: "int \<Rightarrow> tfc_RunTrigger list \<Rightarrow> string \<Rightarrow> int" where
  "findRT_loop index [] sourceableName = -1"
| "findRT_loop index (runTrigger # rest) sourceableName =
     (if trt_SourceableName runTrigger = sourceableName then index
      else findRT_loop (index + 1) rest sourceableName)"

definition findRT :: "tfc_RunTrigger list \<Rightarrow> string \<Rightarrow> int" where
  "findRT tfcRunTriggers sourceableName = findRT_loop 0 tfcRunTriggers sourceableName"

definition listRunTriggers :: "string \<Rightarrow> tfc_RunTrigger list go" where
  "listRunTriggers workspaceID = RunTriggers_List workspaceID ''inbound''"

definition DeleteRunTrigger :: "tfc_RunTrigger \<Rightarrow> unit go" where
  "DeleteRunTrigger runTrigger = RunTriggers_Delete (trt_ID runTrigger)"

definition CreateTerraformRunTrigger :: "tfc_Workspace \<Rightarrow> tfc_RunTrigger \<Rightarrow> unit go" where
  "CreateTerraformRunTrigger workspace runTrigger =
     andThen get_client (\<lambda>t.
     andThen (Workspaces_Read (tf_Organization t) (trt_SourceableName runTrigger)) (\<lambda>tfcSourceWorkspace.
     andThen (attempt (RunTriggers_Create (tw_ID workspace) (Some tfcSourceWorkspace))) (\<lambda>_.
     ret ())))"

definition deleteRunTriggersFromTFC :: "tfc_RunTrigger list \<Rightarrow> tfc_RunTrigger list \<Rightarrow> unit go" where
  "deleteRunTriggersFromTFC specTFCRunTriggers workspaceRunTriggers =
     each (\<lambda>rt. if findRT specTFCRunTriggers (trt_SourceableName rt) < 0
                then DeleteRunTrigger rt else ret ()) workspaceRunTriggers"

definition createRunTriggersOnTFC ::
    "tfc_Workspace \<Rightarrow> tfc_RunTrigger list \<Rightarrow> tfc_RunTrigger list \<Rightarrow> bool go" where
  "createRunTriggersOnTFC workspace specTFCRunTriggers workspaceRunTriggers =
     andThen (each (\<lambda>rt. if findRT workspaceRunTriggers (trt_SourceableName rt) < 0
                         then CreateTerraformRunTrigger workspace rt else ret ()) specTFCRunTriggers)
     (\<lambda>_. ret (list_ex (\<lambda>rt. findRT workspaceRunTriggers (trt_SourceableName rt) < 0) specTFCRunTriggers))"

definition CheckRunTriggers :: "string \<Rightarrow> RunTrigger list \<Rightarrow> bool go" where
  "CheckRunTriggers workspace specRunTriggers =
     andThen get_client (\<lambda>t.
     andThen (Workspaces_Read (tf_Organization t) workspace) (\<lambda>tfcWorkspace.
     let specTFCRunTriggers = MapToTFCRunTrigger workspace specRunTriggers in
     andThen (listRunTriggers (tw_ID tfcWorkspace)) (\<lambda>workspaceRunTriggers.
     andThen (deleteRunTriggersFromTFC specTFCRunTriggers workspaceRunTriggers) (\<lambda>_.
     createRunTriggersOnTFC tfcWorkspace specTFCRunTriggers workspaceRunTriggers))))"

lemmas run_trigger_defs [run_simps] = listRunTriggers_def DeleteRunTrigger_def
  CreateTerraformRunTrigger_def deleteRunTriggersFromTFC_def createRunTriggersOnTFC_def
  CheckRunTriggers_def

section \<open>The search\<close>

lemma findRT_loop_shift:
  "0 \<le> i \<Longrightarrow> findRT_loop i rts k = (if findRT_loop 0 rts k < 0 then -1 else findRT_loop 0 rts k + i)"
proof (induction rts arbitrary: i)
  case Nil
  then show ?case by simp
next
  case (Cons rt rts)
  from Cons.IH [of "i + 1"] Cons.IH [of 1] Cons.prems show ?case by simp
qed

interpretation rts: key_search findRT trt_SourceableName
proof
  fix x :: tfc_RunTrigger and xs :: "tfc_RunTrigger list" and k
  show "findRT [] k = -1" by (simp add: findRT_def)
  show "findRT (x # xs) k =
    (if trt_SourceableName x = k then 0 else if findRT xs k < 0 then -1 else findRT xs k + 1)"
    using findRT_loop_shift [of 1 xs k] by (simp add: findRT_def)
qed

section \<open>What a synchronisation sends\<close>

text \<open>
  The trace of the creation of a trigger: the source workspace is looked up by name, and the workspace found
  is the source of the trigger that is asked for, whatever the answer.
\<close>

definition creation :: "tfclient \<Rightarrow> tfc_Workspace \<Rightarrow> string \<times> tfc_Workspace \<times> (go_error + response) \<Rightarrow> trace" where
  "creation t w = (\<lambda>(name, source, answer).
     [(Workspaces (Workspace_Read (tf_Organization t) name), Inr (R_Workspace source)),
      (RunTriggers (RunTrigger_Create (tw_ID w) source), answer)])"

definition run_trigger_sync_request :: "request \<Rightarrow> bool" where
  "run_trigger_sync_request q \<longleftrightarrow> is_RunTriggers q \<or> (\<exists>o1 n. q = Workspaces (Workspace_Read o1 n))"

lemma emits_CreateTerraformRunTrigger [emits_rules]:
  "(\<And>o1 n. P (Workspaces (Workspace_Read o1 n))) \<Longrightarrow> (\<And>x s. P (RunTriggers (RunTrigger_Create x s))) \<Longrightarrow>
   emits P (CreateTerraformRunTrigger w rt)"
  unfolding CreateTerraformRunTrigger_def by (intro emits_rules)

lemma emits_deleteRunTriggers [emits_rules]:
  "(\<And>i. P (RunTriggers (RunTrigger_Delete i))) \<Longrightarrow> emits P (deleteRunTriggersFromTFC spec remote)"
  unfolding deleteRunTriggersFromTFC_def DeleteRunTrigger_def by (intro emits_rules)

lemma emits_createRunTriggers [emits_rules]:
  "(\<And>o1 n. P (Workspaces (Workspace_Read o1 n))) \<Longrightarrow> (\<And>x s. P (RunTriggers (RunTrigger_Create x s))) \<Longrightarrow>
   emits P (createRunTriggersOnTFC w spec remote)"
  unfolding createRunTriggersOnTFC_def by (intro emits_rules)

lemma emits_CheckRunTriggers [emits_rules]:
  assumes "\<And>q. run_trigger_sync_request q \<Longrightarrow> P q"
  shows "emits P (CheckRunTriggers name spec)"
  unfolding CheckRunTriggers_def listRunTriggers_def
  by (intro emits_rules; rule assms) (auto simp: run_trigger_sync_request_def)

lemma returns_run_triggers [returns_rules]: "returns (CheckRunTriggers name spec)"
  unfolding run_trigger_defs by (intro returns_rules)

lemma keeps_run_triggers [keeps_rules]: "keeps_client (CheckRunTriggers name spec)"
  unfolding run_trigger_defs by (intro keeps_rules)

lemma deleteRunTriggers_requests:
  assumes "deleteRunTriggersFromTFC spec remote E h t = Some (Ok x, t', ev)"
  shows "map fst ev = map (\<lambda>rt. RunTriggers (RunTrigger_Delete (trt_ID rt))) (rts.extras spec remote)" and "t' = t"
proof -
  have step: "map fst ev = [RunTriggers (RunTrigger_Delete (trt_ID rt))]"
    if "DeleteRunTrigger rt E h t = Some (Ok (), t', ev)" for rt h t t' ev
    using that by (auto simp: DeleteRunTrigger_def RunTriggers_Delete_def require_Ok perform_Ok)
  have "map fst ev = map (\<lambda>rt. RunTriggers (RunTrigger_Delete (trt_ID rt))) rts"
    if "each DeleteRunTrigger rts E h t = Some (Ok x, t', ev)" for rts h t t' ev
    using that by (induction rts arbitrary: h t ev) (auto elim!: andThen_OkE dest!: step)
  with assms show "map fst ev = map (\<lambda>rt. RunTriggers (RunTrigger_Delete (trt_ID rt))) (rts.extras spec remote)"
    by (simp add: deleteRunTriggersFromTFC_def each_filter rts.extras_def)
  have "keeps_client (deleteRunTriggersFromTFC spec remote)"
    unfolding run_trigger_defs by (intro keeps_rules)
  with assms show "t' = t" by (rule keeps_clientD [rotated])
qed

lemma CreateTerraformRunTrigger_Ok:
  assumes "CreateTerraformRunTrigger w rt E h t = Some (Ok (), t', ev)" "validStringID (Some (tw_ID w))"
  shows "t' = t \<and> (\<exists>source answer. ev = creation t w (trt_SourceableName rt, source, answer))"
  using assms by (auto simp: CreateTerraformRunTrigger_def attempt_Some RunTriggers_Create_def creation_def
      require_def perform_def call_Some elim!: andThen_OkE dest!: tfe_Ok)

lemma each_CreateTerraformRunTrigger:
  assumes "each (CreateTerraformRunTrigger w) rts E h t = Some (Ok u, t', ev)" "validStringID (Some (tw_ID w))"
  shows "\<exists>cs. ev = concat (map (creation t w) cs) \<and> map fst cs = map trt_SourceableName rts"
  using assms(1)
proof (induction rts arbitrary: h ev)
  case (Cons rt rts)
  then obtain t1 ev1 ev2 where "CreateTerraformRunTrigger w rt E h t = Some (Ok (), t1, ev1)" "ev = ev1 @ ev2"
    and rest: "each (CreateTerraformRunTrigger w) rts E (h @ ev1) t1 = Some (Ok u, t', ev2)"
    by (auto elim!: andThen_OkE)
  with CreateTerraformRunTrigger_Ok [OF _ assms(2)] obtain source answer where
    t1: "t1 = t" and ev: "ev = creation t w (trt_SourceableName rt, source, answer) @ ev2" by blast
  from Cons.IH [OF rest [unfolded t1]] obtain cs where
    "ev2 = concat (map (creation t w) cs)" "map fst cs = map trt_SourceableName rts" by blast
  with ev show ?case by (intro exI [of _ "(trt_SourceableName rt, source, answer) # cs"]) simp
qed simp

lemma createRunTriggers_creations:
  assumes "createRunTriggersOnTFC w spec remote E h t = Some (Ok b, t', ev)"
  shows "validStringID (Some (tw_ID w)) \<Longrightarrow> \<exists>cs. ev = concat (map (creation t w) cs) \<and>
      map fst cs = map trt_SourceableName (rts.missing spec remote)"
    and "b \<longleftrightarrow> rts.missing spec remote \<noteq> []"
proof -
  from assms obtain u where each: "each (CreateTerraformRunTrigger w) (rts.missing spec remote) E h t = Some (Ok u, t', ev)"
    and b: "b \<longleftrightarrow> list_ex (\<lambda>v. findRT remote (trt_SourceableName v) < 0) spec"
    by (auto simp: createRunTriggersOnTFC_def each_filter rts.missing_def elim!: andThen_OkE)
  from each_CreateTerraformRunTrigger [OF each] show "\<exists>cs. ev = concat (map (creation t w) cs) \<and>
      map fst cs = map trt_SourceableName (rts.missing spec remote)" if "validStringID (Some (tw_ID w))"
    using that by blast
  from b show "b \<longleftrightarrow> rts.missing spec remote \<noteq> []"
    by (auto simp: rts.missing_def list_ex_iff filter_empty_conv)
qed

section \<open>A synchronisation that succeeds\<close>

text \<open>
  C26. A successful synchronisation of run triggers sends, after reading the workspace and its inbound
  triggers, exactly this: the deletion of every trigger whose source the spec does not name, and
  then, for every source without a trigger and in the order of the spec, the lookup of the
  source workspace and the request for a trigger of the managed workspace on the workspace found.
  It reports a change exactly when a source had no trigger.
\<close>

theorem CheckRunTriggers_plan:
  assumes "CheckRunTriggers name spec E h t = Some (Ok b, t', ev)"
  shows "\<exists>w remote deletions cs.
    ev = (Workspaces (Workspace_Read (tf_Organization t) name), Inr (R_Workspace w)) #
         (RunTriggers (RunTrigger_List (tw_ID w) ''inbound''), Inr (R_RunTriggers remote)) #
         deletions @ concat (map (\<lambda>(name, source, answer).
           [(Workspaces (Workspace_Read (tf_Organization t) name), Inr (R_Workspace source)),
            (RunTriggers (RunTrigger_Create (tw_ID w) source), answer)]) cs) \<and>
    map fst deletions = map (\<lambda>rt. RunTriggers (RunTrigger_Delete (trt_ID rt)))
      (filter (\<lambda>rt. trt_SourceableName rt \<notin> rt_SourceableName ` set spec) remote) \<and>
    map fst cs = filter (\<lambda>n. n \<notin> trt_SourceableName ` set remote) (map rt_SourceableName spec) \<and>
    (b \<longleftrightarrow> \<not> rt_SourceableName ` set spec \<subseteq> trt_SourceableName ` set remote)"
proof -
  let ?spec = "MapToTFCRunTrigger name spec"
  from assms obtain w remote x1 t1 ev1 ev2 h1 h2 where
    ev: "ev = (Workspaces (Workspace_Read (tf_Organization t) name), Inr (R_Workspace w)) #
         (RunTriggers (RunTrigger_List (tw_ID w) ''inbound''), Inr (R_RunTriggers remote)) # ev1 @ ev2"
    and valid: "validStringID (Some (tw_ID w))"
    and del: "deleteRunTriggersFromTFC ?spec remote E h1 t = Some (Ok x1, t1, ev1)"
    and cre: "createRunTriggersOnTFC w ?spec remote E h2 t1 = Some (Ok b, t', ev2)"
    unfolding CheckRunTriggers_def listRunTriggers_def Let_def
    by (auto elim!: andThen_OkE dest!: tfe_Ok(1) simp: RunTriggers_List_def require_Ok
        check_options_Ok call_Ok elim!: as_runtriggers.elims)
  have keys: "trt_SourceableName ` set ?spec = rt_SourceableName ` set spec"
    "map trt_SourceableName ?spec = map rt_SourceableName spec"
    by (simp_all add: MapToTFCRunTrigger_def image_image comp_def)
  have missing: "map trt_SourceableName (rts.missing ?spec remote) =
      filter (\<lambda>n. n \<notin> trt_SourceableName ` set remote) (map rt_SourceableName spec)"
    unfolding keys(2) [symmetric] filter_map by (simp add: rts.missing_def rts.search_neg comp_def)
  from createRunTriggers_creations(1) [OF cre valid] obtain cs where
    cs: "ev2 = concat (map (creation t w) cs)" "map fst cs = map trt_SourceableName (rts.missing ?spec remote)"
    unfolding deleteRunTriggers_requests(2) [OF del] by blast
  show ?thesis
  proof (intro exI conjI)
    show "b \<longleftrightarrow> \<not> rt_SourceableName ` set spec \<subseteq> trt_SourceableName ` set remote"
      unfolding createRunTriggers_creations(2) [OF cre] rts.missing_empty keys(1) ..
    show "map fst ev1 = map (\<lambda>rt. RunTriggers (RunTrigger_Delete (trt_ID rt)))
      (filter (\<lambda>rt. trt_SourceableName rt \<notin> rt_SourceableName ` set spec) remote)"
      using deleteRunTriggers_requests(1) [OF del] by (simp add: rts.extras_def rts.search_neg keys)
    show "map fst cs = filter (\<lambda>n. n \<notin> trt_SourceableName ` set remote) (map rt_SourceableName spec)"
      using cs(2) missing by simp
  qed (use ev cs(1) in \<open>simp add: creation_def\<close>)
qed

section \<open>Triggers that the service refuses\<close>

lemma CreateTerraformRunTrigger_refused:
  assumes "E h (Workspaces (Workspace_Read (tf_Organization t) (trt_SourceableName rt))) = Inr (R_Workspace src)"
    and "\<And>h. E h (RunTriggers (RunTrigger_Create (tw_ID w) src)) = Inl err"
    and "validStringID (Some (tf_Organization t))" "validStringID (Some (trt_SourceableName rt))"
  shows "\<exists>ev. CreateTerraformRunTrigger w rt E h t = Some (Ok (), t, ev)"
  using assms by (simp add: CreateTerraformRunTrigger_def andThen_def get_client_def Workspaces_Read_def
      RunTriggers_Create_def require_def call_def perform_def attempt_def ret_def fail_def)

lemma createRunTriggers_refused:
  assumes "\<And>rt h. rt \<in> set spec \<Longrightarrow> \<exists>ev. CreateTerraformRunTrigger w rt E h t = Some (Ok (), t, ev)"
    and "spec \<noteq> []"
  shows "\<exists>ev. createRunTriggersOnTFC w spec [] E h t = Some (Ok True, t, ev)"
proof -
  have missing: "findRT [] k < 0" for k by (simp add: findRT_def)
  from each_run [of spec "CreateTerraformRunTrigger w", OF assms(1)]
  obtain ev where "each (CreateTerraformRunTrigger w) spec E h t = Some (Ok (), t, ev)" by blast
  with assms(2) show ?thesis
    unfolding createRunTriggersOnTFC_def by (cases spec) (simp_all add: missing andThen_def ret_def)
qed

lemma listRunTriggers_run:
  assumes "E h (RunTriggers (RunTrigger_List i ''inbound'')) = Inr (R_RunTriggers rts)" "validStringID (Some i)"
  shows "listRunTriggers i E h t =
    Some (Ok rts, t, [(RunTriggers (RunTrigger_List i ''inbound''), Inr (R_RunTriggers rts))])"
  using assms by (simp add: listRunTriggers_def RunTriggers_List_def valid_RunTriggerListOptions_def
      validString_def call_def)

text \<open>
  A run trigger that the service refuses to create is reported as created: when every
  source workspace exists, the workspace has no triggers and every creation is answered with
  an error, the synchronisation still succeeds and reports a change.
\<close>

lemma CheckRunTriggers_ignores_create_errors:
  assumes "\<And>h n. E h (Workspaces (Workspace_Read (tf_Organization t) n)) = Inr (R_Workspace (ws n))"
    and "\<And>h i. E h (RunTriggers (RunTrigger_List i ''inbound'')) = Inr (R_RunTriggers [])"
    and "\<And>h i s. E h (RunTriggers (RunTrigger_Create i s)) = Inl err"
    and "validStringID (Some (tf_Organization t))" "validStringID (Some name)"
    and "validStringID (Some (tw_ID (ws name)))"
    and "\<And>rt. rt \<in> set spec \<Longrightarrow> validStringID (Some (rt_SourceableName rt))"
    and "spec \<noteq> []"
  shows "\<exists>ev. CheckRunTriggers name spec E h t = Some (Ok True, t, ev)"
proof -
  let ?spec = "MapToTFCRunTrigger name spec"
  have "\<exists>ev. createRunTriggersOnTFC (ws name) ?spec [] E h t = Some (Ok True, t, ev)" for h
  proof (rule createRunTriggers_refused)
    fix rt h assume "rt \<in> set ?spec"
    with assms(7) have "validStringID (Some (trt_SourceableName rt))" by (auto simp: MapToTFCRunTrigger_def)
    then show "\<exists>ev. CreateTerraformRunTrigger (ws name) rt E h t = Some (Ok (), t, ev)"
      by (rule CreateTerraformRunTrigger_refused [OF assms(1,3,4)])
  qed (simp add: assms(8) MapToTFCRunTrigger_def)
  note create = this
  have read: "Workspaces_Read (tf_Organization t) name E h t = Some (Ok (ws name), t,
      [(Workspaces (Workspace_Read (tf_Organization t) name), Inr (R_Workspace (ws name)))])" for h
    using assms(1,4,5) by (simp add: Workspaces_Read_def call_def)
  have list: "listRunTriggers (tw_ID (ws name)) E h t = Some (Ok [], t,
      [(RunTriggers (RunTrigger_List (tw_ID (ws name)) ''inbound''), Inr (R_RunTriggers []))])" for h
    by (rule listRunTriggers_run) (simp_all add: assms(2,6))
  have client: "get_client E h t = Some (Ok t, t, [])" by (simp add: get_client_def)
  have delete: "deleteRunTriggersFromTFC ?spec [] E h t = Some (Ok (), t, [])" for h
    by (simp add: deleteRunTriggersFromTFC_def)
  show ?thesis
    unfolding CheckRunTriggers_def Let_def
    by (rule andThen_run, rule client, rule andThen_run, rule read, rule andThen_run, rule list,
        rule andThen_run, rule delete, rule create)
qed

section \<open>Examples\<close>

definition example_trigger_env :: env where
  "example_trigger_env = (\<lambda>h q. case q of
     Workspaces _ \<Rightarrow> Inr (R_Workspace (new_tfc_Workspace ''ws-1''))
   | RunTriggers (RunTrigger_List _ _) \<Rightarrow> Inr (R_RunTriggers [])
   | _ \<Rightarrow> Inl (ErrorString ''refused''))"

definition example_triggers :: "RunTrigger list" where
  "example_triggers = [\<lparr>rt_SourceableName = ''prod-net''\<rparr>]"

definition example_trigger_trace :: trace where
  "example_trigger_trace =
     [(Workspaces (Workspace_Read ''world'' ''prod-hello''), Inr (R_Workspace (new_tfc_Workspace ''ws-1''))),
      (RunTriggers (RunTrigger_List ''ws-1'' ''inbound''), Inr (R_RunTriggers [])),
      (Workspaces (Workspace_Read ''world'' ''prod-net''), Inr (R_Workspace (new_tfc_Workspace ''ws-1''))),
      (RunTriggers (RunTrigger_Create ''ws-1'' (new_tfc_Workspace ''ws-1'')), Inl (ErrorString ''refused''))]"

lemma example_trigger_run:
  "CheckRunTriggers ''prod-hello'' example_triggers example_trigger_env [] example_client =
   Some (Ok True, example_client, example_trigger_trace)"
  by (simp add: run_simps example_trigger_env_def validStringID_def validString_def id_char_def example_triggers_def
      example_trigger_trace_def new_tfc_Workspace_def example_client_def valid_RunTriggerListOptions_def findRT_def
      MapToTFCRunTrigger_def Let_def)

theorem CheckRunTriggers_plan_witness:
  "\<exists>w remote deletions cs.
    example_trigger_trace =
      (Workspaces (Workspace_Read (tf_Organization example_client) ''prod-hello''), Inr (R_Workspace w)) #
      (RunTriggers (RunTrigger_List (tw_ID w) ''inbound''), Inr (R_RunTriggers remote)) #
      deletions @ concat (map (\<lambda>(name, source, answer).
        [(Workspaces (Workspace_Read (tf_Organization example_client) name), Inr (R_Workspace source)),
         (RunTriggers (RunTrigger_Create (tw_ID w) source), answer)]) cs) \<and>
    map fst deletions = map (\<lambda>rt. RunTriggers (RunTrigger_Delete (trt_ID rt)))
      (filter (\<lambda>rt. trt_SourceableName rt \<notin> rt_SourceableName ` set example_triggers) remote) \<and>
    map fst cs = filter (\<lambda>n. n \<notin> trt_SourceableName ` set remote) (map rt_SourceableName example_triggers) \<and>
    (True \<longleftrightarrow> \<not> rt_SourceableName ` set example_triggers \<subseteq> trt_SourceableName ` set remote)"
  by (rule CheckRunTriggers_plan [OF example_trigger_run])

lemma CheckRunTriggers_ignores_create_errors_witness:
  "\<exists>ev. CheckRunTriggers ''prod-hello'' example_triggers example_trigger_env [] example_client =
     Some (Ok True, example_client, ev)"
  by (rule CheckRunTriggers_ignores_create_errors
      [where ws = "\<lambda>_. new_tfc_Workspace ''ws-1''" and err = "ErrorString ''refused''"])
    (auto simp: example_triggers_def example_trigger_env_def validStringID_def id_char_def new_tfc_Workspace_def
      example_client_def)

end
