(* ===== verification/Runs_Control.thy ===== *)
theory Runs_Control
  imports Tfe_Client
begin

text \<open>
  \<open>workspacehelper/tfc_run.go\<close>: the runs of a Terraform Cloud workspace. The loop of
  \<open>DeleteResources\<close> polls the destroy run every 30 seconds for as long as it is pending;
  it is a partial function whose result \<open>None\<close> is a loop that never ends, and the last
  section says exactly when it ends and with what result.
\<close>

section \<open>Definitions\<close>

definition TerraformOperator :: string where "TerraformOperator = ''terraform-k8s''"

definition basepath :: string where "basepath = ''/tmp''"
definition moduleDirectory :: string where "moduleDirectory = basepath @ ''/'' @ ''module''"
definition configurationFilePath :: string where
  "configurationFilePath = moduleDirectory @ ''/'' @ ''main.tf''"
definition interval :: nat where "interval = 30"

definition UploadConfigurationFile :: "string \<Rightarrow> unit go" where
  "UploadConfigurationFile uploadURL =
     andThen (attempt (ConfigurationVersions_Upload uploadURL moduleDirectory)) (\<lambda>res. case res of
       Inl err \<Rightarrow> fail (ErrorString (''error, '' @ error_text err @ '', '' @ moduleDirectory))
     | Inr _ \<Rightarrow> ret ())"

definition CreateConfigurationVersion :: "string \<Rightarrow> ConfigurationVersion go" where
  "CreateConfigurationVersion workspaceID =
     ConfigurationVersions_Create workspaceID (Some False) (Some False)"

definition CheckRun :: "string \<Rightarrow> string go" where
  "CheckRun runID =
     (if runID = '''' then ret ''''
      else andThen (Runs_Read runID) (\<lambda>run. ret (run_Status run)))"

fun isPending :: "string \<Rightarrow> bool" where
  "isPending status =
     (if status = ''applied'' then False
      else if status = ''planned_and_finished'' then False
      else if status = ''errored'' then False
      else if status = ''canceled'' then False
      else if status = ''discarded'' then False
      else if status = '''' then False
      else True)"

definition isError :: "string \<Rightarrow> bool" where
  "isError status \<longleftrightarrow> status = ''errored''"

declare isPending.simps [simp del]

definition DeleteRuns :: "string \<Rightarrow> unit go" where
  "DeleteRuns workspaceID =
     (let message = ''operator, finalizer, cancelling run'' in
      andThen (Runs_List workspaceID) (\<lambda>runs.
      each (\<lambda>run. if isPending (run_Status run) then Runs_ForceCancel (run_ID run) (Some message)
                  else ret ()) runs))"

text \<open>The sequencing of \<open>Runtime\<close> is monotone in what follows, so loops may be defined with it.\<close>

lemma andThen_mono [partial_function_mono]:
  fixes k :: "('p \<Rightarrow> 'q option) \<Rightarrow> 'a \<Rightarrow> 'b go"
  assumes "\<And>x E h t. mono_option (\<lambda>f. k f x E h t)"
  shows "mono_option (\<lambda>f. andThen m (k f) E h t)"
proof (rule monotoneI)
  fix f g :: "'p \<Rightarrow> 'q option"
  assume fg: "fun_ord option_ord f g"
  have le: "option_ord (k f x E h t) (k g x E h t)" for x E h t
    using assms [of x E h t] fg by (simp add: monotone_def)
  show "option_ord (andThen m (k f) E h t) (andThen m (k g) E h t)"
  proof (cases "m E h t")
    case None
    then show ?thesis by (simp add: andThen_def flat_ord_def)
  next
    case (Some res)
    obtain r t1 ev1 where res: "res = (r, t1, ev1)" by (cases res)
    show ?thesis
    proof (cases r)
      case (Ok a)
      with Some res le [of a E "h @ ev1" t1] show ?thesis
        by (auto simp: andThen_def flat_ord_def)
    qed (use Some res in \<open>simp_all add: andThen_def flat_ord_def\<close>)
  qed
qed

partial_function (option) poll ::
    "string \<Rightarrow> env \<Rightarrow> trace \<Rightarrow> tfclient \<Rightarrow> (unit outcome \<times> tfclient \<times> trace) option" where
  "poll runID E h t =
     andThen (attempt (Runs_Read runID)) (\<lambda>res E h t. case res of
       Inl err \<Rightarrow> fail (ErrorString (''destroy had error: '' @ error_text err)) E h t
     | Inr checkRun \<Rightarrow>
         if run_Status checkRun = ''errored''
         then fail (ErrorString ''destroy had error: <nil>'') E h t
         else if \<not> isPending (run_Status checkRun) then ret () E h t
         else andThen (notify (Host (Sleep interval))) (\<lambda>_ E h t. poll runID E h t) E h t) E h t"

definition destroy_options :: "tfc_Workspace \<Rightarrow> RunCreateOptions" where
  "destroy_options ws = \<lparr>rco_IsDestroy = Some True,
     rco_Message = Some (TerraformOperator @ '', destroy''),
     rco_ConfigurationVersion = None, rco_Workspace = Some ws\<rparr>"

definition DeleteResources :: "string \<Rightarrow> unit go" where
  "DeleteResources workspaceID =
     andThen (Workspaces_ReadByID workspaceID) (\<lambda>ws.
     if tw_CurrentRun ws = None then ret ()
     else andThen (Runs_Create (destroy_options ws)) (\<lambda>run. poll (run_ID run)))"

lemmas run_defs [run_simps] = UploadConfigurationFile_def CreateConfigurationVersion_def
  CheckRun_def DeleteRuns_def DeleteResources_def

section \<open>Statuses\<close>

lemma isPending_iff:
  "isPending s \<longleftrightarrow> s \<notin> {''applied'', ''planned_and_finished'', ''errored'', ''canceled'', ''discarded'', ''''}"
  by (auto simp: isPending.simps)

lemma not_isPending [simp]:
  "\<not> isPending ''''" "\<not> isPending ''applied''" "\<not> isPending ''planned_and_finished''"
  "\<not> isPending ''errored''" "\<not> isPending ''canceled''" "\<not> isPending ''discarded''"
  by (simp_all add: isPending_iff)

lemma isError_not_pending: "isError s \<Longrightarrow> \<not> isPending s"
  by (simp add: isError_def)

section \<open>Polling\<close>

lemma poll_eq:
  "poll runID = andThen (attempt (Runs_Read runID)) (\<lambda>res. case res of
       Inl err \<Rightarrow> fail (ErrorString (''destroy had error: '' @ error_text err))
     | Inr checkRun \<Rightarrow>
         if run_Status checkRun = ''errored'' then fail (ErrorString ''destroy had error: <nil>'')
         else if \<not> isPending (run_Status checkRun) then ret ()
         else andThen (notify (Host (Sleep interval))) (\<lambda>_. poll runID))"
proof (intro ext)
  fix E h t
  have body: "(\<lambda>E h t. case res of
       Inl err \<Rightarrow> fail (ErrorString (''destroy had error: '' @ error_text err)) E h t
     | Inr checkRun \<Rightarrow>
         if run_Status checkRun = ''errored''
         then fail (ErrorString ''destroy had error: <nil>'') E h t
         else if \<not> isPending (run_Status checkRun) then ret () E h t
         else andThen (notify (Host (Sleep interval))) (\<lambda>_. poll runID) E h t) =
    (case res of
       Inl err \<Rightarrow> fail (ErrorString (''destroy had error: '' @ error_text err))
     | Inr checkRun \<Rightarrow>
         if run_Status checkRun = ''errored'' then fail (ErrorString ''destroy had error: <nil>'')
         else if \<not> isPending (run_Status checkRun) then ret ()
         else andThen (notify (Host (Sleep interval))) (\<lambda>_. poll runID))" for res
    by (auto simp: fun_eq_iff split: sum.split)
  show "poll runID E h t = andThen (attempt (Runs_Read runID)) (\<lambda>res. case res of
       Inl err \<Rightarrow> fail (ErrorString (''destroy had error: '' @ error_text err))
     | Inr checkRun \<Rightarrow>
         if run_Status checkRun = ''errored'' then fail (ErrorString ''destroy had error: <nil>'')
         else if \<not> isPending (run_Status checkRun) then ret ()
         else andThen (notify (Host (Sleep interval))) (\<lambda>_. poll runID)) E h t"
    by (subst poll.simps) (simp only: body)
qed

text \<open>An answer to a poll that ends the loop: anything but a pending run.\<close>

fun settled :: "go_error + response \<Rightarrow> bool" where
  "settled (Inr (R_Run run)) = (\<not> isPending (run_Status run))"
| "settled _ = True"

text \<open>The answer after which the loop returns without an error.\<close>

fun destroyed :: "go_error + response \<Rightarrow> bool" where
  "destroyed (Inr (R_Run run)) = (\<not> isPending (run_Status run) \<and> run_Status run \<noteq> ''errored'')"
| "destroyed _ = False"

text \<open>The history after \<open>n\<close> rounds of a poll and a sleep.\<close>

definition poll_round :: "env \<Rightarrow> string \<Rightarrow> trace \<Rightarrow> trace" where
  "poll_round E runID h =
     (let q = Runs (Run_Read runID); h' = h @ [(q, E h q)]; s = Host (Sleep interval) in
      h' @ [(s, E h' s)])"

definition poll_history :: "env \<Rightarrow> string \<Rightarrow> nat \<Rightarrow> trace \<Rightarrow> trace" where
  "poll_history E runID n = (poll_round E runID) ^^ n"

lemma poll_history_Suc: "poll_history E runID (Suc n) h = poll_history E runID n (poll_round E runID h)"
  by (simp only: poll_history_def funpow_Suc_right comp_def)

lemma poll_step:
  assumes "validStringID (Some runID)"
  shows "poll runID E h t =
    (let q = Runs (Run_Read runID) in
     if \<not> settled (E h q) then
       (case poll runID E (poll_round E runID h) t of
          None \<Rightarrow> None
        | Some (r, t', ev) \<Rightarrow> Some (r, t', drop (length h) (poll_round E runID h) @ ev))
     else if destroyed (E h q) then Some (Ok (), t, [(q, E h q)])
     else Some (Err (ErrorString (''destroy had error: '' @
       (case E h q of Inl e \<Rightarrow> error_text e
        | Inr x \<Rightarrow> if as_run x = None then ''unexpected resource'' else ''<nil>''))), t, [(q, E h q)]))"
proof (cases "E h (Runs (Run_Read runID))")
  case (Inl e)
  then show ?thesis using assms
    by (subst poll_eq) (simp add: andThen_def attempt_def Runs_Read_def call_def fail_def Let_def)
next
  case (Inr x)
  show ?thesis
  proof (cases "as_run x")
    case None
    then have "settled (Inr x)" "\<not> destroyed (Inr x)" by (cases x; simp)+
    with Inr None show ?thesis using assms
      by (subst poll_eq) (simp add: andThen_def attempt_def Runs_Read_def call_def fail_def Let_def)
  next
    case (Some run)
    then have "x = R_Run run" by (cases x) auto
    with Inr show ?thesis using assms
      by (subst poll_eq) (auto simp: andThen_def attempt_def Runs_Read_def call_def fail_def ret_def
          perform_def notify_def poll_round_def Let_def split: option.splits prod.splits sum.splits outcome.splits)
  qed
qed

section \<open>When polling ends, and how\<close>

lemma poll_history_0 [simp]: "poll_history E runID 0 h = h"
  by (simp add: poll_history_def)

lemma poll_returns_if:
  assumes "validStringID (Some runID)"
    and "settled (E (poll_history E runID n h) (Runs (Run_Read runID)))"
  shows "\<exists>r ev. poll runID E h t = Some (r, t, ev)"
  using assms(2)
proof (induction n arbitrary: h)
  case 0
  then show ?case by (subst poll_step [OF assms(1)]) (auto simp: Let_def)
next
  case (Suc n)
  show ?case
  proof (cases "settled (E h (Runs (Run_Read runID)))")
    case True
    then show ?thesis by (subst poll_step [OF assms(1)]) (auto simp: Let_def)
  next
    case False
    from Suc.IH [of "poll_round E runID h"] Suc.prems
    obtain r ev where "poll runID E (poll_round E runID h) t = Some (r, t, ev)"
      unfolding poll_history_Suc by blast
    with False show ?thesis by (subst poll_step [OF assms(1)]) (auto simp: Let_def)
  qed
qed

text \<open>What a loop that returned has seen last; by induction on the recursion of \<open>poll\<close>.\<close>

definition poll_result :: "string \<Rightarrow> env \<Rightarrow> trace \<Rightarrow> unit outcome \<Rightarrow> trace \<Rightarrow> bool" where
  "poll_result runID E h r ev \<longleftrightarrow> ev \<noteq> [] \<and> fst (last ev) = Runs (Run_Read runID) \<and>
     settled (snd (last ev)) \<and> (r = Ok () \<longleftrightarrow> destroyed (snd (last ev))) \<and> (\<forall>s. r \<noteq> Panic s) \<and>
     (\<exists>n. snd (last ev) = E (poll_history E runID n h) (Runs (Run_Read runID)))"

lemma settled_iff: "settled a \<longleftrightarrow> \<not> (\<exists>run. a = Inr (R_Run run) \<and> isPending (run_Status run))"
  by (cases a rule: settled.cases) auto

lemma destroyed_iff: "destroyed a \<longleftrightarrow>
  (\<exists>run. a = Inr (R_Run run) \<and> \<not> isPending (run_Status run) \<and> run_Status run \<noteq> ''errored'')"
  by (cases a rule: destroyed.cases) auto

lemmas poll_induct = poll.raw_induct [rotated 1, consumes 1, case_names step]

lemma poll_run:
  assumes "poll runID E h t = Some res" and "validStringID (Some runID)"
  shows "poll_result runID E h (fst res) (snd (snd res))"
  using assms
proof (induction rule: poll_induct)
  case (step poll' runID E h t res)
  let ?q = "Runs (Run_Read runID)"
  let ?h = "poll_round E runID h"
  have read: "attempt (Runs_Read runID) E h t =
    Some (Ok (case E h ?q of Inl e \<Rightarrow> Inl e
      | Inr x \<Rightarrow> (case as_run x of None \<Rightarrow> Inl (DecodeError ''unexpected resource'') | Some run \<Rightarrow> Inr run)),
      t, [(?q, E h ?q)])"
    using step.prems by (simp add: attempt_def Runs_Read_def call_def Let_def split: sum.splits option.splits)
  show ?case
  proof (cases "settled (E h ?q)")
    case True
    then have "fst res = Ok () \<longleftrightarrow> destroyed (E h ?q)" "\<forall>s. fst res \<noteq> Panic s"
      "snd (snd res) = [(?q, E h ?q)]"
      using step.hyps by (auto simp: andThen_def read settled_iff destroyed_iff fail_def ret_def
          split: sum.splits option.splits if_splits elim!: as_run.elims)
    with True show ?thesis by (auto simp: poll_result_def intro: exI [of _ 0])
  next
    case False
    then obtain run where run: "E h ?q = Inr (R_Run run)" "isPending (run_Status run)"
      by (auto simp: settled_iff)
    then have "run_Status run \<noteq> ''errored''" by (auto simp: isPending_iff)
    with run step.hyps obtain r t' ev0
      where next_round: "andThen (notify (Host (Sleep interval))) (\<lambda>_. poll' runID) E (h @ [(?q, E h ?q)]) t =
        Some (r, t', ev0)" and res0: "res = (r, t', (?q, E h ?q) # ev0)"
      by (auto simp: andThen_def [of "attempt (Runs_Read runID)"] read split: option.splits)
    from next_round obtain ev where rec: "poll' runID E ?h t = Some (r, t', ev)"
      and "ev0 = (Host (Sleep interval), E (h @ [(?q, E h ?q)]) (Host (Sleep interval))) # ev"
      by (cases rule: andThen_SomeE) (auto simp: poll_round_def Let_def)
    with res0 have res: "res = (r, t', drop (length h) ?h @ ev)"
      by (simp add: poll_round_def Let_def)
    from step.IH [OF rec step.prems] have "poll_result runID E ?h r ev" by simp
    then show ?thesis
      unfolding poll_result_def res by (auto simp: last_append simp flip: poll_history_Suc)
  qed
qed

lemma poll_invalid: "\<not> validStringID (Some runID) \<Longrightarrow>
  poll runID E h t = Some (Err (ErrorString ''destroy had error: invalid value for run ID''), t, [])"
  by (subst poll_eq) (simp add: andThen_def attempt_def Runs_Read_def require_def fail_def)

lemma poll_returns_iff:
  assumes "validStringID (Some runID)"
  shows "(\<exists>res. poll runID E h t = Some res) \<longleftrightarrow>
    (\<exists>n. settled (E (poll_history E runID n h) (Runs (Run_Read runID))))"
proof
  assume "\<exists>res. poll runID E h t = Some res"
  then show "\<exists>n. settled (E (poll_history E runID n h) (Runs (Run_Read runID)))"
    using poll_run [OF _ assms, of E h t] by (fastforce simp: poll_result_def)
qed (use poll_returns_if [OF assms] in blast)

section \<open>The operations\<close>

text \<open>Requests of the polling loop, by induction on the recursion.\<close>

lemma poll_emits:
  assumes "poll runID E h t = Some res"
  shows "fst (snd res) = t \<and>
    (\<forall>e \<in> set (snd (snd res)). fst e = Runs (Run_Read runID) \<or> fst e = Host (Sleep interval))"
  using assms
proof (induction rule: poll_induct)
  case (step poll' runID E h t res)
  let ?P = "\<lambda>q. q = Runs (Run_Read runID) \<or> q = Host (Sleep interval)"
  obtain r t' ev where res: "res = (r, t', ev)" by (cases res)
  have read: "emits ?P (attempt (Runs_Read runID))" "keeps_client (attempt (Runs_Read runID))"
    by (intro emits_rules keeps_rules; simp)+
  from step.hyps [unfolded res] show ?case
  proof (cases rule: andThen_SomeE)
    case (ok a t1 ev1 ev2)
    have "t' = t1 \<and> (\<forall>e \<in> set ev2. ?P (fst e))"
      using ok(2) step.IH by (fastforce split: sum.splits if_splits elim!: andThen_SomeE)
    moreover have "t1 = t" "\<forall>e \<in> set ev1. ?P (fst e)"
      using keeps_clientD [OF read(2) ok(1)] emitsD [OF read(1) ok(1)] by auto
    ultimately show ?thesis using ok(3) res by auto
  qed (use res keeps_clientD [OF read(2)] emitsD [OF read(1)] in fastforce)+
qed

lemma emits_poll [emits_rules]:
  "P (Runs (Run_Read runID)) \<Longrightarrow> P (Host (Sleep interval)) \<Longrightarrow> emits P (poll runID)"
  by (rule emitsI) (use poll_emits in fastforce)

lemma keeps_poll [keeps_rules]: "keeps_client (poll runID)"
  unfolding keeps_client_def using poll_emits by fastforce

lemma emits_DeleteRuns [emits_rules]:
  "P (Runs (Run_List w)) \<Longrightarrow> (\<And>i c. P (Runs (Run_ForceCancel i c))) \<Longrightarrow> emits P (DeleteRuns w)"
  unfolding DeleteRuns_def by (intro emits_rules)

lemma emits_DeleteResources [emits_rules]:
  "P (Workspaces (Workspace_ReadByID w)) \<Longrightarrow> (\<And>ws. P (Runs (Run_Create (destroy_options ws)))) \<Longrightarrow>
   (\<And>i. P (Runs (Run_Read i))) \<Longrightarrow> P (Host (Sleep interval)) \<Longrightarrow> emits P (DeleteResources w)"
  unfolding DeleteResources_def by (intro emits_rules)

lemma emits_CheckRun [emits_rules]: "P (Runs (Run_Read i)) \<Longrightarrow> emits P (CheckRun i)"
  unfolding CheckRun_def by (intro emits_rules)

lemma emits_CreateConfigurationVersion [emits_rules]:
  "P (ConfigVersions (ConfigVersion_Create w (Some False) (Some False))) \<Longrightarrow>
   emits P (CreateConfigurationVersion w)"
  unfolding CreateConfigurationVersion_def by (intro emits_rules)

lemma emits_UploadConfigurationFile [emits_rules]:
  "P (Host (Stat moduleDirectory)) \<Longrightarrow> P (Host (Pack moduleDirectory)) \<Longrightarrow>
   (\<And>b. P (ConfigVersions (ConfigVersion_Put u b))) \<Longrightarrow> emits P (UploadConfigurationFile u)"
  unfolding UploadConfigurationFile_def by (intro emits_rules)

lemma returns_runs [returns_rules]:
  "returns (DeleteRuns w)" "returns (CheckRun i)" "returns (CreateConfigurationVersion w)"
  "returns (UploadConfigurationFile u)"
  unfolding run_defs Let_def by (intro returns_rules)+

lemma keeps_runs [keeps_rules]:
  "keeps_client (DeleteRuns w)" "keeps_client (CheckRun i)"
  "keeps_client (CreateConfigurationVersion w)" "keeps_client (UploadConfigurationFile u)"
  "keeps_client (DeleteResources w)"
  unfolding run_defs Let_def by (intro keeps_rules)+

section \<open>Properties\<close>

fun force_cancel :: "request \<Rightarrow> string option" where
  "force_cancel (Runs (Run_ForceCancel i c)) = Some i"
| "force_cancel _ = None"

text \<open>
  \<open>DeleteRuns\<close>, when it succeeds, cancels exactly the listed runs that are pending, in the
  order of the list, and sends nothing else.
\<close>

lemma DeleteRuns_cancels_pending:
  assumes "DeleteRuns w E h t = Some (Ok u, t', ev)"
  shows "\<exists>runs rest. ev = (Runs (Run_List w), Inr (R_Runs runs)) # rest \<and>
    map fst rest = map (\<lambda>run. Runs (Run_ForceCancel (run_ID run)
      (Some ''operator, finalizer, cancelling run''))) (filter (isPending \<circ> run_Status) runs)"
proof -
  let ?msg = "''operator, finalizer, cancelling run''"
  let ?q = "\<lambda>run. Runs (Run_ForceCancel (run_ID run) (Some ?msg))"
  from assms obtain runs rest h1 where ev: "ev = (Runs (Run_List w), Inr (R_Runs runs)) # rest"
    and loop: "each (\<lambda>run. Runs_ForceCancel (run_ID run) (Some ?msg))
      (filter (isPending \<circ> run_Status) runs) E h1 t = Some (Ok u, t', rest)"
    unfolding DeleteRuns_def Let_def each_filter
    by (auto elim!: andThen_OkE dest!: tfe_Ok simp: comp_def)
  have "map fst rest = map ?q xs"
    if "each (\<lambda>run. Runs_ForceCancel (run_ID run) (Some ?msg)) xs E h1 t = Some (Ok u, t', rest)" for xs h1 t rest
    using that
    by (induction xs arbitrary: h1 t rest)
      (auto elim!: andThen_OkE simp: Runs_ForceCancel_def require_Ok perform_Ok)
  from this [OF loop] ev show ?thesis by blast
qed

text \<open>
  C24. \<open>DeleteResources\<close> returns exactly when one of its polls gets an answer that is not a
  pending run: after the destroy run was created, the loop ends iff for some \<open>n\<close> the answer
  after \<open>n\<close> rounds of polling and sleeping settles it. Nothing else bounds the loop.
\<close>

theorem DeleteResources_returns_iff:
  assumes "Workspaces_ReadByID wid E h t = Some (Ok ws, t, ev1)" and "tw_CurrentRun ws \<noteq> None"
    and "Runs_Create (destroy_options ws) E (h @ ev1) t = Some (Ok run, t, ev2)"
    and "validStringID (Some (run_ID run))"
  shows "(\<exists>res. DeleteResources wid E h t = Some res) \<longleftrightarrow>
    (\<exists>n. settled (E (poll_history E (run_ID run) n (h @ ev1 @ ev2)) (Runs (Run_Read (run_ID run)))))"
proof -
  have "(\<exists>res. DeleteResources wid E h t = Some res) \<longleftrightarrow>
    (\<exists>res. poll (run_ID run) E (h @ ev1 @ ev2) t = Some res)"
    using assms(1-3) by (auto simp: DeleteResources_def andThen_def split: option.splits)
  with poll_returns_iff [OF assms(4)] show ?thesis by simp
qed

text \<open>
  C25. When \<open>DeleteResources\<close> succeeds, either the workspace had no current run and nothing was
  requested, or a destroy run of this workspace was created and the last request read that
  run in a state that is neither pending nor errored; a destroy run that was cancelled or
  discarded counts as success.
\<close>

theorem DeleteResources_success:
  assumes "DeleteResources wid E h t = Some (Ok u, t', ev)"
  shows "\<exists>ws rest. ev = (Workspaces (Workspace_ReadByID wid), Inr (R_Workspace ws)) # rest \<and>
    (tw_CurrentRun ws = None \<and> rest = [] \<or>
     (\<exists>run polls final. rest = (Runs (Run_Create (destroy_options ws)), Inr (R_Run run)) # polls \<and>
        polls \<noteq> [] \<and> last polls = (Runs (Run_Read (run_ID run)), Inr (R_Run final)) \<and>
        run_Status final \<in> {''applied'', ''planned_and_finished'', ''canceled'', ''discarded'', ''''}))"
proof -
  from assms obtain ws t1 rest h1 where
    ev: "ev = (Workspaces (Workspace_ReadByID wid), Inr (R_Workspace ws)) # rest"
    and rest: "(if tw_CurrentRun ws = None then ret ()
      else andThen (Runs_Create (destroy_options ws)) (\<lambda>run. poll (run_ID run))) E h1 t1 = Some (Ok u, t', rest)"
    unfolding DeleteResources_def by (auto elim!: andThen_OkE dest!: tfe_Ok split del: if_split)
  show ?thesis
  proof (cases "tw_CurrentRun ws = None")
    case True
    with ev rest show ?thesis by auto
  next
    case False
    with rest obtain run polls h2 t2 where
      create: "rest = (Runs (Run_Create (destroy_options ws)), Inr (R_Run run)) # polls"
      and poll: "poll (run_ID run) E h2 t2 = Some (Ok u, t', polls)"
      by (auto elim!: andThen_OkE dest!: tfe_Ok)
    from poll have "validStringID (Some (run_ID run))"
      by (rule contrapos_pp) (simp add: poll_invalid)
    from poll_run [OF poll this] obtain final where "polls \<noteq> []"
      "last polls = (Runs (Run_Read (run_ID run)), Inr (R_Run final))"
      "\<not> isPending (run_Status final)" "run_Status final \<noteq> ''errored''"
      by (auto simp: poll_result_def destroyed_iff prod_eq_iff)
    with create ev show ?thesis by (auto simp: isPending_iff)
  qed
qed

text \<open>
  A run is pending in every state the service knows except the five final ones; an
  errored run is not pending, and no run at all (the empty status) is not either.
\<close>

lemma isPending_classifies:
  "isPending s \<longleftrightarrow> s \<noteq> '''' \<and> s \<noteq> ''applied'' \<and> s \<noteq> ''planned_and_finished'' \<and>
     s \<noteq> ''canceled'' \<and> s \<noteq> ''discarded'' \<and> \<not> isError s"
  by (auto simp: isPending_iff isError_def)

section \<open>Examples\<close>

definition example_run :: "string \<Rightarrow> Run" where
  "example_run status = \<lparr>run_ID = ''run-1'', run_Status = status\<rparr>"

definition example_remote_workspace :: tfc_Workspace where
  "example_remote_workspace = (new_tfc_Workspace ''ws-1'')\<lparr>tw_CurrentRun := Some (example_run ''applied'')\<rparr>"

text \<open>A destroy run that is pending at the first poll and cancelled at the second.\<close>

definition example_destroy_env :: env where
  "example_destroy_env = script [Inr (R_Workspace example_remote_workspace), Inr (R_Run (example_run ''pending'')),
     Inr (R_Run (example_run ''planning'')), Inr R_None, Inr (R_Run (example_run ''canceled''))]"

lemmas example_simps = script_def validStringID_def id_char_def new_tfc_Workspace_def
  example_remote_workspace_def example_run_def example_client_def example_destroy_env_def

definition example_destroy_trace :: trace where
  "example_destroy_trace =
     [(Workspaces (Workspace_ReadByID ''ws-1''), Inr (R_Workspace example_remote_workspace)),
      (Runs (Run_Create (destroy_options example_remote_workspace)), Inr (R_Run (example_run ''pending''))),
      (Runs (Run_Read ''run-1''), Inr (R_Run (example_run ''planning''))),
      (Host (Sleep interval), Inr R_None),
      (Runs (Run_Read ''run-1''), Inr (R_Run (example_run ''canceled'')))]"

lemma example_destroy_run:
  "DeleteResources ''ws-1'' example_destroy_env [] example_client =
   Some (Ok (), example_client, example_destroy_trace)"
  by (simp add: example_destroy_trace_def run_simps example_simps destroy_options_def isPending_iff poll_step poll_round_def Let_def)

lemma DeleteRuns_cancels_pending_witness:
  "\<exists>(runs :: Run list) (rest :: trace). map fst rest = map (\<lambda>run. Runs (Run_ForceCancel (run_ID run)
      (Some ''operator, finalizer, cancelling run''))) (filter (isPending \<circ> run_Status) runs)"
proof -
  have "DeleteRuns ''ws-1'' (script [Inr (R_Runs [example_run ''planning''])]) [] example_client =
    Some (Ok (), example_client, [(Runs (Run_List ''ws-1''), Inr (R_Runs [example_run ''planning''])),
      (Runs (Run_ForceCancel ''run-1'' (Some ''operator, finalizer, cancelling run'')), Inr R_None)])"
    by (simp add: run_simps example_simps isPending_iff Let_def)
  from DeleteRuns_cancels_pending [OF this] show ?thesis by blast
qed

theorem DeleteResources_returns_iff_witness:
  "\<exists>n. settled (example_destroy_env (poll_history example_destroy_env ''run-1'' n
     [(Workspaces (Workspace_ReadByID ''ws-1''), Inr (R_Workspace example_remote_workspace)),
      (Runs (Run_Create (destroy_options example_remote_workspace)), Inr (R_Run (example_run ''pending'')))])
    (Runs (Run_Read ''run-1'')))"
proof -
  have read: "Workspaces_ReadByID ''ws-1'' example_destroy_env [] example_client =
      Some (Ok example_remote_workspace, example_client,
        [(Workspaces (Workspace_ReadByID ''ws-1''), Inr (R_Workspace example_remote_workspace))])"
    by (simp add: run_simps example_simps)
  have create: "Runs_Create (destroy_options example_remote_workspace) example_destroy_env
      ([] @ [(Workspaces (Workspace_ReadByID ''ws-1''), Inr (R_Workspace example_remote_workspace))]) example_client =
      Some (Ok (example_run ''pending''), example_client,
        [(Runs (Run_Create (destroy_options example_remote_workspace)), Inr (R_Run (example_run ''pending'')))])"
    by (simp add: run_simps example_simps destroy_options_def)
  from DeleteResources_returns_iff [OF read _ create] example_destroy_run show ?thesis
    by (simp add: example_remote_workspace_def example_run_def validStringID_def id_char_def)
qed

theorem DeleteResources_success_witness:
  "\<exists>ws rest. example_destroy_trace = (Workspaces (Workspace_ReadByID ''ws-1''), Inr (R_Workspace ws)) # rest \<and>
    (tw_CurrentRun ws = None \<and> rest = [] \<or>
     (\<exists>run polls final. rest = (Runs (Run_Create (destroy_options ws)), Inr (R_Run run)) # polls \<and>
        polls \<noteq> [] \<and> last polls = (Runs (Run_Read (run_ID run)), Inr (R_Run final)) \<and>
        run_Status final \<in> {''applied'', ''planned_and_finished'', ''canceled'', ''discarded'', ''''}))"
  by (rule DeleteResources_success [OF example_destroy_run])

end
