(* ===== verification/Workspaces_Sync.thy ===== *)
theory Workspaces_Sync
  imports Tfe_Client
begin

text \<open>
  The part of \<open>workspacehelper/tfc_org.go\<close> about organizations and workspaces: a Terraform
  Cloud workspace is created when it does not exist, and its SSH key, Terraform version and
  agent pool follow the spec.
\<close>

section \<open>Definitions\<close>

definition AutoApply :: bool where "AutoApply = True"
definition AgentPageSize :: nat where "AgentPageSize = 100"

definition CheckOrganization :: "unit go" where
  "CheckOrganization = andThen get_client (\<lambda>t. Organizations_Read (tf_Organization t))"

definition SetTerraformVersion :: "string \<Rightarrow> string \<Rightarrow> unit go" where
  "SetTerraformVersion workspace terraformVersion =
     andThen get_client (\<lambda>t.
     andThen (Workspaces_Update (tf_Organization t) workspace
       (no_update\<lparr>wuo_TerraformVersion := Some terraformVersion\<rparr>)) (\<lambda>_. ret ()))"

primrec getAgentPoolID :: "string \<Rightarrow> AgentPool list \<Rightarrow> go_error + AgentPool" where
  "getAgentPoolID specTFCAgentPoolName [] =
     Inl (ErrorString (''No valid agent pools exist with name '' @ specTFCAgentPoolName))"
| "getAgentPoolID specTFCAgentPoolName (agentPool # rest) =
     (if specTFCAgentPoolName = ap_Name agentPool then Inr agentPool
      else getAgentPoolID specTFCAgentPoolName rest)"

definition listAgentPools :: "AgentPool list go" where
  "listAgentPools =
     andThen get_client (\<lambda>t.
     andThen (attempt (AgentPools_List (tf_Organization t) AgentPageSize)) (\<lambda>res. case res of
       Inl err \<Rightarrow> fail (ErrorString (''Problem fetching agent pools '' @ error_text err))
     | Inr agentpools \<Rightarrow> ret agentpools))"

text \<open>The error of the listing is shadowed by the one of the lookup in the (then nil) list.\<close>

definition wanted_pool :: "Workspace \<Rightarrow> string go" where
  "wanted_pool instance_ws =
     (if sp_AgentPoolName (Spec instance_ws) \<noteq> '''' then
        andThen (attempt listAgentPools) (\<lambda>res.
        let agentPools = (case res of Inl _ \<Rightarrow> [] | Inr pools \<Rightarrow> pools) in
        case getAgentPoolID (sp_AgentPoolName (Spec instance_ws)) agentPools of
          Inl err \<Rightarrow> fail err
        | Inr agentPool \<Rightarrow> ret (ap_ID agentPool))
      else if sp_AgentPoolID (Spec instance_ws) \<noteq> '''' then ret (sp_AgentPoolID (Spec instance_ws))
      else ret '''')"

definition updateAgentPoolID :: "Workspace \<Rightarrow> tfc_Workspace \<Rightarrow> unit go" where
  "updateAgentPoolID instance_ws workspace =
     andThen (wanted_pool instance_ws) (\<lambda>agentPoolID.
     if agentPoolID = tw_AgentPoolID workspace then ret ()
     else
       (let updateOptions = no_update\<lparr>wuo_AgentPoolID := Some agentPoolID,
          wuo_ExecutionMode := Some (if agentPoolID \<noteq> '''' then ''agent'' else '''')\<rparr> in
        andThen get_client (\<lambda>t.
        andThen (Workspaces_Update (tf_Organization t) (tw_Name workspace) updateOptions) (\<lambda>_. ret ()))))"

definition GetSSHKeyByNameOrID :: "string \<Rightarrow> string go" where
  "GetSSHKeyByNameOrID SSHKeyID =
     andThen get_client (\<lambda>t.
     andThen (SSHKeys_List (tf_Organization t)) (\<lambda>sshKeys.
     case List.find (\<lambda>elem. ssh_ID elem = SSHKeyID \<or> ssh_Name elem = SSHKeyID) sshKeys of
       Some elem \<Rightarrow> ret (ssh_ID elem)
     | None \<Rightarrow> fail ErrResourceNotFound))"

definition AssignWorkspaceSSHKey :: "string \<Rightarrow> string \<Rightarrow> string go" where
  "AssignWorkspaceSSHKey workspaceID SSHKeyID =
     andThen (GetSSHKeyByNameOrID SSHKeyID) (\<lambda>sshKey.
     andThen (Workspaces_AssignSSHKey workspaceID sshKey) (\<lambda>ws. ret (tw_ID ws)))"

definition UnassignWorkspaceSSHKey :: "string \<Rightarrow> string go" where
  "UnassignWorkspaceSSHKey workspaceID =
     andThen (Workspaces_UnassignSSHKey workspaceID) (\<lambda>ws. ret (tw_ID ws))"

definition create_options :: "string \<Rightarrow> Workspace \<Rightarrow> WorkspaceCreateOptions" where
  "create_options workspace instance_ws = \<lparr>wco_AgentPoolID = None, wco_AutoApply = Some AutoApply,
     wco_ExecutionMode = None, wco_Name = Some workspace, wco_Operations = None,
     wco_TerraformVersion = Some (if sp_TerraformVersion (Spec instance_ws) = '''' then ''latest''
                                  else sp_TerraformVersion (Spec instance_ws)),
     wco_VCSRepo = map_option (\<lambda>vcs. \<lparr>vro_Branch = Some (vcs_Branch vcs),
       vro_Identifier = Some (vcs_RepoIdentifier vcs),
       vro_IngressSubmodules = Some (vcs_IngressSubmodules vcs),
       vro_OAuthTokenID = Some (vcs_TokenID vcs)\<rparr>) (sp_VCS (Spec instance_ws))\<rparr>"

definition with_agent_pool :: "string \<Rightarrow> WorkspaceCreateOptions \<Rightarrow> WorkspaceCreateOptions" where
  "with_agent_pool pool options =
     options\<lparr>wco_AgentPoolID := Some pool, wco_ExecutionMode := Some ''agent''\<rparr>"

definition CreateWorkspace :: "string \<Rightarrow> Workspace \<Rightarrow> string go" where
  "CreateWorkspace workspace instance_ws =
     (let options = create_options workspace instance_ws; spec = Spec instance_ws in
      andThen
        (if sp_AgentPoolID spec \<noteq> '''' then ret (with_agent_pool (sp_AgentPoolID spec) options)
         else if sp_AgentPoolName spec \<noteq> '''' then
           andThen listAgentPools (\<lambda>agentPools.
           case getAgentPoolID (sp_AgentPoolName spec) agentPools of
             Inl err \<Rightarrow> fail err
           | Inr agentPool \<Rightarrow> ret (with_agent_pool (ap_ID agentPool) options))
         else ret options)
      (\<lambda>options.
      andThen get_client (\<lambda>t.
      andThen (Workspaces_Create (tf_Organization t) options) (\<lambda>ws. ret (tw_ID ws)))))"

text \<open>The tail of \<open>CheckWorkspace\<close>, on the workspace read or created.\<close>

definition sync_ssh_key :: "Workspace \<Rightarrow> tfc_Workspace \<Rightarrow> unit go" where
  "sync_ssh_key instance_ws ws =
     (if sp_SSHKeyID (Spec instance_ws) \<noteq> '''' then
        andThen (attempt (AssignWorkspaceSSHKey (tw_ID ws) (sp_SSHKeyID (Spec instance_ws)))) (\<lambda>res. case res of
          Inl err \<Rightarrow> fail (ErrorString (''Error while assigning ssh key to workspace: '' @ error_text err))
        | Inr _ \<Rightarrow> ret ())
      else if tw_SSHKey ws \<noteq> None then
        andThen (attempt (UnassignWorkspaceSSHKey (tw_ID ws))) (\<lambda>res. case res of
          Inl err \<Rightarrow> fail (ErrorString (''Error while unassigning ssh key to workspace: '' @ error_text err))
        | Inr _ \<Rightarrow> ret ())
      else ret ())"

definition sync_version :: "string \<Rightarrow> Workspace \<Rightarrow> tfc_Workspace \<Rightarrow> unit go" where
  "sync_version workspace instance_ws ws =
     (if sp_TerraformVersion (Spec instance_ws) \<noteq> tw_TerraformVersion ws
      then SetTerraformVersion workspace (sp_TerraformVersion (Spec instance_ws)) else ret ())"

definition sync_agent_pool :: "Workspace \<Rightarrow> tfc_Workspace \<Rightarrow> unit go" where
  "sync_agent_pool instance_ws ws =
     (if sp_AgentPoolID (Spec instance_ws) \<noteq> tw_AgentPoolID ws then
        andThen (attempt (updateAgentPoolID instance_ws ws)) (\<lambda>res. case res of
          Inl err \<Rightarrow> fail (ErrorString (''error while updating Agent Pool ID settings for workspace ''
             @ quote (tw_Name ws) @ '': '' @ error_text err))
        | Inr _ \<Rightarrow> ret ())
      else ret ())"

definition CheckWorkspace :: "string \<Rightarrow> Workspace \<Rightarrow> tfc_Workspace go" where
  "CheckWorkspace workspace instance_ws =
     andThen get_client (\<lambda>t.
     andThen (attempt (Workspaces_Read (tf_Organization t) workspace)) (\<lambda>res.
     andThen (case res of
         Inl err \<Rightarrow>
           if err = ErrResourceNotFound then
             andThen (CreateWorkspace workspace instance_ws) (\<lambda>ident. ret (new_tfc_Workspace ident))
           else fail err
       | Inr ws \<Rightarrow> ret ws) (\<lambda>ws.
     andThen (sync_ssh_key instance_ws ws) (\<lambda>_.
     andThen (sync_version workspace instance_ws ws) (\<lambda>_.
     andThen (sync_agent_pool instance_ws ws) (\<lambda>_. ret ws))))))"

definition CheckWorkspacebyID :: "string \<Rightarrow> unit go" where
  "CheckWorkspacebyID workspaceID = andThen (Workspaces_ReadByID workspaceID) (\<lambda>_. ret ())"

definition DeleteWorkspace :: "string \<Rightarrow> unit go" where
  "DeleteWorkspace workspaceID = Workspaces_DeleteByID workspaceID"

lemmas workspace_defs [run_simps] = CheckOrganization_def SetTerraformVersion_def listAgentPools_def
  wanted_pool_def updateAgentPoolID_def GetSSHKeyByNameOrID_def AssignWorkspaceSSHKey_def
  UnassignWorkspaceSSHKey_def CreateWorkspace_def sync_ssh_key_def sync_version_def
  sync_agent_pool_def CheckWorkspace_def CheckWorkspacebyID_def DeleteWorkspace_def

section \<open>What the operations send\<close>

text \<open>The requests of \<open>CheckWorkspace\<close>: none of them deletes anything.\<close>

fun workspace_sync_request :: "request \<Rightarrow> bool" where
  "workspace_sync_request (Workspaces (Workspace_DeleteByID i)) = False"
| "workspace_sync_request (Workspaces (Workspace_ReadByID i)) = False"
| "workspace_sync_request (Workspaces q) = True"
| "workspace_sync_request (Organizations (SSHKey_List o1)) = True"
| "workspace_sync_request (Organizations (AgentPool_List o1 n)) = True"
| "workspace_sync_request q = False"

lemma emits_CheckOrganization [emits_rules]:
  "(\<And>x. P (Organizations (Organization_Read x))) \<Longrightarrow> emits P CheckOrganization"
  unfolding CheckOrganization_def by (intro emits_rules)

lemma emits_CheckWorkspace [emits_rules]:
  assumes "\<And>q. workspace_sync_request q \<Longrightarrow> P q"
  shows "emits P (CheckWorkspace name instance_ws)"
  unfolding workspace_defs Let_def by (intro emits_rules; rule assms) simp_all

lemma emits_CheckWorkspacebyID [emits_rules]:
  "P (Workspaces (Workspace_ReadByID i)) \<Longrightarrow> emits P (CheckWorkspacebyID i)"
  unfolding CheckWorkspacebyID_def by (intro emits_rules)

lemma emits_DeleteWorkspace [emits_rules]:
  "P (Workspaces (Workspace_DeleteByID i)) \<Longrightarrow> emits P (DeleteWorkspace i)"
  unfolding DeleteWorkspace_def by (intro emits_rules)

lemma returns_workspaces [returns_rules]:
  "returns CheckOrganization" "returns (CheckWorkspace name instance_ws)"
  "returns (CheckWorkspacebyID i)" "returns (DeleteWorkspace i)"
  unfolding workspace_defs Let_def by (intro returns_rules)+

lemma keeps_workspaces [keeps_rules]:
  "keeps_client CheckOrganization" "keeps_client (CheckWorkspace name instance_ws)"
  "keeps_client (CheckWorkspacebyID i)" "keeps_client (DeleteWorkspace i)"
  unfolding workspace_defs Let_def by (intro keeps_rules)+

section \<open>The requests of each step\<close>

definition ssh_requests :: "tfclient \<Rightarrow> Workspace \<Rightarrow> tfc_Workspace \<Rightarrow> string \<Rightarrow> request list" where
  "ssh_requests t instance_ws ws key =
     (if sp_SSHKeyID (Spec instance_ws) \<noteq> '''' then
        [Organizations (SSHKey_List (tf_Organization t)), Workspaces (Workspace_AssignSSHKey (tw_ID ws) key)]
      else if tw_SSHKey ws \<noteq> None then [Workspaces (Workspace_UnassignSSHKey (tw_ID ws))]
      else [])"

definition version_requests :: "tfclient \<Rightarrow> string \<Rightarrow> Workspace \<Rightarrow> tfc_Workspace \<Rightarrow> request list" where
  "version_requests t workspace instance_ws ws =
     (let v = sp_TerraformVersion (Spec instance_ws) in
      if v \<noteq> tw_TerraformVersion ws then
        [Workspaces (Workspace_Update (tf_Organization t) workspace (no_update\<lparr>wuo_TerraformVersion := Some v\<rparr>))]
      else [])"

definition pool_requests :: "tfclient \<Rightarrow> Workspace \<Rightarrow> tfc_Workspace \<Rightarrow> string \<Rightarrow> request list" where
  "pool_requests t instance_ws ws pool =
     (if sp_AgentPoolID (Spec instance_ws) = tw_AgentPoolID ws then []
      else (if sp_AgentPoolName (Spec instance_ws) \<noteq> ''''
            then [Organizations (AgentPool_List (tf_Organization t) AgentPageSize)] else []) @
           (if pool = tw_AgentPoolID ws then []
            else [Workspaces (Workspace_Update (tf_Organization t) (tw_Name ws)
              (no_update\<lparr>wuo_AgentPoolID := Some pool,
                 wuo_ExecutionMode := Some (if pool \<noteq> '''' then ''agent'' else '''')\<rparr>))]))"

text \<open>
  The key and the pool that are sent: the key is the ID of the first listed SSH key whose ID or
  name the spec gives. The pool is the one the spec identifies or, if the spec has a name, the ID of the first
  listed pool of that name; it matters only if the spec's \<open>AgentPoolID\<close> is not the workspace's.
\<close>

definition chosen_key :: "tfclient \<Rightarrow> Workspace \<Rightarrow> trace \<Rightarrow> string \<Rightarrow> bool" where
  "chosen_key t instance_ws ev key \<longleftrightarrow> (let k = sp_SSHKeyID (Spec instance_ws) in
     k \<noteq> '''' \<longrightarrow> (\<exists>keys elem. (Organizations (SSHKey_List (tf_Organization t)), Inr (R_SSHKeys keys)) \<in> set ev \<and>
       List.find (\<lambda>elem. ssh_ID elem = k \<or> ssh_Name elem = k) keys = Some elem \<and> key = ssh_ID elem))"

definition chosen_pool :: "tfclient \<Rightarrow> Workspace \<Rightarrow> tfc_Workspace \<Rightarrow> trace \<Rightarrow> string \<Rightarrow> bool" where
  "chosen_pool t instance_ws ws ev pool \<longleftrightarrow> (let n = sp_AgentPoolName (Spec instance_ws) in
     sp_AgentPoolID (Spec instance_ws) \<noteq> tw_AgentPoolID ws \<longrightarrow>
     (if n = '''' then pool = sp_AgentPoolID (Spec instance_ws)
      else \<exists>pools elem. (Organizations (AgentPool_List (tf_Organization t) AgentPageSize), Inr (R_AgentPools pools)) \<in> set ev \<and>
        List.find (\<lambda>elem. ap_Name elem = n) pools = Some elem \<and> pool = ap_ID elem))"

lemma chosen_mono:
  "chosen_key t w ev key \<Longrightarrow> set ev \<subseteq> set ev' \<Longrightarrow> chosen_key t w ev' key"
  "chosen_pool t w ws ev pool \<Longrightarrow> set ev \<subseteq> set ev' \<Longrightarrow> chosen_pool t w ws ev' pool"
  by (auto simp: chosen_key_def chosen_pool_def Let_def split: if_splits)

lemma getAgentPoolID_find: "getAgentPoolID n pools = Inr p \<longleftrightarrow> List.find (\<lambda>elem. ap_Name elem = n) pools = Some p"
  by (induction pools) auto

lemma sync_ssh_key_Ok:
  assumes "sync_ssh_key instance_ws ws E h t = Some (Ok u, t', ev)"
  shows "t' = t \<and> (\<exists>key. map fst ev = ssh_requests t instance_ws ws key \<and> chosen_key t instance_ws ev key)"
  using assms
  by (auto simp: sync_ssh_key_def ssh_requests_def chosen_key_def attempt_Some AssignWorkspaceSSHKey_def
      GetSSHKeyByNameOrID_def UnassignWorkspaceSSHKey_def SSHKeys_List_def Workspaces_AssignSSHKey_def
      Workspaces_UnassignSSHKey_def require_Ok check_options_Ok call_Ok
      elim!: andThen_OkE as_sshkeys.elims split: if_splits sum.splits option.splits)

lemma sync_version_Ok:
  assumes "sync_version workspace instance_ws ws E h t = Some (Ok u, t', ev)"
  shows "t' = t \<and> map fst ev = version_requests t workspace instance_ws ws"
  using assms
  by (auto simp: sync_version_def version_requests_def SetTerraformVersion_def Workspaces_Update_def
      require_Ok check_options_Ok call_Ok Let_def elim!: andThen_OkE split: if_splits)

lemma listAgentPools_attempt:
  assumes "attempt listAgentPools E h t = Some (Ok res, t', ev)"
    and "res = Inr pools"
  shows "t' = t \<and> ev = [(Organizations (AgentPool_List (tf_Organization t) AgentPageSize), Inr (R_AgentPools pools))]"
  using assms by (auto simp: attempt_Some listAgentPools_def AgentPools_List_def require_Ok call_Ok
      elim!: andThen_OkE as_agentpools.elims split: sum.splits)

lemma wanted_pool_Ok:
  assumes "wanted_pool instance_ws E h t = Some (Ok pool, t', ev)"
  shows "t' = t \<and> map fst ev = (if sp_AgentPoolName (Spec instance_ws) \<noteq> ''''
      then [Organizations (AgentPool_List (tf_Organization t) AgentPageSize)] else []) \<and>
    (sp_AgentPoolName (Spec instance_ws) = '''' \<longrightarrow> pool = sp_AgentPoolID (Spec instance_ws)) \<and>
    chosen_pool t instance_ws ws ev pool"
proof (cases "sp_AgentPoolName (Spec instance_ws) = ''''")
  case True
  with assms show ?thesis by (auto simp: wanted_pool_def chosen_pool_def split: if_splits)
next
  case False
  with assms obtain res t1 ev1 p where run: "attempt listAgentPools E h t = Some (Ok res, t1, ev1)"
    and t': "t' = t1" "ev = ev1" and pool: "pool = ap_ID p"
    and p: "getAgentPoolID (sp_AgentPoolName (Spec instance_ws))
      (case res of Inl _ \<Rightarrow> [] | Inr pools \<Rightarrow> pools) = Inr p"
    by (auto simp: wanted_pool_def Let_def elim!: andThen_OkE split: sum.splits)
  from p obtain pools where res: "res = Inr pools" by (auto split: sum.splits)
  from listAgentPools_attempt [OF run res] False t' p pool res show ?thesis
    by (simp add: chosen_pool_def getAgentPoolID_find)
qed

abbreviation pool_options :: "string \<Rightarrow> WorkspaceUpdateOptions" where
  "pool_options pool \<equiv> no_update\<lparr>wuo_AgentPoolID := Some pool,
     wuo_ExecutionMode := Some (if pool \<noteq> '''' then ''agent'' else '''')\<rparr>"

lemma pool_update_Ok:
  assumes "(if pool = tw_AgentPoolID ws then ret ()
      else andThen get_client (\<lambda>t. andThen (Workspaces_Update (tf_Organization t) (tw_Name ws) (pool_options pool))
        (\<lambda>_. ret ()))) E h t = Some (Ok (), t', ev)"
  shows "t' = t" and "pool \<noteq> tw_AgentPoolID ws \<Longrightarrow> validStringID (Some (tw_Name ws))"
    and "map fst ev = (if pool = tw_AgentPoolID ws then []
      else [Workspaces (Workspace_Update (tf_Organization t) (tw_Name ws) (pool_options pool))])"
  using assms by (auto simp: Workspaces_Update_def require_Ok check_options_Ok call_Ok
      elim!: andThen_OkE split: if_splits)

lemma sync_agent_pool_Ok:
  assumes "sync_agent_pool instance_ws ws E h t = Some (Ok u, t', ev)"
  shows "t' = t \<and> (\<exists>pool. map fst ev = pool_requests t instance_ws ws pool \<and> chosen_pool t instance_ws ws ev pool) \<and>
    (sp_AgentPoolID (Spec instance_ws) = tw_AgentPoolID ws \<or> validStringID (Some (tw_Name ws)) \<or>
     sp_AgentPoolName (Spec instance_ws) \<noteq> '''')"
proof (cases "sp_AgentPoolID (Spec instance_ws) = tw_AgentPoolID ws")
  case True
  with assms show ?thesis by (auto simp: sync_agent_pool_def pool_requests_def chosen_pool_def)
next
  case False
  with assms have "updateAgentPoolID instance_ws ws E h t = Some (Ok (), t', ev)"
    by (auto simp: sync_agent_pool_def attempt_Some elim!: andThen_OkE split: sum.splits)
  then obtain pool t1 ev1 ev2 h1 where pool: "wanted_pool instance_ws E h t = Some (Ok pool, t1, ev1)"
    and ev: "ev = ev1 @ ev2"
    and rest: "(if pool = tw_AgentPoolID ws then ret ()
      else andThen get_client (\<lambda>t. andThen (Workspaces_Update (tf_Organization t) (tw_Name ws) (pool_options pool))
        (\<lambda>_. ret ()))) E h1 t1 = Some (Ok (), t', ev2)"
    unfolding updateAgentPoolID_def Let_def by (rule andThen_OkE)
  note w = wanted_pool_Ok [OF pool, where ws = ws] and upd = pool_update_Ok [OF rest]
  have "map fst ev = pool_requests t instance_ws ws pool"
    using upd ev False w by (cases "pool = tw_AgentPoolID ws") (simp_all add: pool_requests_def)
  moreover have "chosen_pool t instance_ws ws ev pool" using w ev by (auto elim: chosen_mono)
  moreover have "validStringID (Some (tw_Name ws)) \<or> sp_AgentPoolName (Spec instance_ws) \<noteq> ''''"
    using upd w False by (cases "pool = tw_AgentPoolID ws") auto
  moreover have "t' = t" using upd w by (cases "pool = tw_AgentPoolID ws") simp_all
  ultimately show ?thesis by blast
qed

text \<open>The three steps that follow once the workspace is known.\<close>

abbreviation sync_steps :: "string \<Rightarrow> Workspace \<Rightarrow> tfc_Workspace \<Rightarrow> unit go" where
  "sync_steps workspace instance_ws ws \<equiv> andThen (sync_ssh_key instance_ws ws)
     (\<lambda>_. andThen (sync_version workspace instance_ws ws) (\<lambda>_. sync_agent_pool instance_ws ws))"

lemma CheckWorkspace_steps:
  "CheckWorkspace workspace instance_ws =
     andThen get_client (\<lambda>t. andThen (attempt (Workspaces_Read (tf_Organization t) workspace)) (\<lambda>res.
     andThen (case res of
         Inl err \<Rightarrow>
           if err = ErrResourceNotFound then
             andThen (CreateWorkspace workspace instance_ws) (\<lambda>ident. ret (new_tfc_Workspace ident))
           else fail err
       | Inr ws \<Rightarrow> ret ws) (\<lambda>ws. andThen (sync_steps workspace instance_ws ws) (\<lambda>_. ret ws))))"
  unfolding CheckWorkspace_def andThen_assoc ..

lemma synced_OkE:
  assumes "andThen (sync_steps workspace instance_ws w) (\<lambda>_. ret w) E h t = Some (Ok ws, t', ev)"
  obtains "w = ws" "sync_steps workspace instance_ws ws E h t = Some (Ok (), t', ev)"
  using assms by (rule andThen_OkE) (use that in simp)

lemma Workspaces_Read_missing:
  assumes "Workspaces_Read org workspace E h t = Some (Err ErrResourceNotFound, t', ev)"
  shows "t' = t" and "ev = [(Workspaces (Workspace_Read org workspace), Inl ErrResourceNotFound)]"
  using assms by (auto simp: Workspaces_Read_def require_def call_Some split: if_splits sum.splits option.splits)

lemma CheckWorkspace_OkE:
  assumes "CheckWorkspace workspace instance_ws E h t = Some (Ok ws, t', ev)"
  obtains (existing) rest where
      "ev = (Workspaces (Workspace_Read (tf_Organization t) workspace), Inr (R_Workspace ws)) # rest"
      "sync_steps workspace instance_ws ws E (h @ [hd ev]) t = Some (Ok (), t', rest)"
    | (new) ident cev rest h1 t1 where
      "ev = (Workspaces (Workspace_Read (tf_Organization t) workspace), Inl ErrResourceNotFound) # cev @ rest"
      "CreateWorkspace workspace instance_ws E (h @ [hd ev]) t = Some (Ok ident, t1, cev)"
      "ws = new_tfc_Workspace ident"
      "sync_steps workspace instance_ws ws E h1 t1 = Some (Ok (), t', rest)"
  using assms unfolding CheckWorkspace_steps andThen_get_client
proof (cases rule: andThen_attempt_OkE)
  case (success w t1 ev1 ev2)
  from success(2) have "andThen (sync_steps workspace instance_ws w) (\<lambda>_. ret w) E (h @ ev1) t1 = Some (Ok ws, t', ev2)"
    by simp
  then show thesis
    by (rule synced_OkE) (use existing tfe_Ok(1) [OF success(1)] success(3) in simp)
next
  case (failure err t1 ev1 ev2)
  from failure(2) have nf: "err = ErrResourceNotFound" by (auto split: if_splits)
  note read = Workspaces_Read_missing [OF failure(1) [unfolded nf]]
  from failure(2) nf have "andThen (CreateWorkspace workspace instance_ws) (\<lambda>ident.
      andThen (sync_steps workspace instance_ws (new_tfc_Workspace ident)) (\<lambda>_. ret (new_tfc_Workspace ident)))
    E (h @ ev1) t1 = Some (Ok ws, t', ev2)" by simp
  then obtain ident t2 cev ev3 where
    create: "CreateWorkspace workspace instance_ws E (h @ ev1) t1 = Some (Ok ident, t2, cev)"
    and rest: "andThen (sync_steps workspace instance_ws (new_tfc_Workspace ident)) (\<lambda>_. ret (new_tfc_Workspace ident))
      E ((h @ ev1) @ cev) t2 = Some (Ok ws, t', ev3)"
    and ev2: "ev2 = cev @ ev3" by (rule andThen_OkE)
  from rest show thesis
  proof (rule synced_OkE)
    assume ws: "new_tfc_Workspace ident = ws"
      and sync: "sync_steps workspace instance_ws ws E ((h @ ev1) @ cev) t2 = Some (Ok (), t', ev3)"
    show thesis by (rule new [OF _ _ ws [symmetric] sync]) (use read failure(3) ev2 create in simp_all)
  qed
qed

section \<open>Properties\<close>

lemma sync_Ok:
  assumes "sync_steps workspace instance_ws ws E h t = Some (Ok u, t', ev)"
  shows "t' = t \<and> (\<exists>key pool. map fst ev = ssh_requests t instance_ws ws key @
      version_requests t workspace instance_ws ws @ pool_requests t instance_ws ws pool \<and>
      chosen_key t instance_ws ev key \<and> chosen_pool t instance_ws ws ev pool) \<and>
    (sp_AgentPoolID (Spec instance_ws) = tw_AgentPoolID ws \<or> validStringID (Some (tw_Name ws)) \<or>
     sp_AgentPoolName (Spec instance_ws) \<noteq> '''')"
proof -
  from assms obtain u1 t1 ev1 h2 u2 t2 ev2 h3 ev3 where
    "sync_ssh_key instance_ws ws E h t = Some (Ok u1, t1, ev1)"
    "sync_version workspace instance_ws ws E h2 t1 = Some (Ok u2, t2, ev2)"
    "sync_agent_pool instance_ws ws E h3 t2 = Some (Ok u, t', ev3)" and ev: "ev = ev1 @ ev2 @ ev3"
    by (elim andThen_OkE) simp
  note steps = sync_ssh_key_Ok [OF this(1)] sync_version_Ok [OF this(2)] sync_agent_pool_Ok [OF this(3)]
  from steps obtain key pool where "map fst ev1 = ssh_requests t instance_ws ws key"
    "chosen_key t instance_ws ev1 key" "chosen_pool t instance_ws ws ev3 pool" "map fst ev2 = version_requests t workspace instance_ws ws"
    "map fst ev3 = pool_requests t instance_ws ws pool" by auto
  with ev have "map fst ev = ssh_requests t instance_ws ws key @
      version_requests t workspace instance_ws ws @ pool_requests t instance_ws ws pool \<and> chosen_key t instance_ws ev key \<and> chosen_pool t instance_ws ws ev pool"
    by (auto elim: chosen_mono)
  with steps show ?thesis by blast
qed

text \<open>
  C28. \<open>CheckWorkspace\<close> on a workspace that exists returns that workspace and, after reading it,
  sends exactly these requests. If the spec names an SSH key, the keys are listed and the first
  one with this ID or name is assigned, at every reconcile and also when the workspace has it
  already; if not, the key the workspace has is unassigned. The spec's Terraform version is sent when the
  workspace's differs (also an empty one). When the spec's \<open>AgentPoolID\<close> is not the workspace's,
  and only then, the agent pool is considered: with an \<open>AgentPoolName\<close> the pools are listed and
  the first one of that name is wanted, otherwise the pool of the spec, and the wanted one is
  sent if the workspace has another.
\<close>

theorem CheckWorkspace_existing:
  assumes "CheckWorkspace workspace instance_ws E h t = Some (Ok ws, t', ev)"
    and "snd (hd ev) \<noteq> Inl ErrResourceNotFound"
  shows "t' = t \<and> snd (hd ev) = Inr (R_Workspace ws) \<and> (\<exists>key pool.
    map fst ev = Workspaces (Workspace_Read (tf_Organization t) workspace) #
      ssh_requests t instance_ws ws key @ version_requests t workspace instance_ws ws @
      pool_requests t instance_ws ws pool \<and>
    (sp_SSHKeyID (Spec instance_ws) \<noteq> '''' \<longrightarrow> (\<exists>keys elem.
      (Organizations (SSHKey_List (tf_Organization t)), Inr (R_SSHKeys keys)) \<in> set ev \<and>
      List.find (\<lambda>elem. ssh_ID elem = sp_SSHKeyID (Spec instance_ws) \<or> ssh_Name elem = sp_SSHKeyID (Spec instance_ws)) keys
        = Some elem \<and> key = ssh_ID elem)) \<and>
    (sp_AgentPoolID (Spec instance_ws) \<noteq> tw_AgentPoolID ws \<longrightarrow>
      (if sp_AgentPoolName (Spec instance_ws) = '''' then pool = sp_AgentPoolID (Spec instance_ws)
       else \<exists>pools elem. (Organizations (AgentPool_List (tf_Organization t) AgentPageSize), Inr (R_AgentPools pools)) \<in> set ev \<and>
         List.find (\<lambda>elem. ap_Name elem = sp_AgentPoolName (Spec instance_ws)) pools = Some elem \<and> pool = ap_ID elem)))"
  using assms(1)
proof (cases rule: CheckWorkspace_OkE)
  case (existing rest)
  from sync_Ok [OF existing(2)] obtain key pool where "t' = t"
    and reqs: "map fst rest = ssh_requests t instance_ws ws key @
      version_requests t workspace instance_ws ws @ pool_requests t instance_ws ws pool"
    and chosen: "chosen_key t instance_ws rest key" "chosen_pool t instance_ws ws rest pool" by blast
  moreover have "set rest \<subseteq> set ev" using existing(1) by auto
  note chosen_mono(1) [OF chosen(1) this] chosen_mono(2) [OF chosen(2) this]
  ultimately show ?thesis using existing(1) unfolding chosen_key_def chosen_pool_def Let_def
    by (intro conjI exI [of _ key] exI [of _ pool]) simp_all
next
  case (new ident cev rest h1 t1)
  with assms(2) show ?thesis by simp
qed

text \<open>
  A workspace that is already as the spec wants it is left alone: when the spec names no
  SSH key and the versions and agent pool IDs agree, \<open>CheckWorkspace\<close> succeeds after the one
  read.
\<close>

lemma CheckWorkspace_in_sync:
  assumes "E h (Workspaces (Workspace_Read (tf_Organization t) workspace)) = Inr (R_Workspace ws)"
    and "validStringID (Some (tf_Organization t))" "validStringID (Some workspace)"
    and "sp_SSHKeyID (Spec instance_ws) = ''''" "tw_SSHKey ws = None"
    and "sp_TerraformVersion (Spec instance_ws) = tw_TerraformVersion ws"
    and "sp_AgentPoolID (Spec instance_ws) = tw_AgentPoolID ws"
  shows "CheckWorkspace workspace instance_ws E h t =
    Some (Ok ws, t, [(Workspaces (Workspace_Read (tf_Organization t) workspace), Inr (R_Workspace ws))])"
proof -
  have "attempt (Workspaces_Read (tf_Organization t) workspace) E h t = Some (Ok (Inr ws), t,
      [(Workspaces (Workspace_Read (tf_Organization t) workspace), Inr (R_Workspace ws))])"
    using assms(1-3) by (simp add: attempt_def Workspaces_Read_def call_def)
  moreover have "sync_ssh_key instance_ws ws = ret ()" "sync_version workspace instance_ws ws = ret ()"
    "sync_agent_pool instance_ws ws = ret ()"
    using assms(4-7) by (simp_all add: sync_ssh_key_def sync_version_def sync_agent_pool_def)
  ultimately show ?thesis
    by (simp add: CheckWorkspace_def andThen_def [of "attempt _"] ret_run)
qed

text \<open>
  Creating a workspace with an agent pool ID never succeeds at once: the new workspace is
  represented by its ID alone, so the update of its agent pool is addressed to the empty
  name, and only a later reconcile can get through.
\<close>

lemma CheckWorkspace_new_with_agent_pool:
  assumes "CheckWorkspace workspace instance_ws E h t = Some (r, t', ev)"
    and "snd (hd ev) = Inl ErrResourceNotFound" and "ev \<noteq> []"
    and "sp_AgentPoolID (Spec instance_ws) \<noteq> ''''" "sp_AgentPoolName (Spec instance_ws) = ''''"
  shows "\<forall>ws. r \<noteq> Ok ws"
proof (intro allI notI)
  fix ws assume "r = Ok ws"
  with assms(1) have "CheckWorkspace workspace instance_ws E h t = Some (Ok ws, t', ev)" by simp
  then show False
  proof (cases rule: CheckWorkspace_OkE)
    case (existing rest)
    with assms(2) show False by simp
  next
    case (new ident cev rest h1 t1)
    with sync_Ok [OF new(4)] assms(4,5) show False by (simp add: new_tfc_Workspace_def)
  qed
qed

fun workspace_create :: "request \<Rightarrow> string option" where
  "workspace_create (Workspaces (Workspace_Create o1 opts)) = wco_Name opts"
| "workspace_create _ = None"

lemma emits_sync:
  "emits (\<lambda>q. workspace_create q = None) (sync_ssh_key instance_ws ws)"
  "emits (\<lambda>q. workspace_create q = None) (sync_version workspace instance_ws ws)"
  "emits (\<lambda>q. workspace_create q = None) (sync_agent_pool instance_ws ws)"
  unfolding workspace_defs Let_def by (intro emits_rules; simp)+

text \<open>
  A workspace is created only after the service has answered that it does not exist.
\<close>

lemma CheckWorkspace_creates_only_missing:
  assumes "CheckWorkspace workspace instance_ws E h t = Some (r, t', ev)"
    and "sent workspace_create ev \<noteq> []"
  shows "hd ev = (Workspaces (Workspace_Read (tf_Organization t) workspace), Inl ErrResourceNotFound)"
proof (rule ccontr)
  assume other: "hd ev \<noteq> (Workspaces (Workspace_Read (tf_Organization t) workspace), Inl ErrResourceNotFound)"
  let ?read = "Workspaces_Read (tf_Organization t) workspace"
  let ?tail = "\<lambda>ws. andThen (sync_steps workspace instance_ws ws) (\<lambda>_. ret ws)"
  have tail: "sent workspace_create ev = []" if "?tail ws E h t = Some (r, t', ev)" for ws h t ev
    using that by (intro sent_none [where m = "?tail ws"]) (intro emits_rules emits_sync)
  have read: "sent workspace_create ev1 = [] \<and> (r1 = Err ErrResourceNotFound \<longrightarrow>
      ev1 = [(Workspaces (Workspace_Read (tf_Organization t) workspace), Inl ErrResourceNotFound)])"
    if "?read E h t = Some (r1, t1, ev1)" for r1 t1 ev1
    using that by (auto simp: Workspaces_Read_def require_def call_Some split: if_splits sum.splits option.splits)
  note run = assms(1) [unfolded CheckWorkspace_steps andThen_get_client]
  from run have "sent workspace_create ev = []"
  proof (cases rule: andThen_SomeE)
    case (ok res t1 ev1 ev2)
    then consider e where "?read E h t = Some (Err e, t1, ev1)" "res = Inl e"
      | ws where "?read E h t = Some (Ok ws, t1, ev1)" "res = Inr ws"
      by (auto simp: attempt_Some)
    then show ?thesis
    proof cases
      case (1 e)
      from read [OF 1(1)] other ok(3) have "e \<noteq> ErrResourceNotFound" by auto
      with 1 ok read [OF 1(1)] show ?thesis by simp
    next
      case (2 ws)
      with ok read [OF 2(1)] tail [of ws] show ?thesis by simp
    qed
  qed (auto simp: attempt_Some dest: read)
  with assms(2) show False by simp
qed

section \<open>Examples\<close>

definition example_tfc :: tfc_Workspace where
  "example_tfc = (new_tfc_Workspace ''ws-1'')\<lparr>tw_Name := ''prod-hello'', tw_TerraformVersion := ''0.13.0''\<rparr>"

definition example_pooled :: Workspace where
  "example_pooled = example_workspace\<lparr>Spec := (Spec example_workspace)\<lparr>sp_AgentPoolID := ''apool-1''\<rparr>\<rparr>"

lemmas example_sync_simps = script_def validStringID_def validString_def id_char_def new_tfc_Workspace_def
  example_client_def example_tfc_def example_workspace_def example_pooled_def

text \<open>An existing workspace with a version, and a spec without one that names an SSH key and an agent pool.\<close>

definition example_keyed :: Workspace where
  "example_keyed = example_workspace\<lparr>Spec := (Spec example_workspace)\<lparr>sp_SSHKeyID := ''deploy'',
     sp_AgentPoolID := ''apool-1'', sp_AgentPoolName := ''blue''\<rparr>\<rparr>"

definition example_sync_trace :: trace where
  "example_sync_trace =
     [(Workspaces (Workspace_Read ''world'' ''prod-hello''), Inr (R_Workspace example_tfc)),
      (Organizations (SSHKey_List ''world''), Inr (R_SSHKeys [\<lparr>ssh_ID = ''sshkey-1'', ssh_Name = ''deploy''\<rparr>])),
      (Workspaces (Workspace_AssignSSHKey ''ws-1'' ''sshkey-1''), Inr (R_Workspace example_tfc)),
      (Workspaces (Workspace_Update ''world'' ''prod-hello'' (no_update\<lparr>wuo_TerraformVersion := Some ''''\<rparr>)),
       Inr (R_Workspace example_tfc)),
      (Organizations (AgentPool_List ''world'' AgentPageSize), Inr (R_AgentPools [\<lparr>ap_ID = ''apool-2'', ap_Name = ''blue''\<rparr>])),
      (Workspaces (Workspace_Update ''world'' ''prod-hello'' (pool_options ''apool-2'')), Inr (R_Workspace example_tfc))]"

lemma example_sync_run:
  "CheckWorkspace ''prod-hello'' example_keyed (script (map snd example_sync_trace)) [] example_client =
   Some (Ok example_tfc, example_client, example_sync_trace)"
  by (simp add: run_simps example_sync_simps example_keyed_def example_sync_trace_def no_update_def
      valid_WorkspaceUpdateOptions_def valid_AssignSSHKeyOptions_def Let_def)

theorem CheckWorkspace_existing_witness:
  "\<exists>key pool. map fst example_sync_trace = Workspaces (Workspace_Read (tf_Organization example_client) ''prod-hello'') #
      ssh_requests example_client example_keyed example_tfc key @
      version_requests example_client ''prod-hello'' example_keyed example_tfc @
      pool_requests example_client example_keyed example_tfc pool"
proof -
  have "snd (hd example_sync_trace) \<noteq> Inl ErrResourceNotFound" by (simp add: example_sync_trace_def)
  from CheckWorkspace_existing [OF example_sync_run this] show ?thesis by (elim conjE exE) (intro exI, assumption)
qed

definition example_pool_trace :: trace where
  "example_pool_trace =
     [(Workspaces (Workspace_Read ''world'' ''prod-hello''), Inl ErrResourceNotFound),
      (Workspaces (Workspace_Create ''world'' (with_agent_pool ''apool-1''
        (create_options ''prod-hello'' example_pooled))), Inr (R_Workspace example_tfc))]"

lemma example_pool_run:
  "CheckWorkspace ''prod-hello'' example_pooled
     (script [Inl ErrResourceNotFound, Inr (R_Workspace example_tfc)]) [] example_client =
   Some (Err (ErrorString (''error while updating Agent Pool ID settings for workspace '' @ quote '''' @
     '': invalid value for workspace'')), example_client, example_pool_trace)"
  by (simp add: run_simps example_sync_simps example_pool_trace_def with_agent_pool_def create_options_def
      valid_WorkspaceCreateOptions_def Let_def)

lemma CheckWorkspace_new_with_agent_pool_witness:
  "\<forall>ws. Err (ErrorString (''error while updating Agent Pool ID settings for workspace '' @ quote '''' @
     '': invalid value for workspace'')) \<noteq> Ok (ws :: tfc_Workspace)"
  by (rule CheckWorkspace_new_with_agent_pool [OF example_pool_run])
    (simp_all add: example_pool_trace_def example_pooled_def example_workspace_def)

lemma CheckWorkspace_creates_only_missing_witness:
  "hd example_pool_trace =
     (Workspaces (Workspace_Read (tf_Organization example_client) ''prod-hello''), Inl ErrResourceNotFound)"
  by (rule CheckWorkspace_creates_only_missing [OF example_pool_run])
    (simp add: example_pool_trace_def with_agent_pool_def create_options_def)

end
