(* ===== verification/Notifications_Sync.thy ===== *)
theory Notifications_Sync
  imports Tfe_Client
begin

text \<open>
  The notifications part of \<open>workspacehelper/tfc_org.go\<close>. A notification configuration of the
  workspace that equals no notification of the spec is deleted; after the list was read
  again, a notification of the spec whose name the workspace lacks is created. Equality is
  \<open>reflect.DeepEqual\<close> on the slices, which tells nil from empty.
\<close>

section \<open>Definitions\<close>

definition user_ids :: "NotificationConfiguration \<Rightarrow> string slice" where
  "user_ids wsNotification = foldl append_slice None (nc_EmailUsers wsNotification)"

definition compareNotifications :: "NotificationConfiguration \<Rightarrow> Notification \<Rightarrow> bool" where
  "compareNotifications wsNotification specNotification =
     (if nc_Name wsNotification \<noteq> n_Name specNotification then False
      else if nc_Token wsNotification \<noteq> n_Token specNotification \<or>
              nc_URL wsNotification \<noteq> n_URL specNotification \<or>
              nc_DestinationType wsNotification \<noteq> n_Type specNotification \<or>
              nc_Enabled wsNotification \<noteq> n_Enabled specNotification then False
      else if nc_EmailAddresses wsNotification \<noteq> n_Recipients specNotification then False
      else if nc_Triggers wsNotification \<noteq> n_Triggers specNotification then False
      else user_ids wsNotification = n_Users specNotification)"

definition notification_options :: "Notification \<Rightarrow> NotificationConfigurationCreateOptions" where
  "notification_options notification = \<lparr>nco_DestinationType = Some (n_Type notification),
     nco_Enabled = Some (n_Enabled notification), nco_Name = Some (n_Name notification),
     nco_Token = Some (n_Token notification), nco_Triggers = n_Triggers notification,
     nco_URL = Some (n_URL notification), nco_EmailAddresses = n_Recipients notification,
     nco_EmailUsers = elems (n_Users notification)\<rparr>"

definition toRemove :: "Notification list \<Rightarrow> NotificationConfiguration list \<Rightarrow> NotificationConfiguration list" where
  "toRemove spec items =
     filter (\<lambda>wsNotification. \<not> list_ex (compareNotifications wsNotification) spec) items"

definition toAdd :: "Notification list \<Rightarrow> NotificationConfiguration list \<Rightarrow> Notification list" where
  "toAdd spec items =
     filter (\<lambda>specNotification. \<not> list_ex (\<lambda>n. nc_Name n = n_Name specNotification) items) spec"

definition CheckNotifications :: "Workspace \<Rightarrow> unit go" where
  "CheckNotifications instance_ws =
     (let workspaceID = st_WorkspaceID (Status instance_ws); spec = sp_Notifications (Spec instance_ws) in
      andThen (NotificationConfigurations_List workspaceID) (\<lambda>notifications.
      if length notifications = 0 \<and> length spec = 0 then ret ()
      else
        andThen (each (\<lambda>n. NotificationConfigurations_Delete (nc_ID n)) (toRemove spec notifications)) (\<lambda>_.
        andThen (NotificationConfigurations_List workspaceID) (\<lambda>refreshed.
        each (\<lambda>n. NotificationConfigurations_Create workspaceID (notification_options n))
          (toAdd spec refreshed)))))"

section \<open>Lemmas\<close>

lemma user_ids_eq:
  "user_ids n = (if nc_EmailUsers n = [] then None else Some (nc_EmailUsers n))"
proof -
  have "foldl append_slice (Some ys) xs = Some (ys @ xs)" for ys xs :: "string list"
    by (induction xs arbitrary: ys) (simp_all add: append_slice_def)
  then show ?thesis by (cases "nc_EmailUsers n") (simp_all add: user_ids_def append_slice_def)
qed

lemma plans_eq:
  "toRemove spec items = filter (\<lambda>n. \<forall>s \<in> set spec. \<not> compareNotifications n s) items"
  "toAdd spec items = filter (\<lambda>s. n_Name s \<notin> nc_Name ` set items) spec"
  by (auto simp: toRemove_def toAdd_def list_ex_iff image_iff eq_commute intro!: filter_cong)

lemma emits_CheckNotifications [emits_rules]:
  assumes "\<And>q. is_Notifications q \<Longrightarrow> P q"
  shows "emits P (CheckNotifications instance_ws)"
  unfolding CheckNotifications_def Let_def by (intro emits_rules; rule assms) simp_all

lemma returns_CheckNotifications [returns_rules]: "returns (CheckNotifications instance_ws)"
  unfolding CheckNotifications_def Let_def by (intro returns_rules)

lemma keeps_CheckNotifications [keeps_rules]: "keeps_client (CheckNotifications instance_ws)"
  unfolding CheckNotifications_def Let_def by (intro keeps_rules)

lemma deletes_sent:
  "each (\<lambda>n. NotificationConfigurations_Delete (nc_ID n)) xs E h t = Some (Ok u, t', ev) \<Longrightarrow>
   map fst ev = map (\<lambda>n. Notifications (Notification_Delete (nc_ID n))) xs"
  by (induction xs arbitrary: h t ev)
    (auto elim!: andThen_OkE simp: NotificationConfigurations_Delete_def require_Ok perform_Ok)

lemma creates_sent:
  "each (\<lambda>n. NotificationConfigurations_Create w (notification_options n)) xs E h t = Some (Ok u, t', ev) \<Longrightarrow>
   map fst ev = map (\<lambda>n. Notifications (Notification_Create w (notification_options n))) xs"
  by (induction xs arbitrary: h t ev)
    (auto elim!: andThen_OkE simp: NotificationConfigurations_Create_def require_Ok check_options_Ok perform_Ok)

section \<open>Properties\<close>

text \<open>
  A remote notification matches one of the spec exactly when all fields agree, with the
  triggers and recipients equal as slices (a nil slice does not match an empty one) and the
  users equal where an empty remote list counts as nil: a spec with an empty, non-nil list
  of users matches nothing.
\<close>

lemma compareNotifications_iff:
  "compareNotifications w n \<longleftrightarrow>
     nc_Name w = n_Name n \<and> nc_Token w = n_Token n \<and> nc_URL w = n_URL n \<and>
     nc_DestinationType w = n_Type n \<and> nc_Enabled w = n_Enabled n \<and>
     nc_EmailAddresses w = n_Recipients n \<and> nc_Triggers w = n_Triggers n \<and>
     n_Users n \<noteq> Some [] \<and> nc_EmailUsers w = elems (n_Users n)"
  by (cases "n_Users n") (auto simp: compareNotifications_def user_ids_eq)

text \<open>
  C27. A successful \<open>CheckNotifications\<close> sends exactly: one list; unless both sides are empty, a
  delete for every remote notification that matches nothing in the spec, a second list, and
  a create for every notification of the spec whose name is not in the second list.
\<close>

theorem CheckNotifications_plan:
  assumes "CheckNotifications instance_ws E h t = Some (Ok u, t', ev)"
  shows "\<exists>items refreshed.
    let w = st_WorkspaceID (Status instance_ws); spec = sp_Notifications (Spec instance_ws) in
    hd ev = (Notifications (Notification_List w), Inr (R_Notifications items)) \<and>
    (if items = [] \<and> spec = [] then length ev = 1
     else (Notifications (Notification_List w), Inr (R_Notifications refreshed)) \<in> set (tl ev) \<and>
       map fst ev = Notifications (Notification_List w) #
        map (\<lambda>n. Notifications (Notification_Delete (nc_ID n)))
          (filter (\<lambda>n. \<forall>s \<in> set spec. \<not> compareNotifications n s) items) @
        Notifications (Notification_List w) #
        map (\<lambda>n. Notifications (Notification_Create w (notification_options n)))
          (filter (\<lambda>s. n_Name s \<notin> nc_Name ` set refreshed) spec))"
proof -
  let ?w = "st_WorkspaceID (Status instance_ws)" and ?spec = "sp_Notifications (Spec instance_ws)"
  let ?list = "Notifications (Notification_List ?w)"
  from assms obtain items rest h1 t1 where ev: "ev = (?list, Inr (R_Notifications items)) # rest"
    and rest: "(if length items = 0 \<and> length ?spec = 0 then ret ()
      else
        andThen (each (\<lambda>n. NotificationConfigurations_Delete (nc_ID n)) (toRemove ?spec items)) (\<lambda>_.
        andThen (NotificationConfigurations_List ?w) (\<lambda>refreshed.
        each (\<lambda>n. NotificationConfigurations_Create ?w (notification_options n))
          (toAdd ?spec refreshed)))) E h1 t1 = Some (Ok u, t', rest)"
    unfolding CheckNotifications_def Let_def by (auto elim!: andThen_OkE dest!: tfe_Ok split del: if_split)
  show ?thesis
  proof (cases "items = [] \<and> ?spec = []")
    case True
    with ev rest show ?thesis by (auto simp: Let_def)
  next
    case False
    with rest have "andThen (each (\<lambda>n. NotificationConfigurations_Delete (nc_ID n)) (toRemove ?spec items)) (\<lambda>_.
        andThen (NotificationConfigurations_List ?w) (\<lambda>refreshed.
        each (\<lambda>n. NotificationConfigurations_Create ?w (notification_options n))
          (toAdd ?spec refreshed))) E h1 t1 = Some (Ok u, t', rest)" by auto
    then obtain u1 t2 ev1 ev2 ev3 refreshed h2 t3 h3 where
      del: "each (\<lambda>n. NotificationConfigurations_Delete (nc_ID n)) (toRemove ?spec items) E h1 t1 = Some (Ok u1, t2, ev1)"
      and list: "NotificationConfigurations_List ?w E h2 t2 = Some (Ok refreshed, t3, ev2)"
      and cre: "each (\<lambda>n. NotificationConfigurations_Create ?w (notification_options n)) (toAdd ?spec refreshed)
        E h3 t3 = Some (Ok u, t', ev3)" and r: "rest = ev1 @ ev2 @ ev3"
      by (elim andThen_OkE) simp
    from tfe_Ok(8) [OF list] have "ev2 = [(?list, Inr (R_Notifications refreshed))]" by simp
    with deletes_sent [OF del] creates_sent [OF cre] r ev False show ?thesis
      unfolding plans_eq by (intro exI [of _ items] exI [of _ refreshed]) (auto simp: Let_def)
  qed
qed

section \<open>Examples\<close>

definition example_notification :: Notification where
  "example_notification = \<lparr>n_Type = ''slack'', n_Enabled = True, n_Name = ''ops'', n_URL = ''https://x'',
     n_Token = '''', n_Triggers = None, n_Recipients = None, n_Users = None\<rparr>"

text \<open>The same notification as the service gives it back, with an empty list of triggers.\<close>

definition example_configuration :: NotificationConfiguration where
  "example_configuration = \<lparr>nc_ID = ''nc-1'', nc_DestinationType = ''slack'', nc_Enabled = True,
     nc_Name = ''ops'', nc_Token = '''', nc_Triggers = Some [], nc_URL = ''https://x'',
     nc_EmailAddresses = None, nc_EmailUsers = []\<rparr>"

definition example_notified :: Workspace where
  "example_notified = example_workspace\<lparr>
     Spec := (Spec example_workspace)\<lparr>sp_Notifications := [example_notification]\<rparr>,
     Status := (Status example_workspace)\<lparr>st_WorkspaceID := ''ws-1''\<rparr>\<rparr>"

definition example_notification_trace :: trace where
  "example_notification_trace =
     [(Notifications (Notification_List ''ws-1''), Inr (R_Notifications [example_configuration])),
      (Notifications (Notification_Delete ''nc-1''), Inr R_None),
      (Notifications (Notification_List ''ws-1''), Inr (R_Notifications [])),
      (Notifications (Notification_Create ''ws-1'' (notification_options example_notification)), Inr R_None)]"

lemma example_notification_run:
  "CheckNotifications example_notified
     (script [Inr (R_Notifications [example_configuration]), Inr R_None, Inr (R_Notifications [])]) [] example_client =
   Some (Ok (), example_client, example_notification_trace)"
  by (simp add: run_simps CheckNotifications_def script_def validStringID_def validString_def id_char_def
      example_notified_def example_workspace_def example_notification_trace_def toRemove_def toAdd_def
      compareNotifications_def example_notification_def example_configuration_def
      valid_NotificationCreateOptions_def notification_options_def Let_def)

theorem CheckNotifications_plan_witness:
  "\<exists>items refreshed.
    let w = st_WorkspaceID (Status example_notified); spec = sp_Notifications (Spec example_notified) in
    hd example_notification_trace = (Notifications (Notification_List w), Inr (R_Notifications items)) \<and>
    (if items = [] \<and> spec = [] then length example_notification_trace = 1
     else (Notifications (Notification_List w), Inr (R_Notifications refreshed)) \<in> set (tl example_notification_trace) \<and>
       map fst example_notification_trace = Notifications (Notification_List w) #
        map (\<lambda>n. Notifications (Notification_Delete (nc_ID n)))
          (filter (\<lambda>n. list_all (\<lambda>s. \<not> compareNotifications n s) spec) items) @
        Notifications (Notification_List w) #
        map (\<lambda>n. Notifications (Notification_Create w (notification_options n)))
          (filter (\<lambda>s. n_Name s \<notin> nc_Name ` set refreshed) spec))"
  unfolding list_all_iff by (rule CheckNotifications_plan [OF example_notification_run])

end
