(* ===== verification/Outputs.thy ===== *)
theory Outputs
  imports Tfe_Client
begin

text \<open>
  \<open>workspacehelper/tfc_output.go\<close>: the outputs of the current state of a workspace as
  strings. The values are those of \<open>go-cty\<close>; a set or map keeps its elements in iteration
  order. Three decoders of other packages are parameters, the fields of \<open>codecs\<close>: the two
  passes of \<open>cty/json\<close> over a string and the reader of state files. A string that holds a
  JSON array or object is converted again after decoding, so the conversion is a partial
  function, whose result \<open>None\<close> is a recursion without end; that it ends is proved from what
  decoding JSON means.
\<close>

section \<open>Values\<close>

datatype cty_type =
    TString | TBool | TNumber | TDynamic
  | TList cty_type | TSet cty_type | TMap cty_type
  | TTuple "cty_type list" | TObject "(string \<times> cty_type) list"

text \<open>
  A number is its shortest decimal as \<open>math/big\<close> prints it: sign, digits without leading or
  trailing zeros, and the position of the decimal point from their start.
\<close>

datatype cty =
    CNull cty_type
  | CString string
  | CBool bool
  | CNumber bool string int
  | CList cty_type "cty list"
  | CSet cty_type "cty list"
  | CTuple "cty list"
  | CMap cty_type "(string \<times> cty) list"
  | CObject "(string \<times> cty) list"

fun type_of :: "cty \<Rightarrow> cty_type" where
  "type_of (CNull ty) = ty"
| "type_of (CString s) = TString"
| "type_of (CBool b) = TBool"
| "type_of (CNumber neg mant e) = TNumber"
| "type_of (CList ty vs) = TList ty"
| "type_of (CSet ty vs) = TSet ty"
| "type_of (CTuple vs) = TTuple (map type_of vs)"
| "type_of (CMap ty kvs) = TMap ty"
| "type_of (CObject kvs) = TObject (map (\<lambda>(k, v). (k, type_of v)) kvs)"

fun IsPrimitiveType :: "cty_type \<Rightarrow> bool" where
  "IsPrimitiveType TString = True"
| "IsPrimitiveType TBool = True"
| "IsPrimitiveType TNumber = True"
| "IsPrimitiveType _ = False"

record output_value =
  ov_Value :: cty
  ov_Sensitive :: bool

record codecs =
  ImpliedType :: "string \<Rightarrow> go_error + cty_type"
  Unmarshal :: "string \<Rightarrow> cty_type \<Rightarrow> go_error + cty"
  statefile_Read :: "string \<Rightarrow> go_error + (string \<times> output_value) list option"

section \<open>Conversion to strings\<close>

text \<open>\<open>bf.Text('f', -1)\<close>: \<open>fmtF\<close> of \<open>math/big\<close> with as many decimals as there are digits.\<close>

definition fmtF :: "bool \<Rightarrow> string \<Rightarrow> int \<Rightarrow> string" where
  "fmtF neg mant e =
     (let m = length mant;
          whole = (if e > 0 then take (nat e) mant @ replicate (nat e - m) (CHR ''0'') else ''0'');
          decimals = nat (int m - e);
          frac = (if decimals = 0 then ''''
                  else ''.'' @ replicate (nat (- e)) (CHR ''0'') @ drop (nat e) mant) in
      (if neg then ''-'' else '''') @ whole @ frac)"

definition is_space :: "char \<Rightarrow> bool" where
  "is_space c \<longleftrightarrow> (let n = (of_char c :: nat) in n = 32 \<or> 9 \<le> n \<and> n \<le> 13)"

definition TrimSpace :: "string \<Rightarrow> string" where
  "TrimSpace s = rev (dropWhile is_space (rev (dropWhile is_space s)))"

fun commas :: "string list \<Rightarrow> string" where
  "commas [] = ''''"
| "commas [s] = s"
| "commas (s # ss) = s @ '','' @ commas ss"

text \<open>All results, or none if one is missing.\<close>

fun all_some :: "'a option list \<Rightarrow> 'a list option" where
  "all_some [] = Some []"
| "all_some (None # xs) = None"
| "all_some (Some x # xs) = map_option ((#) x) (all_some xs)"

definition quote_if :: "bool \<Rightarrow> string \<Rightarrow> string" where
  "quote_if b s = (if b then quote s else s)"

text \<open>
  A string: what decoding with \<open>ImpliedType\<close> and \<open>Unmarshal\<close> finds in it is converted in its place.
\<close>

definition convert_string :: "codecs \<Rightarrow> (cty \<Rightarrow> string option) \<Rightarrow> string \<Rightarrow> string option" where
  "convert_string C rec s =
     (case ImpliedType C s of
        Inl _ \<Rightarrow> Some s
      | Inr ty \<Rightarrow>
          if \<not> IsPrimitiveType ty \<and> TrimSpace s \<noteq> ''null'' then
            (case Unmarshal C s ty of
               Inl _ \<Rightarrow> Some ''''
             | Inr jv \<Rightarrow> rec jv)
          else Some s)"

text \<open>The combinators of the recursion are monotone in the recursive call.\<close>

lemma convert_string_mono [partial_function_mono]:
  "(\<And>jv. mono_option (\<lambda>f. g f jv)) \<Longrightarrow> mono_option (\<lambda>f. convert_string C (\<lambda>jv. g f jv) s)"
  by (auto simp: monotone_def convert_string_def flat_ord_def split: sum.split)

lemma map_option_mono [partial_function_mono]:
  "mono_option B \<Longrightarrow> mono_option (\<lambda>f. map_option h (B f))"
  by (fastforce simp: monotone_def flat_ord_def)

lemma all_some_mono [partial_function_mono]:
  fixes g :: "'a \<Rightarrow> ('b \<Rightarrow> 'c option) \<Rightarrow> 'd option"
  assumes "\<And>x. mono_option (g x)"
  shows "mono_option (\<lambda>f. all_some (map (\<lambda>x. g x f) xs))"
proof (rule monotoneI)
  fix f f' :: "'b \<Rightarrow> 'c option"
  assume "fun_ord option_ord f f'"
  then have le: "option_ord (g x f) (g x f')" for x using assms [of x] by (simp add: monotone_def)
  show "option_ord (all_some (map (\<lambda>x. g x f) xs)) (all_some (map (\<lambda>x. g x f') xs))"
  proof (induction xs)
    case (Cons x xs)
    with le [of x] show ?case by (cases "g x f"; cases "g x f'") (auto simp: flat_ord_def)
  qed (simp add: flat_ord_def)
qed

text \<open>
  The elements of a list, set or tuple are quoted when they are strings, and so are the values of a map. In
  an object the test for a string looks at the type of the whole object, so its attributes are never quoted.
\<close>

partial_function (option) convertValueToString :: "codecs \<Rightarrow> cty \<Rightarrow> string option" where
  "convertValueToString C val =
     (case val of
        CNull ty \<Rightarrow> Some ''null''
      | CString s \<Rightarrow> convert_string C (\<lambda>jv. convertValueToString C jv) s
      | CBool b \<Rightarrow> Some (if b then ''true'' else ''false'')
      | CNumber neg mant e \<Rightarrow> Some (fmtF neg mant e)
      | CList ty vs \<Rightarrow> map_option (\<lambda>ss. ''['' @ commas ss @ '']'')
          (all_some (map (\<lambda>v. map_option (quote_if (type_of v = TString)) (convertValueToString C v)) vs))
      | CSet ty vs \<Rightarrow> map_option (\<lambda>ss. ''['' @ commas ss @ '']'')
          (all_some (map (\<lambda>v. map_option (quote_if (type_of v = TString)) (convertValueToString C v)) vs))
      | CTuple vs \<Rightarrow> map_option (\<lambda>ss. ''['' @ commas ss @ '']'')
          (all_some (map (\<lambda>v. map_option (quote_if (type_of v = TString)) (convertValueToString C v)) vs))
      | CMap ty kvs \<Rightarrow> map_option (\<lambda>ss. ''{'' @ commas ss @ ''}'')
          (all_some (map (\<lambda>(k, v). Option.bind (convertValueToString C (CString k)) (\<lambda>ks.
             map_option (\<lambda>vs. quote ks @ '':'' @ quote_if (type_of v = TString) vs) (convertValueToString C v)))
           (sort_key fst kvs)))
      | CObject kvs \<Rightarrow> map_option (\<lambda>ss. ''{'' @ commas ss @ ''}'')
          (all_some (map (\<lambda>(k, v). map_option (\<lambda>vs. quote k @ '':'' @ quote_if (type_of val = TString) vs)
             (convertValueToString C v)) (sort_key fst kvs))))"

section \<open>The operations\<close>

text \<open>A conversion that does not end is a computation that does not return.\<close>

definition or_diverge :: "'a option \<Rightarrow> 'a go" where
  "or_diverge x = (case x of None \<Rightarrow> (\<lambda>E h t. None) | Some a \<Rightarrow> ret a)"

definition output_status :: "codecs \<Rightarrow> string \<times> output_value \<Rightarrow> OutputStatus list option" where
  "output_status C kv = (case kv of (key, value) \<Rightarrow>
     if ov_Sensitive value then Some []
     else map_option (\<lambda>statusValue. if statusValue \<noteq> ''''
        then [\<lparr>out_Key = key, out_Value = statusValue\<rparr>] else [])
      (convertValueToString C (ov_Value value)))"

definition GetStateVersionDownloadURL :: "string \<Rightarrow> string go" where
  "GetStateVersionDownloadURL workspaceID =
     andThen (attempt (StateVersions_Current workspaceID)) (\<lambda>res. case res of
       Inl err \<Rightarrow> fail (ErrorString (''could not get current state version, WorkspaceID, '' @ workspaceID
         @ '', Error, '' @ error_text err))
     | Inr url \<Rightarrow> ret url)"

definition GetOutputsFromState :: "codecs \<Rightarrow> string \<Rightarrow> OutputStatus list go" where
  "GetOutputsFromState C stateDownloadURL =
     (if stateDownloadURL = '''' then fail (ErrorString ''could not download blank state'')
      else
        andThen (attempt (StateVersions_Download stateDownloadURL)) (\<lambda>res. case res of
          Inl err \<Rightarrow> fail (ErrorString (''could not download state, Error, '' @ error_text err))
        | Inr data \<Rightarrow>
            (case statefile_Read C data of
               Inl err \<Rightarrow> fail (ErrorString (''could not read state file, Error, '' @ error_text err))
             | Inr None \<Rightarrow> panic ''nil pointer dereference''
             | Inr (Some outputValues) \<Rightarrow>
                 or_diverge (map_option concat (all_some (map (output_status C) outputValues))))))"

definition CheckOutputs :: "codecs \<Rightarrow> string \<Rightarrow> string \<Rightarrow> OutputStatus list go" where
  "CheckOutputs C workspaceID runID =
     (if runID = '''' then ret []
      else
        andThen (GetStateVersionDownloadURL workspaceID) (\<lambda>stateDownloadURL.
        andThen (GetOutputsFromState C stateDownloadURL) (\<lambda>outputs.
        ret (sort_key out_Key outputs))))"

lemmas output_defs [run_simps] = GetStateVersionDownloadURL_def GetOutputsFromState_def CheckOutputs_def

section \<open>The conversion ends\<close>

text \<open>What bounds the decoding: the characters that start a composite or an escape.\<close>

definition brackets :: "string \<Rightarrow> nat" where
  "brackets s = length (filter (\<lambda>c. c = CHR ''['' \<or> c = CHR ''{'' \<or> c = CHR 0x5C) s)"

fun weight :: "cty \<Rightarrow> nat" where
  "weight (CString s) = brackets s"
| "weight (CList ty vs) = sum_list (map weight vs)"
| "weight (CSet ty vs) = sum_list (map weight vs)"
| "weight (CTuple vs) = sum_list (map weight vs)"
| "weight (CMap ty kvs) = sum_list (map (\<lambda>(k, v). brackets k + weight v) kvs)"
| "weight (CObject kvs) = sum_list (map (\<lambda>(k, v). weight v) kvs)"
| "weight _ = 0"

text \<open>
  What decoding JSON means. A text whose type is not primitive is either null, which the decoder recognises
  by its first token whatever closing bracket follows, or an array or object: after white space comes the bracket
  that opens it, and all strings of the value are string literals of the rest, in which a bracket or
  backslash stands for itself or, escaped, costs a backslash. (The normalisation of Unicode in \<open>cty\<close> makes
  none of these characters.)
\<close>

definition json_space :: "char \<Rightarrow> bool" where
  "json_space c \<longleftrightarrow> c \<in> {CHR 0x20, CHR 0x09, CHR 0x0A, CHR 0x0D}"

definition decodes_json :: "codecs \<Rightarrow> bool" where
  "decodes_json C \<longleftrightarrow> (\<forall>s ty v. ImpliedType C s = Inr ty \<longrightarrow> \<not> IsPrimitiveType ty \<longrightarrow> Unmarshal C s ty = Inr v \<longrightarrow>
     v = CNull ty \<or>
     (\<exists>opening rest. dropWhile json_space s = opening # rest \<and> opening \<in> {CHR ''['', CHR ''{''} \<and>
        weight v \<le> brackets rest))"

lemma brackets_append: "brackets (xs @ ys) = brackets xs + brackets ys"
  by (simp add: brackets_def)

lemma decoding_shrinks:
  assumes "decodes_json C" "ImpliedType C s = Inr ty" "\<not> IsPrimitiveType ty" "Unmarshal C s ty = Inr v"
  shows "v = CNull ty \<or> weight v < brackets s"
proof -
  have "brackets s = brackets (takeWhile json_space s) + brackets (dropWhile json_space s)"
    by (simp flip: brackets_append)
  moreover from assms have "v = CNull ty \<or> (\<exists>opening rest. dropWhile json_space s = opening # rest \<and>
      opening \<in> {CHR ''['', CHR ''{''} \<and> weight v \<le> brackets rest)" by (simp add: decodes_json_def)
  ultimately show ?thesis by (auto simp: brackets_def)
qed

lemma all_some_iff: "all_some xs = Some ys \<longleftrightarrow> xs = map Some ys"
  by (induction xs arbitrary: ys rule: all_some.induct) (auto simp: Cons_eq_map_conv)

lemma all_some_total: "(\<And>x. x \<in> set xs \<Longrightarrow> x \<noteq> None) \<Longrightarrow> \<exists>ys. all_some xs = Some ys"
  by (induction xs rule: all_some.induct) auto

lemma all_some_map_total: "(\<And>x. x \<in> set xs \<Longrightarrow> f x \<noteq> None) \<Longrightarrow> map_option g (all_some (map f xs)) \<noteq> None"
  using all_some_total [of "map f xs"] by fastforce

lemma all_some_map_mono:
  assumes "all_some (map f xs) = Some ys" and "\<And>x y. x \<in> set xs \<Longrightarrow> f x = Some y \<Longrightarrow> g x = Some y"
  shows "all_some (map g xs) = Some ys"
proof -
  from assms(1) have eq: "map f xs = map Some ys" by (simp add: all_some_iff)
  have "g x = f x" if x: "x \<in> set xs" for x
  proof -
    from eq x have "f x \<in> Some ` set ys" by (metis imageI list.set_map)
    then obtain y where "f x = Some y" by auto
    with assms(2) [OF x] show ?thesis by simp
  qed
  then have "map g xs = map f xs" by simp
  with eq show ?thesis by (simp add: all_some_iff)
qed

lemma map_option_all_some_mono:
  assumes "map_option h (all_some (map f xs)) = Some y" and "\<And>x y. x \<in> set xs \<Longrightarrow> f x = Some y \<Longrightarrow> g x = Some y"
  shows "map_option h (all_some (map g xs)) = Some y"
  using assms by (auto dest: all_some_map_mono [of f xs _ g])

lemma weight_le: "v \<in> set vs \<Longrightarrow> weight v \<le> sum_list (map weight vs)"
  by (induction vs) auto

lemma weight_le_pairs:
  "(k, v) \<in> set kvs \<Longrightarrow> brackets k + weight v \<le> sum_list (map (\<lambda>(k, v). brackets k + weight v) kvs)"
  "(k, v) \<in> set kvs \<Longrightarrow> weight v \<le> sum_list (map (\<lambda>(k, v). weight v) kvs)"
  by (induction kvs) auto

lemma size_in_list: "v \<in> set vs \<Longrightarrow> size v < Suc (size_list size vs)"
  by (induction vs) auto

lemma size_in_pairs: "(k, v) \<in> set kvs \<Longrightarrow> size v < Suc (size_list (size_prod f size) kvs)"
  by (induction kvs) auto

text \<open>One equation for each kind of value.\<close>

lemma conversion_simps [simp]:
  "convertValueToString C (CNull ty) = Some ''null''"
  "convertValueToString C (CString s) = convert_string C (convertValueToString C) s"
  "convertValueToString C (CBool b) = Some (if b then ''true'' else ''false'')"
  "convertValueToString C (CNumber neg mant e) = Some (fmtF neg mant e)"
  by (subst convertValueToString.simps; simp)+

lemma conversion_of_elements:
  "convertValueToString C (CList ty vs) = map_option (\<lambda>ss. ''['' @ commas ss @ '']'')
     (all_some (map (\<lambda>v. map_option (quote_if (type_of v = TString)) (convertValueToString C v)) vs))"
  "convertValueToString C (CSet ty vs) = map_option (\<lambda>ss. ''['' @ commas ss @ '']'')
     (all_some (map (\<lambda>v. map_option (quote_if (type_of v = TString)) (convertValueToString C v)) vs))"
  "convertValueToString C (CTuple vs) = map_option (\<lambda>ss. ''['' @ commas ss @ '']'')
     (all_some (map (\<lambda>v. map_option (quote_if (type_of v = TString)) (convertValueToString C v)) vs))"
  "convertValueToString C (CMap ty kvs) = map_option (\<lambda>ss. ''{'' @ commas ss @ ''}'')
     (all_some (map (\<lambda>(k, v). Option.bind (convertValueToString C (CString k)) (\<lambda>ks.
        map_option (\<lambda>vs. quote ks @ '':'' @ quote_if (type_of v = TString) vs) (convertValueToString C v)))
      (sort_key fst kvs)))"
  "convertValueToString C (CObject kvs) = map_option (\<lambda>ss. ''{'' @ commas ss @ ''}'')
     (all_some (map (\<lambda>(k, v). map_option (\<lambda>vs. quote k @ '':'' @ vs) (convertValueToString C v)) (sort_key fst kvs)))"
  by (subst convertValueToString.simps; simp add: quote_if_def del: conversion_simps)+

declare convertValueToString.simps [code del]
declare conversion_simps [code] conversion_of_elements [code]

text \<open>A value is converted if everything that weighs less is, and everything in it.\<close>

lemma string_total:
  assumes "decodes_json C" "\<And>jv. weight jv < brackets s \<Longrightarrow> convertValueToString C jv \<noteq> None"
  shows "convertValueToString C (CString s) \<noteq> None"
proof (cases "ImpliedType C s")
  case (Inr ty)
  show ?thesis
  proof (cases "\<not> IsPrimitiveType ty \<and> TrimSpace s \<noteq> ''null''")
    case True
    then show ?thesis using decoding_shrinks [OF assms(1) Inr] Inr assms(2)
      by (cases "Unmarshal C s ty") (auto simp: convert_string_def)
  qed (use Inr in \<open>auto simp: convert_string_def\<close>)
qed (simp add: convert_string_def)

lemma conversion_total:
  assumes "decodes_json C"
  shows "convertValueToString C v \<noteq> None"
proof (induction v rule: wf_induct [OF wf_measures [of "[weight, size]"]])
  case (1 v)
  then have less: "\<And>w. weight w < weight v \<Longrightarrow> convertValueToString C w \<noteq> None"
    and part: "\<And>w. weight w \<le> weight v \<Longrightarrow> size w < size v \<Longrightarrow> convertValueToString C w \<noteq> None"
    by (auto simp: le_less)
  show ?case
  proof (cases v)
    case (CString s)
    then show ?thesis using string_total [OF assms] less by simp
  next
    case (CMap ty kvs)
    have item: "convertValueToString C (CString k) \<noteq> None \<and> convertValueToString C w \<noteq> None" if kv: "(k, w) \<in> set kvs" for k w
      using weight_le_pairs(1) [OF kv] size_in_pairs [OF kv] CMap
      by (intro conjI string_total [OF assms] less part) auto
    show ?thesis unfolding CMap conversion_of_elements
      by (rule all_some_map_total) (use item in \<open>fastforce simp del: conversion_simps\<close>)
  next
    case (CObject kvs)
    have item: "convertValueToString C w \<noteq> None" if kv: "(k, w) \<in> set kvs" for k w
      using weight_le_pairs(2) [OF kv] size_in_pairs [OF kv] CObject by (intro part) auto
    show ?thesis unfolding CObject conversion_of_elements
      by (rule all_some_map_total) (use item in \<open>fastforce simp del: conversion_simps\<close>)
  next
    case (CList ty vs)
    then have item: "convertValueToString C w \<noteq> None" if "w \<in> set vs" for w
      using weight_le [OF that] size_in_list [OF that] by (intro part) auto
    show ?thesis unfolding CList conversion_of_elements
      by (rule all_some_map_total) (use item in fastforce)
  next
    case (CSet ty vs)
    then have item: "convertValueToString C w \<noteq> None" if "w \<in> set vs" for w
      using weight_le [OF that] size_in_list [OF that] by (intro part) auto
    show ?thesis unfolding CSet conversion_of_elements
      by (rule all_some_map_total) (use item in fastforce)
  next
    case (CTuple vs)
    then have item: "convertValueToString C w \<noteq> None" if "w \<in> set vs" for w
      using weight_le [OF that] size_in_list [OF that] by (intro part) auto
    show ?thesis unfolding CTuple conversion_of_elements
      by (rule all_some_map_total) (use item in fastforce)
  qed simp_all
qed

section \<open>The outputs\<close>

lemma emits_or_diverge [emits_rules]: "emits P (or_diverge x)"
  by (auto simp: or_diverge_def emits_def split: option.split)

lemma keeps_or_diverge [keeps_rules]: "keeps_client (or_diverge x)"
  by (auto simp: or_diverge_def keeps_client_def split: option.split)

lemma emits_CheckOutputs [emits_rules]:
  assumes "\<And>q. is_StateVersions q \<Longrightarrow> P q"
  shows "emits P (CheckOutputs C w r)"
  unfolding output_defs by (intro emits_rules; rule assms) simp_all

lemma keeps_CheckOutputs [keeps_rules]: "keeps_client (CheckOutputs C w r)"
  unfolding output_defs by (intro keeps_rules)

definition visible :: "codecs \<Rightarrow> (string \<times> output_value) list \<Rightarrow> OutputStatus set" where
  "visible C kvs = {\<lparr>out_Key = k, out_Value = s\<rparr> | k v s.
     (k, v) \<in> set kvs \<and> \<not> ov_Sensitive v \<and> convertValueToString C (ov_Value v) = Some s \<and> s \<noteq> ''''}"

lemma visible_keys: "x \<in> visible C kvs \<Longrightarrow> out_Key x \<in> fst ` set kvs"
  by (force simp: visible_def)

lemma all_some_statuses:
  assumes "all_some (map (output_status C) kvs) = Some oss"
  shows "set (concat oss) = visible C kvs"
    and "distinct (map fst kvs) \<Longrightarrow> distinct (map out_Key (concat oss))"
proof -
  have "set (concat oss) = visible C kvs \<and>
    (distinct (map fst kvs) \<longrightarrow> distinct (map out_Key (concat oss)))"
    using assms
  proof (induction kvs arbitrary: oss)
    case Nil
    then show ?case by (simp add: visible_def)
  next
    case (Cons kv kvs)
    obtain k v where kv: "kv = (k, v)" by (cases kv)
    from Cons.prems obtain os oss' where os: "output_status C (k, v) = Some os" "oss = os # oss'"
      and rest: "all_some (map (output_status C) kvs) = Some oss'"
      by (cases "output_status C (k, v)") (auto simp: kv)
    have split: "visible C ((k, v) # kvs) = set os \<union> visible C kvs"
      using os(1) by (auto simp: visible_def output_status_def split: if_splits)
    have "os = [] \<or> (\<exists>s. os = [\<lparr>out_Key = k, out_Value = s\<rparr>])"
      using os(1) by (auto simp: output_status_def split: if_splits)
    with Cons.IH [OF rest] split kv os(2) show ?case by (auto dest: visible_keys)
  qed
  then show "set (concat oss) = visible C kvs"
    "distinct (map fst kvs) \<Longrightarrow> distinct (map out_Key (concat oss))" by auto
qed

lemma CheckOutputs_OkD:
  assumes "CheckOutputs C w r E h t = Some (Ok outs, t', ev)" "r \<noteq> ''''"
  shows "\<exists>url data kvs.
    ev = [(StateVersions (StateVersion_Current w), Inr (R_StateVersion url)),
          (StateVersions (StateVersion_Download url), Inr (R_Bytes data))] \<and>
    statefile_Read C data = Inr (Some kvs) \<and> set outs = visible C kvs \<and>
    sorted (map out_Key outs) \<and> (distinct (map fst kvs) \<longrightarrow> distinct (map out_Key outs))"
proof -
  from assms obtain url data kvs oss where
    ev: "ev = [(StateVersions (StateVersion_Current w), Inr (R_StateVersion url)),
          (StateVersions (StateVersion_Download url), Inr (R_Bytes data))]"
    and read: "statefile_Read C data = Inr (Some kvs)"
    and oss: "all_some (map (output_status C) kvs) = Some oss"
    and outs: "outs = sort_key out_Key (concat oss)"
    by (auto simp: CheckOutputs_def GetStateVersionDownloadURL_def GetOutputsFromState_def
        StateVersions_Current_def StateVersions_Download_def attempt_Some require_Ok call_Ok or_diverge_def
        elim!: andThen_OkE as_stateversion.elims as_bytes.elims
        split: sum.splits if_splits option.splits)
  have "distinct (map out_Key outs) \<longleftrightarrow> distinct (map out_Key (concat oss))"
    unfolding outs by (simp add: distinct_map)
  with all_some_statuses [OF oss] ev read show ?thesis
    by (intro exI [of _ url] exI [of _ data] exI [of _ kvs]) (simp add: outs)
qed

text \<open>The conversion does not depend on the reader of state files.\<close>

lemma convert_other_reader:
  assumes "convertValueToString C v = Some s"
  shows "convertValueToString (C\<lparr>statefile_Read := rd\<rparr>) v = Some s"
proof (rule convertValueToString.raw_induct
    [where P = "\<lambda>C v s. convertValueToString (C\<lparr>statefile_Read := rd\<rparr>) v = Some s", OF _ assms])
  fix conv :: "codecs \<Rightarrow> cty \<Rightarrow> string option" and C :: codecs and v s
  let ?C = "C\<lparr>statefile_Read := rd\<rparr>"
  assume IH: "\<And>(C :: codecs) v s. conv C v = Some s \<Longrightarrow> convertValueToString (C\<lparr>statefile_Read := rd\<rparr>) v = Some s"
  assume *: "(case v of CNull ty \<Rightarrow> Some ''null'' | CString s \<Rightarrow> convert_string C (\<lambda>jv. conv C jv) s
    | CBool b \<Rightarrow> Some (if b then ''true'' else ''false'') | CNumber neg mant e \<Rightarrow> Some (fmtF neg mant e)
    | CList ty vs \<Rightarrow> map_option (\<lambda>ss. ''['' @ commas ss @ '']'')
        (all_some (map (\<lambda>v. map_option (quote_if (type_of v = TString)) (conv C v)) vs))
    | CSet ty vs \<Rightarrow> map_option (\<lambda>ss. ''['' @ commas ss @ '']'')
        (all_some (map (\<lambda>v. map_option (quote_if (type_of v = TString)) (conv C v)) vs))
    | CTuple vs \<Rightarrow> map_option (\<lambda>ss. ''['' @ commas ss @ '']'')
        (all_some (map (\<lambda>v. map_option (quote_if (type_of v = TString)) (conv C v)) vs))
    | CMap ty kvs \<Rightarrow> map_option (\<lambda>ss. ''{'' @ commas ss @ ''}'')
        (all_some (map (\<lambda>(k, v). Option.bind (conv C (CString k)) (\<lambda>ks.
           map_option (\<lambda>vs. quote ks @ '':'' @ quote_if (type_of v = TString) vs) (conv C v))) (sort_key fst kvs)))
    | CObject kvs \<Rightarrow> map_option (\<lambda>ss. ''{'' @ commas ss @ ''}'')
        (all_some (map (\<lambda>(k, w). map_option (\<lambda>vs. quote k @ '':'' @ quote_if (type_of v = TString) vs)
           (conv C w)) (sort_key fst kvs)))) = Some s"
  note list = map_option_all_some_mono [where g = "\<lambda>v. map_option (quote_if (type_of v = TString)) (convertValueToString ?C v)"]
  show "convertValueToString ?C v = Some s"
  proof (cases v)
    case (CString k)
    with * show ?thesis by (auto simp: convert_string_def dest!: IH split: sum.splits if_splits)
  next
    case (CList ty vs)
    show ?thesis unfolding CList conversion_of_elements
      by (rule list [OF * [unfolded CList cty.case]]) (auto dest!: IH)
  next
    case (CSet ty vs)
    show ?thesis unfolding CSet conversion_of_elements
      by (rule list [OF * [unfolded CSet cty.case]]) (auto dest!: IH)
  next
    case (CTuple vs)
    show ?thesis unfolding CTuple conversion_of_elements
      by (rule list [OF * [unfolded CTuple cty.case]]) (auto dest!: IH)
  next
    case (CMap ty kvs)
    show ?thesis unfolding CMap conversion_of_elements
      by (rule map_option_all_some_mono [OF * [unfolded CMap cty.case]]) (auto simp: Option.bind_eq_Some_conv simp del: conversion_simps dest!: IH)
  next
    case (CObject kvs)
    show ?thesis unfolding CObject conversion_of_elements
      by (rule map_option_all_some_mono [OF * [unfolded CObject cty.case]]) (auto simp: quote_if_def dest!: IH)
  qed (use * in simp_all)
qed

lemma convert_reader: "convertValueToString (C\<lparr>statefile_Read := rd\<rparr>) v = convertValueToString C v"
proof (cases "convertValueToString C v")
  case None
  then show ?thesis using convert_other_reader [of "C\<lparr>statefile_Read := rd\<rparr>" v _ "statefile_Read C"]
    by (cases "convertValueToString (C\<lparr>statefile_Read := rd\<rparr>) v") auto
qed (simp add: convert_other_reader)

section \<open>Properties\<close>

text \<open>
  C33. The conversion of a value always ends, if \<open>ImpliedType\<close> and \<open>Unmarshal\<close> decode JSON: a text of a
  composite type is null, or it opens a bracket and the strings in it are spelled out in the rest of
  the text. A string nested in strings is then decoded at most as often as the outermost one
  holds brackets and backslashes.
\<close>

theorem conversion_ends:
  assumes "decodes_json C"
  shows "\<exists>s. convertValueToString C v = Some s"
  using conversion_total [OF assms] by auto

text \<open>
  Strings are quoted as elements of a list and as values of a map, but not as attributes
  of an object, where the code tests the type of the whole value: the output of an object
  with a string attribute is not JSON.
\<close>

lemma object_attributes_unquoted:
  assumes "ImpliedType C k = Inl e1" "ImpliedType C s = Inl e2"
  shows "convertValueToString C (CList TString [CString s]) = Some (''['' @ quote s @ '']'') \<and>
    convertValueToString C (CMap TString [(k, CString s)]) = Some (''{'' @ quote k @ '':'' @ quote s @ ''}'') \<and>
    convertValueToString C (CObject [(k, CString s)]) = Some (''{'' @ quote k @ '':'' @ s @ ''}'')"
  using assms
  by (simp add: conversion_of_elements convert_string_def quote_if_def)

text \<open>
  C34. For a finished run \<open>CheckOutputs\<close> asks for the current state of the workspace and its
  contents, and if both are answered and the state can be read it succeeds, with these two requests
  only. Its result is sorted by key, each key once, and has exactly the outputs that are not
  sensitive and do not convert to the empty string. (An output whose value is the empty string is thus
  still omitted, although the change log of version 1.1.2 lists the omission of empty outputs as
  fixed; a null output is reported as the string null.)
\<close>

theorem CheckOutputs_result:
  fixes h :: trace and w url data :: string
  defines "current \<equiv> (StateVersions (StateVersion_Current w), Inr (R_StateVersion url)) :: event"
    and "download \<equiv> (StateVersions (StateVersion_Download url), Inr (R_Bytes data)) :: event"
  assumes "decodes_json C" "r \<noteq> ''''" "validStringID (Some w)"
    and "E h (fst current) = snd current" "url \<noteq> ''''" "E (h @ [current]) (fst download) = snd download"
    and "statefile_Read C data = Inr (Some kvs)" "distinct (map fst kvs)"
  shows "\<exists>outs. CheckOutputs C w r E h t = Some (Ok outs, t, [current, download]) \<and>
    set outs = {\<lparr>out_Key = k, out_Value = s\<rparr> | k v s. (k, v) \<in> set kvs \<and> \<not> ov_Sensitive v \<and>
      convertValueToString C (ov_Value v) = Some s \<and> s \<noteq> ''''} \<and>
    sorted (map out_Key outs) \<and> distinct (map out_Key outs)"
proof -
  from assms have statuses: "\<exists>oss. all_some (map (output_status C) kvs) = Some oss"
    by (intro all_some_total) (use conversion_total [OF assms(3)] in \<open>auto simp: output_status_def\<close>)
  then obtain oss where oss: "all_some (map (output_status C) kvs) = Some oss" by blast
  with assms have "CheckOutputs C w r E h t = Some (Ok (sort_key out_Key (concat oss)), t, [current, download])"
    by (simp add: run_simps or_diverge_def)
  with all_some_statuses [OF oss] assms(10) show ?thesis
    by (intro exI [of _ "sort_key out_Key (concat oss)"]) (simp add: visible_def distinct_map)
qed

text \<open>
  The order in which the state's outputs are iterated, which Go leaves open, does not
  matter: two iteration orders of the same outputs give the same list.
\<close>

lemma CheckOutputs_order_independent:
  assumes "CheckOutputs C w r E h t = Some (Ok outs, t1, ev)"
    and "CheckOutputs (C\<lparr>statefile_Read := rd\<rparr>) w r E h t = Some (Ok outs', t2, ev')"
    and "\<And>data kvs. statefile_Read C data = Inr (Some kvs) \<Longrightarrow>
      \<exists>kvs'. rd data = Inr (Some kvs') \<and> set kvs' = set kvs \<and> distinct (map fst kvs) \<and> distinct (map fst kvs')"
  shows "outs = outs'"
proof (cases "r = ''''")
  case True
  with assms(1,2) show ?thesis by (simp add: CheckOutputs_def)
next
  case False
  let ?C = "C\<lparr>statefile_Read := rd\<rparr>"
  from CheckOutputs_OkD [OF assms(1) False] obtain url data kvs where
    ev: "ev = [(StateVersions (StateVersion_Current w), Inr (R_StateVersion url)),
          (StateVersions (StateVersion_Download url), Inr (R_Bytes data))]"
    and kvs: "statefile_Read C data = Inr (Some kvs)" "set outs = visible C kvs"
      "sorted (map out_Key outs)" "distinct (map fst kvs) \<Longrightarrow> distinct (map out_Key outs)" by blast
  from CheckOutputs_OkD [OF assms(2) False] obtain url' data' kvs' where
    ev': "ev' = [(StateVersions (StateVersion_Current w), Inr (R_StateVersion url')),
          (StateVersions (StateVersion_Download url'), Inr (R_Bytes data'))]"
    and kvs': "rd data' = Inr (Some kvs')" "set outs' = visible ?C kvs'"
      "sorted (map out_Key outs')" "distinct (map fst kvs') \<Longrightarrow> distinct (map out_Key outs')" by auto
  have "E h (StateVersions (StateVersion_Current w)) = Inr (R_StateVersion url) \<and>
      E (h @ [(StateVersions (StateVersion_Current w), Inr (R_StateVersion url))])
        (StateVersions (StateVersion_Download url)) = Inr (R_Bytes data)"
    if "CheckOutputs D w r E h t = Some (Ok os, t3, [(StateVersions (StateVersion_Current w), Inr (R_StateVersion url)),
          (StateVersions (StateVersion_Download url), Inr (R_Bytes data))])" for D os t3 url data
    using that False
    by (auto simp: CheckOutputs_def GetStateVersionDownloadURL_def GetOutputsFromState_def
        StateVersions_Current_def StateVersions_Download_def attempt_Some require_Ok call_Ok
        call_Some or_diverge_def elim!: andThen_OkE split: sum.splits if_splits option.splits)
  from this [OF assms(1) [unfolded ev]] this [OF assms(2) [unfolded ev']] have "data' = data" by auto
  with assms(3) [OF kvs(1)] kvs'(1) have same: "set kvs' = set kvs" "distinct (map fst kvs)" "distinct (map fst kvs')"
    by auto
  have "visible ?C kvs' = visible C kvs" using same(1) by (simp add: visible_def convert_reader)
  with kvs kvs' same show ?thesis
    by (intro map_sorted_distinct_set_unique [of out_Key]) (auto simp: distinct_map)
qed

section \<open>Examples\<close>

text \<open>
  Decoders that know the strings of the first tests of \<open>tfc_output_test.go\<close> and one state with
  a sensitive, an empty and two visible outputs.
\<close>

definition example_outputs :: "(string \<times> output_value) list" where
  "example_outputs =
     [(''url'', \<lparr>ov_Value = CString ''x'', ov_Sensitive = False\<rparr>),
      (''password'', \<lparr>ov_Value = CString ''secret'', ov_Sensitive = True\<rparr>),
      (''none'', \<lparr>ov_Value = CString '''', ov_Sensitive = False\<rparr>),
      (''ports'', \<lparr>ov_Value = CString ''[1, 2, 3]'', ov_Sensitive = False\<rparr>)]"

definition example_codecs :: codecs where
  "example_codecs = \<lparr>
     ImpliedType = (\<lambda>s. if s = ''[1, 2, 3]'' then Inr (TTuple [TNumber, TNumber, TNumber])
       else if s = ''[]'' then Inr (TTuple []) else if s = ''null]'' then Inr TDynamic else Inl (ErrorString ''invalid character'')),
     Unmarshal = (\<lambda>s ty. if s = ''[1, 2, 3]''
       then Inr (CTuple [CNumber False ''1'' 1, CNumber False ''2'' 1, CNumber False ''3'' 1])
       else if s = ''[]'' then Inr (CTuple []) else if s = ''null]'' then Inr (CNull ty) else Inl (ErrorString ''invalid character'')),
     statefile_Read = (\<lambda>data. Inr (Some example_outputs))\<rparr>"

lemma output_test_vectors:
  "convertValueToString example_codecs (CNumber False ''12321'' 5) = Some ''12321''"
  "convertValueToString example_codecs (CNumber True ''125'' 0) = Some ''-0.125''"
  "convertValueToString example_codecs (CNumber False ''12'' 4) = Some ''1200''"
  "convertValueToString example_codecs (CBool True) = Some ''true''"
  "convertValueToString example_codecs (CList TString [CString ''hello'', CString ''world'']) =
     Some (''['' @ quote ''hello'' @ '','' @ quote ''world'' @ '']'')"
  "convertValueToString example_codecs (CMap TString [(''hello'', CString ''world''), (''goodbye'', CString ''night'')]) =
     Some (''{'' @ quote ''goodbye'' @ '':'' @ quote ''night'' @ '','' @ quote ''hello'' @ '':'' @ quote ''world'' @ ''}'')"
  "convertValueToString example_codecs (CObject [(''goodbye'', CBool True), (''hello'', CMap TString [(''user'', CString ''me'')])]) =
     Some (''{'' @ quote ''goodbye'' @ '':true,'' @ quote ''hello'' @ '':{'' @ quote ''user'' @ '':'' @ quote ''me'' @ ''}}'')"
  "convertValueToString example_codecs (CNull (TMap TString)) = Some ''null''"
  "convertValueToString example_codecs (CString ''[]'') = Some ''[]''"
  "convertValueToString example_codecs (CString ''[1, 2, 3]'') = Some ''[1,2,3]''"
  "convertValueToString example_codecs (CString ''null]'') = Some ''null''"
  by code_simp+

lemma example_decodes_json: "decodes_json example_codecs"
  by (auto simp: decodes_json_def example_codecs_def json_space_def brackets_def split: if_splits)

theorem conversion_ends_witness:
  "\<exists>s. convertValueToString example_codecs (CMap TString [(''a'', CString ''[1, 2, 3]''), (''b'', CString ''null]'')]) = Some s"
  by (rule conversion_ends [OF example_decodes_json])

lemma object_attributes_unquoted_witness:
  "convertValueToString example_codecs (CObject [(''user'', CString ''me'')]) =
     Some (''{'' @ quote ''user'' @ '':'' @ ''me'' @ ''}'')"
  using object_attributes_unquoted [of example_codecs "''user''" "ErrorString ''invalid character''"
      "''me''" "ErrorString ''invalid character''"]
  by (simp add: example_codecs_def)

definition example_output_trace :: trace where
  "example_output_trace =
     [(StateVersions (StateVersion_Current ''ws-1''), Inr (R_StateVersion ''https://state'')),
      (StateVersions (StateVersion_Download ''https://state''), Inr (R_Bytes ''{}''))]"

definition example_statuses :: "OutputStatus list" where
  "example_statuses = [\<lparr>out_Key = ''ports'', out_Value = ''[1,2,3]''\<rparr>, \<lparr>out_Key = ''url'', out_Value = ''x''\<rparr>]"

lemma example_output_statuses:
  "all_some (map (output_status example_codecs) example_outputs) =
     Some [[\<lparr>out_Key = ''url'', out_Value = ''x''\<rparr>], [], [], [\<lparr>out_Key = ''ports'', out_Value = ''[1,2,3]''\<rparr>]]"
  "all_some (map (output_status (example_codecs\<lparr>statefile_Read := rd\<rparr>)) (rev example_outputs)) =
     Some [[\<lparr>out_Key = ''ports'', out_Value = ''[1,2,3]''\<rparr>], [], [], [\<lparr>out_Key = ''url'', out_Value = ''x''\<rparr>]]"
proof -
  have conv: "convertValueToString example_codecs (CString ''[1, 2, 3]'') = Some ''[1,2,3]''"
    "convertValueToString example_codecs (CString ''x'') = Some ''x''"
    "convertValueToString example_codecs (CString '''') = Some ''''" by code_simp+
  then have conv': "convertValueToString (example_codecs\<lparr>statefile_Read := rd\<rparr>) (CString ''[1, 2, 3]'') = Some ''[1,2,3]''"
    "convertValueToString (example_codecs\<lparr>statefile_Read := rd\<rparr>) (CString ''x'') = Some ''x''"
    "convertValueToString (example_codecs\<lparr>statefile_Read := rd\<rparr>) (CString '''') = Some ''''"
    unfolding convert_reader by simp_all
  show "all_some (map (output_status example_codecs) example_outputs) =
     Some [[\<lparr>out_Key = ''url'', out_Value = ''x''\<rparr>], [], [], [\<lparr>out_Key = ''ports'', out_Value = ''[1,2,3]''\<rparr>]]"
    using conv by (simp add: example_outputs_def output_status_def)
  show "all_some (map (output_status (example_codecs\<lparr>statefile_Read := rd\<rparr>)) (rev example_outputs)) =
     Some [[\<lparr>out_Key = ''ports'', out_Value = ''[1,2,3]''\<rparr>], [], [], [\<lparr>out_Key = ''url'', out_Value = ''x''\<rparr>]]"
    using conv' by (simp add: example_outputs_def output_status_def)
qed

lemma example_output_run:
  "CheckOutputs example_codecs ''ws-1'' ''run-1'' (script [Inr (R_StateVersion ''https://state''), Inr (R_Bytes ''{}'')])
     [] example_client = Some (Ok example_statuses, example_client, example_output_trace)"
  "CheckOutputs (example_codecs\<lparr>statefile_Read := \<lambda>data. Inr (Some (rev example_outputs))\<rparr>) ''ws-1'' ''run-1''
     (script [Inr (R_StateVersion ''https://state''), Inr (R_Bytes ''{}'')])
     [] example_client = Some (Ok example_statuses, example_client, example_output_trace)"
proof -
  have read: "statefile_Read example_codecs data = Inr (Some example_outputs)" for data
    by (simp add: example_codecs_def)
  have sorts: "sort_key out_Key [\<lparr>out_Key = ''url'', out_Value = ''x''\<rparr>, \<lparr>out_Key = ''ports'', out_Value = ''[1,2,3]''\<rparr>] = example_statuses"
    "sort_key out_Key [\<lparr>out_Key = ''ports'', out_Value = ''[1,2,3]''\<rparr>, \<lparr>out_Key = ''url'', out_Value = ''x''\<rparr>] = example_statuses"
    unfolding example_statuses_def by code_simp+
  show "CheckOutputs example_codecs ''ws-1'' ''run-1'' (script [Inr (R_StateVersion ''https://state''), Inr (R_Bytes ''{}'')])
     [] example_client = Some (Ok example_statuses, example_client, example_output_trace)"
    by (simp add: run_simps or_diverge_def read example_output_statuses example_statuses_def sorts
        example_output_trace_def
        script_def validStringID_def id_char_def)
  show "CheckOutputs (example_codecs\<lparr>statefile_Read := \<lambda>data. Inr (Some (rev example_outputs))\<rparr>) ''ws-1'' ''run-1''
     (script [Inr (R_StateVersion ''https://state''), Inr (R_Bytes ''{}'')])
     [] example_client = Some (Ok example_statuses, example_client, example_output_trace)"
    by (simp add: run_simps or_diverge_def read example_output_statuses sorts example_statuses_def
        example_output_trace_def
        script_def validStringID_def id_char_def)
qed

theorem CheckOutputs_result_witness:
  "\<exists>outs. CheckOutputs example_codecs ''ws-1'' ''run-1''
      (script [Inr (R_StateVersion ''https://state''), Inr (R_Bytes ''{}'')]) [] example_client =
      Some (Ok outs, example_client, example_output_trace) \<and>
    set outs = {\<lparr>out_Key = k, out_Value = s\<rparr> | k v s. (k, v) \<in> set example_outputs \<and> \<not> ov_Sensitive v \<and>
      convertValueToString example_codecs (ov_Value v) = Some s \<and> s \<noteq> ''''} \<and>
    sorted (map out_Key outs) \<and> distinct (map out_Key outs)"
  unfolding example_output_trace_def
  by (rule CheckOutputs_result [OF example_decodes_json])
    (simp_all add: example_codecs_def example_outputs_def script_def validStringID_def id_char_def)

lemma CheckOutputs_order_independent_witness: "example_statuses = example_statuses"
  by (rule CheckOutputs_order_independent [OF example_output_run])
    (auto simp: example_codecs_def example_outputs_def)

end
