(* ===== verification/Reconciler.thy ===== *)
theory Reconciler
  imports Helper Template K8s_Objects Variables_Sync RunTriggers_Sync Runs_Control
    Workspaces_Sync Notifications_Sync Outputs
begin

text \<open>
  \<open>workspacehelper/workspace_helper.go\<close>: one reconcile of a Workspace, from reading it to the
  decision when to look again. The instance is passed from step to step; a write of it to
  the API server returns the object as it is after the answer was decoded into it. A
  \<open>(bool, error)\<close> pair is the outcome of a boolean; when a step returns its instance too, it
  comes second. Log lines are not modelled, events are.
\<close>

section \<open>Constants and names\<close>

definition workspaceFinalizer :: string where
  "workspaceFinalizer = ''finalizer.workspace.app.terraform.io''"

definition requeueInterval :: nat where "requeueInterval = 60"

record Result =
  Requeue :: bool
  RequeueAfter :: nat

definition no_requeue :: Result where
  "no_requeue = \<lparr>Requeue = False, RequeueAfter = 0\<rparr>"

definition workspace_name :: "Workspace \<Rightarrow> string" where
  "workspace_name w =
     (if sp_OmitNamespacePrefix (Spec w) then ws_Name w else ws_Namespace w @ ''-'' @ ws_Name w)"

definition set_finalizers :: "string list \<Rightarrow> Workspace \<Rightarrow> Workspace" where
  "set_finalizers fs w = w\<lparr>Meta := (Meta w)\<lparr>om_Finalizers := fs\<rparr>\<rparr>"

section \<open>Deletion\<close>

definition finalizeWorkspace :: "Workspace \<Rightarrow> unit go" where
  "finalizeWorkspace w =
     (let workspaceID = st_WorkspaceID (Status w) in
      andThen (attempt (CheckWorkspacebyID workspaceID)) (\<lambda>res. case res of
        Inl _ \<Rightarrow> ret ()
      | Inr _ \<Rightarrow>
          andThen (DeleteRuns workspaceID) (\<lambda>_.
          andThen (DeleteResources workspaceID) (\<lambda>_.
          andThen (attempt (DeleteWorkspace workspaceID)) (\<lambda>_. ret ())))))"

definition addFinalizer :: "Workspace \<Rightarrow> Workspace go" where
  "addFinalizer w = kube_Update_Workspace (set_finalizers (om_Finalizers (Meta w) @ [workspaceFinalizer]) w)"

definition condDeleteWorkspace :: "Workspace \<Rightarrow> bool go" where
  "condDeleteWorkspace w =
     (if om_DeletionTimestamp (Meta w) = None then ret False
      else
        andThen (attempt (CheckWorkspacebyID (st_WorkspaceID (Status w)))) (\<lambda>res.
        andThen (case res of
                   Inl err \<Rightarrow> if err \<noteq> ErrResourceNotFound then fail err else ret ()
                 | Inr _ \<Rightarrow> ret ()) (\<lambda>_.
        andThen (if contains (om_Finalizers (Meta w)) workspaceFinalizer
                 then finalizeWorkspace w else ret ()) (\<lambda>_.
        case remove (om_Finalizers (Meta w)) workspaceFinalizer of
          None \<Rightarrow> panic ''slice bounds out of range''
        | Some fs \<Rightarrow> andThen (kube_Update_Workspace (set_finalizers fs w)) (\<lambda>_. ret True)))))"

section \<open>Initialization and the workspace\<close>

definition initializeReconciliation :: "NamespacedName \<Rightarrow> Workspace option go" where
  "initializeReconciliation nn =
     andThen (attempt (kube_Get_Workspace nn)) (\<lambda>res. case res of
       Inl err \<Rightarrow> if k8s_IsNotFound err then ret None else fail err
     | Inr w \<Rightarrow>
         andThen (if sp_VCS (Spec w) = None \<and> sp_Module (Spec w) = None
                  then record_event w ''Warning'' ''WorkspaceEvent''
                    (''Either VCS or Module need to be specified in spec for workspace '' @ ws_Name w)
                  else ret ()) (\<lambda>_.
         andThen (set_client (\<lambda>t. t\<lparr>tf_Organization := sp_Organization (Spec w)\<rparr>)) (\<lambda>_.
         andThen CheckOrganization (\<lambda>_.
         andThen (set_client (\<lambda>t. t\<lparr>tf_SecretsMountPath := sp_SecretsMountPath (Spec w)\<rparr>)) (\<lambda>_.
         andThen CheckSecretsMountPath (\<lambda>_.
         ret (Some w)))))))"

text \<open>The two status updates of \<open>reconcileWorkspace\<close>.\<close>

definition recordWorkspaceID :: "tfc_Workspace \<Rightarrow> Workspace \<Rightarrow> Workspace go" where
  "recordWorkspaceID ws w =
     (if st_WorkspaceID (Status w) \<noteq> tw_ID ws
      then kube_UpdateStatus_Workspace (set_status (\<lambda>s. s\<lparr>st_WorkspaceID := tw_ID ws, st_Outputs := Some []\<rparr>) w)
      else ret w)"

definition adoptRun :: "tfc_Workspace \<Rightarrow> Workspace \<Rightarrow> Workspace go" where
  "adoptRun ws w =
     (case tw_CurrentRun ws of
        None \<Rightarrow> ret w
      | Some run \<Rightarrow>
          if st_RunID (Status w) \<noteq> '''' \<and> st_RunID (Status w) \<noteq> run_ID run then
            andThen (kube_UpdateStatus_Workspace (set_status (\<lambda>s. s\<lparr>st_RunID := run_ID run\<rparr>) w)) (\<lambda>w.
            andThen (record_event w ''Normal'' ''WorkspaceEvent''
              ''Updated outputs after out of band run applied'') (\<lambda>_. ret w))
          else ret w)"

definition reconcileWorkspace :: "Workspace \<Rightarrow> Workspace go" where
  "reconcileWorkspace w =
     andThen (CheckWorkspace (workspace_name w) w) (\<lambda>ws.
     andThen (recordWorkspaceID ws w) (\<lambda>w.
     andThen (adoptRun ws w) (\<lambda>w.
     if \<not> contains (om_Finalizers (Meta w)) workspaceFinalizer then addFinalizer w else ret w)))"

definition reconcileNotifications :: "Workspace \<Rightarrow> unit go" where
  "reconcileNotifications w = CheckNotifications w"

section \<open>Runs\<close>

definition runInProgress :: "Workspace \<Rightarrow> (bool \<times> Workspace) go" where
  "runInProgress w =
     (if \<not> isPending (st_RunStatus (Status w)) then ret (False, w)
      else
        andThen (CheckRun (st_RunID (Status w))) (\<lambda>runStatus.
        andThen (if st_RunStatus (Status w) \<noteq> runStatus
                 then kube_UpdateStatus_Workspace (set_status (\<lambda>s. s\<lparr>st_RunStatus := runStatus\<rparr>) w)
                 else ret w) (\<lambda>w.
        ret (True, w))))"

definition processFinishedRun :: "codecs \<Rightarrow> Workspace \<Rightarrow> Workspace go" where
  "processFinishedRun C w =
     (if isError (st_RunStatus (Status w)) then
        andThen (record_event w ''Normal'' ''WorkspaceEvent''
          (''Run '' @ quote (st_RunID (Status w)) @ '' for workspace '' @ quote (st_WorkspaceID (Status w))
           @ '' failed to complete'')) (\<lambda>_. ret w)
      else
        andThen (CheckOutputs C (st_WorkspaceID (Status w)) (st_RunID (Status w))) (\<lambda>outputs.
        andThen (if Some outputs \<noteq> st_Outputs (Status w) then
                   andThen (kube_UpdateStatus_Workspace (set_status (\<lambda>s. s\<lparr>st_Outputs := Some outputs\<rparr>) w)) (\<lambda>w.
                   andThen (record_event w ''Normal'' ''WorkspaceEvent''
                     (''Updated outputs for run '' @ st_RunID (Status w))) (\<lambda>_. ret w))
                 else ret w) (\<lambda>w.
        andThen (UpsertSecretOutputs w (elems (st_Outputs (Status w)))) (\<lambda>_. ret w))))"

definition updateTerraformTemplate :: "Workspace \<Rightarrow> bool go" where
  "updateTerraformTemplate w =
     (if sp_VCS (Spec w) \<noteq> None then ret False
      else case CreateTerraformTemplate w of
        Inl err \<Rightarrow> fail err
      | Inr terraform \<Rightarrow> UpsertTerraformConfig w terraform)"

text \<open>The variables of the spec are resolved in place, so the instance goes on with their values.\<close>

definition resolveVariable :: "string \<Rightarrow> Variable \<Rightarrow> Variable go" where
  "resolveVariable namespace variable =
     andThen (GetConfigMapForVariable namespace variable) (\<lambda>variable.
     GetSecretForVariable namespace variable)"

definition set_variables :: "Variable list \<Rightarrow> Workspace \<Rightarrow> Workspace" where
  "set_variables vs w = w\<lparr>Spec := (Spec w)\<lparr>sp_Variables := vs\<rparr>\<rparr>"

definition updateVariables :: "Workspace \<Rightarrow> (bool \<times> Workspace) go" where
  "updateVariables w =
     andThen (rewrite_each (resolveVariable (ws_Namespace w)) (sp_Variables (Spec w))) (\<lambda>variables.
     andThen (CheckVariables (workspace_name w) (MapToTFCVariable variables)) (\<lambda>updatedVariables.
     ret (updatedVariables, set_variables variables w)))"

definition updateRunTriggers :: "Workspace \<Rightarrow> bool go" where
  "updateRunTriggers w = CheckRunTriggers (workspace_name w) (sp_RunTriggers (Spec w))"

text \<open>
  \<open>prepareModuleRun\<close> is given its options by value: setting \<open>ConfigurationVersion\<close> in them
  changes a copy that is dropped, so they are no part of the result.
\<close>

definition prepareModuleRun :: "Workspace \<Rightarrow> RunCreateOptions \<Rightarrow> (bool \<times> Workspace) go" where
  "prepareModuleRun w options =
     andThen
       (if st_ConfigVersionID (Status w) = '''' then
          andThen (kube_Get_ConfigMap \<lparr>nn_Namespace = ws_Namespace w, nn_Name = ws_Name w\<rparr>) (\<lambda>cfgMap.
          let tf = (case lookup_map (cm_Data cfgMap) TerraformConfigMap of None \<Rightarrow> '''' | Some s \<Rightarrow> s) in
          andThen (CreateConfigurationVersion (st_WorkspaceID (Status w))) (\<lambda>configVersion.
          andThen (attempt (call (Host (Stat moduleDirectory)) as_fileinfo)) (\<lambda>res.
          andThen (case res of
                     Inl err \<Rightarrow> if os_IsNotExist err then perform (Host (Mkdir moduleDirectory)) else ret ()
                   | Inr _ \<Rightarrow> ret ()) (\<lambda>_.
          andThen (perform (Host (WriteFile configurationFilePath tf))) (\<lambda>_.
          andThen (UploadConfigurationFile (cv_UploadURL configVersion)) (\<lambda>_.
          kube_UpdateStatus_Workspace (set_status (\<lambda>s. s\<lparr>st_ConfigVersionID := cv_ID configVersion\<rparr>) w)))))))
        else ret w) (\<lambda>w.
     andThen (ConfigurationVersions_Read (st_ConfigVersionID (Status w))) (\<lambda>configVersion.
     if cv_Status configVersion \<noteq> ''uploaded'' then ret (True, w)
     else
       andThen (kube_UpdateStatus_Workspace (set_status (\<lambda>s. s\<lparr>st_ConfigVersionID := ''''\<rparr>) w)) (\<lambda>w.
       let dropped = options\<lparr>rco_ConfigurationVersion := Some configVersion\<rparr> in
       ret (False, w))))"

definition prepareVCSRun :: "Workspace \<Rightarrow> bool go" where
  "prepareVCSRun w =
     andThen (ConfigurationVersions_List (st_WorkspaceID (Status w))) (\<lambda>configVersions.
     if length configVersions = 0 then ret True else ret False)"

definition run_options :: "Workspace \<Rightarrow> RunCreateOptions" where
  "run_options w = \<lparr>rco_IsDestroy = None, rco_Message = Some (TerraformOperator @ '', apply''),
     rco_ConfigurationVersion = None,
     rco_Workspace = Some (new_tfc_Workspace (st_WorkspaceID (Status w)))\<rparr>"

definition startRun :: "Workspace \<Rightarrow> Workspace go" where
  "startRun w =
     (let options = run_options w in
      andThen
        (if sp_VCS (Spec w) \<noteq> None then andThen (prepareVCSRun w) (\<lambda>requeue. ret (requeue, w))
         else if sp_Module (Spec w) \<noteq> None then prepareModuleRun w options
         else ret (False, w)) (\<lambda>(requeue, w).
      if requeue then ret w
      else
        andThen (Runs_Create options) (\<lambda>runResult.
        kube_UpdateStatus_Workspace
          (set_status (\<lambda>s. s\<lparr>st_RunID := run_ID runResult, st_RunStatus := run_Status runResult\<rparr>) w))))"

section \<open>Reconcile\<close>

text \<open>The part of \<open>Reconcile\<close> after the run is known not to be in progress.\<close>

definition reconcileFinished :: "codecs \<Rightarrow> Workspace \<Rightarrow> Result go" where
  "reconcileFinished C w =
     andThen (processFinishedRun C w) (\<lambda>w.
     andThen (updateTerraformTemplate w) (\<lambda>updatedTerraform.
     andThen (updateVariables w) (\<lambda>(updatedVariables, w).
     andThen (updateRunTriggers w) (\<lambda>updatedRunTriggers.
     if updatedTerraform \<or> updatedVariables \<or> updatedRunTriggers \<or> st_RunID (Status w) = '''' \<or>
        st_ConfigVersionID (Status w) \<noteq> ''''
     then
       andThen (startRun w) (\<lambda>w.
       andThen (record_event w ''Normal'' ''WorkspaceEvent''
         (''Started new Terraform job with id '' @ st_RunID (Status w))) (\<lambda>_.
       ret (no_requeue\<lparr>Requeue := True\<rparr>)))
     else ret (no_requeue\<lparr>RequeueAfter := requeueInterval\<rparr>)))))"

definition Reconcile :: "codecs \<Rightarrow> NamespacedName \<Rightarrow> Result go" where
  "Reconcile C nn =
     andThen (initializeReconciliation nn) (\<lambda>found. case found of
       None \<Rightarrow> ret no_requeue
     | Some w \<Rightarrow>
         andThen (condDeleteWorkspace w) (\<lambda>deleted.
         if deleted then ret no_requeue
         else
           andThen (reconcileWorkspace w) (\<lambda>w.
           andThen (reconcileNotifications w) (\<lambda>_.
           andThen (runInProgress w) (\<lambda>(shouldRequeue, w).
           if shouldRequeue then ret (no_requeue\<lparr>Requeue := True\<rparr>)
           else reconcileFinished C w)))))"

lemmas reconcile_defs = finalizeWorkspace_def addFinalizer_def condDeleteWorkspace_def
  initializeReconciliation_def reconcileWorkspace_def recordWorkspaceID_def adoptRun_def reconcileNotifications_def runInProgress_def
  processFinishedRun_def updateTerraformTemplate_def resolveVariable_def updateVariables_def
  updateRunTriggers_def prepareModuleRun_def prepareVCSRun_def startRun_def

section \<open>The two halves of a reconcile\<close>

text \<open>Everything up to the point where the run is not in progress: a result, or the instance.\<close>

definition reachFinished :: "NamespacedName \<Rightarrow> (Result + Workspace) go" where
  "reachFinished nn =
     andThen (initializeReconciliation nn) (\<lambda>found. case found of
       None \<Rightarrow> ret (Inl no_requeue)
     | Some w \<Rightarrow>
         andThen (condDeleteWorkspace w) (\<lambda>deleted.
         if deleted then ret (Inl no_requeue)
         else
           andThen (reconcileWorkspace w) (\<lambda>w.
           andThen (reconcileNotifications w) (\<lambda>_.
           andThen (runInProgress w) (\<lambda>(shouldRequeue, w).
           if shouldRequeue then ret (Inl (no_requeue\<lparr>Requeue := True\<rparr>)) else ret (Inr w))))))"

lemma andThen_cong: "(\<And>a. k a = k' a) \<Longrightarrow> andThen m k = andThen m k'"
  by presburger

lemma andThen_if: "andThen (if b then m else n) k = (if b then andThen m k else andThen n k)"
  by simp

lemma andThen_case_option:
  "andThen (case x of None \<Rightarrow> m | Some y \<Rightarrow> n y) k = (case x of None \<Rightarrow> andThen m k | Some y \<Rightarrow> andThen (n y) k)"
  by (cases x) simp_all

lemma Reconcile_halves:
  "Reconcile C nn = andThen (reachFinished nn) (\<lambda>x. case x of Inl r \<Rightarrow> ret r | Inr w \<Rightarrow> reconcileFinished C w)"
  unfolding Reconcile_def reachFinished_def
  by (auto simp: andThen_if andThen_case_option split_def intro!: andThen_cong split: option.split)

end
