(* ===== verification/Trace_Rules.thy ===== *)
theory Trace_Rules
  imports Effects
begin

text \<open>
  More rules about computations, in the style of \<open>emits\<close>: which values they return, where a
  request of a sequence comes from, requests that are issued at most once and at the end, and
  what a computation cannot have requested when it returns a certain value.
\<close>

section \<open>The values a computation returns\<close>

definition yields :: "('a \<Rightarrow> bool) \<Rightarrow> 'a go \<Rightarrow> bool" where
  "yields Q m \<longleftrightarrow> (\<forall>E h t a t' ev. m E h t = Some (Ok a, t', ev) \<longrightarrow> Q a)"

named_theorems yields_rules \<open>which values a computation returns\<close>

lemma yieldsD: "yields Q m \<Longrightarrow> m E h t = Some (Ok a, t', ev) \<Longrightarrow> Q a"
  unfolding yields_def by blast

lemma yields_basic [yields_rules]:
  "Q a \<Longrightarrow> yields Q (ret a)" "yields Q (fail e)" "yields Q (panic s)"
  by (simp_all add: yields_def)

lemma yields_andThen [yields_rules]: "(\<And>a. yields Q (k a)) \<Longrightarrow> yields Q (andThen m k)"
  unfolding yields_def by (blast elim!: andThen_OkE)

lemma yields_option [yields_rules]:
  "(x = None \<Longrightarrow> yields Q m) \<Longrightarrow> (\<And>y. x = Some y \<Longrightarrow> yields Q (n y)) \<Longrightarrow>
   yields Q (case x of None \<Rightarrow> m | Some y \<Rightarrow> n y)"
  by (cases x) auto

lemma yields_if [yields_rules]:
  "(b \<Longrightarrow> yields Q m) \<Longrightarrow> (\<not> b \<Longrightarrow> yields Q n) \<Longrightarrow> yields Q (if b then m else n)"
  by simp

lemma yields_prod [yields_rules]:
  "(\<And>a b. x = (a, b) \<Longrightarrow> yields Q (f a b)) \<Longrightarrow> yields Q (case x of (a, b) \<Rightarrow> f a b)"
  by (cases x) auto

lemma emits_event: "emits P m \<Longrightarrow> m E h t = Some (r, t', ev) \<Longrightarrow> (q, a) \<in> set ev \<Longrightarrow> P q"
  using emitsD by fastforce

text \<open>A request that the first part of a sequence never issues comes from the second.\<close>

lemma andThen_requestE:
  assumes "andThen m k E h t = Some (r, t', ev)"
    and "emits (\<lambda>q. \<not> P q) m" and "(q, a) \<in> set ev" and "P q"
  obtains x t1 ev1 ev2 where "m E h t = Some (Ok x, t1, ev1)" "k x E (h @ ev1) t1 = Some (r, t', ev2)"
    "ev = ev1 @ ev2" "(q, a) \<in> set ev2"
  using assms(1)
proof (cases rule: andThen_SomeE)
  case (ok x t1 ev1 ev2)
  with assms(3,4) emitsD [OF assms(2) ok(1)] that show thesis by fastforce
qed (use assms(3,4) emitsD [OF assms(2)] in fastforce)+

lemma andThen_set_client: "andThen (set_client f) k E h t = k () E h (f t)"
  by (auto simp: andThen_def set_client_def split: option.split)

section \<open>Requests that are issued once, at the end\<close>

text \<open>
  \<open>once P Q m\<close>: \<open>m\<close> issues at most one request with \<open>P\<close>, and after it only requests with \<open>Q\<close>.
\<close>

definition once :: "(request \<Rightarrow> bool) \<Rightarrow> (request \<Rightarrow> bool) \<Rightarrow> 'a go \<Rightarrow> bool" where
  "once P Q m \<longleftrightarrow> (\<forall>E h t r t' pre q a post. m E h t = Some (r, t', pre @ (q, a) # post) \<longrightarrow> P q \<longrightarrow>
     (\<forall>e \<in> set pre. \<not> P (fst e)) \<and> (\<forall>e \<in> set post. Q (fst e) \<and> \<not> P (fst e)))"

named_theorems once_rules \<open>which requests are issued once\<close>

lemma onceD:
  "once P Q m \<Longrightarrow> m E h t = Some (r, t', pre @ (q, a) # post) \<Longrightarrow> P q \<Longrightarrow>
   (\<forall>e \<in> set pre. \<not> P (fst e)) \<and> (\<forall>e \<in> set post. Q (fst e) \<and> \<not> P (fst e))"
  unfolding once_def by blast

lemma once_never: "emits (\<lambda>q. \<not> P q) m \<Longrightarrow> once P Q m"
  unfolding once_def using emits_event by fastforce

lemma once_call [once_rules]: "once P Q (call q dec)"
  by (auto simp: once_def call_Some append_eq_Cons_conv)

lemma once_basic [once_rules]:
  "once P Q (ret a)" "once P Q (fail e)" "once P Q (panic s)" "once P Q get_client" "once P Q (set_client f)"
  by (auto simp: once_def)

lemma once_andThen_before:
  assumes m: "emits (\<lambda>q. \<not> P q) m" and k: "\<And>a. once P Q (k a)"
  shows "once P Q (andThen m k)"
  unfolding once_def
proof (intro allI impI)
  fix E h t r t' pre q a post
  assume run: "andThen m k E h t = Some (r, t', pre @ (q, a) # post)" and q: "P q"
  have "(q, a) \<in> set (pre @ (q, a) # post)" by simp
  from run m this q obtain x t1 ev1 ev2 where
    m1: "m E h t = Some (Ok x, t1, ev1)" and k1: "k x E (h @ ev1) t1 = Some (r, t', ev2)"
    and ev: "pre @ (q, a) # post = ev1 @ ev2" by (rule andThen_requestE)
  have no: "\<forall>e \<in> set ev1. \<not> P (fst e)" using emitsD [OF m m1] by blast
  then have "(q, a) \<notin> set ev1" using q by fastforce
  with ev obtain pre2 where pre: "pre = ev1 @ pre2" and ev2: "ev2 = pre2 @ (q, a) # post"
    by (auto simp: append_eq_append_conv2 Cons_eq_append_conv)
  from onceD [OF k k1 [unfolded ev2] q] pre no show
    "(\<forall>e \<in> set pre. \<not> P (fst e)) \<and> (\<forall>e \<in> set post. Q (fst e) \<and> \<not> P (fst e))" by auto
qed

lemma once_andThen_after:
  assumes m: "once P Q m" and k: "\<And>a. emits (\<lambda>q. Q q \<and> \<not> P q) (k a)"
  shows "once P Q (andThen m k)"
  unfolding once_def
proof (intro allI impI)
  fix E h t r t' pre q a post
  assume run: "andThen m k E h t = Some (r, t', pre @ (q, a) # post)" and q: "P q"
  from run show "(\<forall>e \<in> set pre. \<not> P (fst e)) \<and> (\<forall>e \<in> set post. Q (fst e) \<and> \<not> P (fst e))"
  proof (cases rule: andThen_SomeE)
    case (ok x t1 ev1 ev2)
    note no = emitsD [OF k ok(2)]
    then have "(q, a) \<notin> set ev2" using q by fastforce
    with ok(3) obtain post1 where ev1: "ev1 = pre @ (q, a) # post1" and post: "post = post1 @ ev2"
      by (auto simp: append_eq_append_conv2 Cons_eq_append_conv)
    from onceD [OF m ok(1) [unfolded ev1] q] no post show ?thesis by auto
  qed (use onceD [OF m _ q] in blast)+
qed

lemma once_if [once_rules]:
  "(b \<Longrightarrow> once P Q m) \<Longrightarrow> (\<not> b \<Longrightarrow> once P Q n) \<Longrightarrow> once P Q (if b then m else n)"
  by simp

lemma once_prod [once_rules]:
  "(\<And>a b. x = (a, b) \<Longrightarrow> once P Q (f a b)) \<Longrightarrow> once P Q (case x of (a, b) \<Rightarrow> f a b)"
  by (cases x) auto

lemma once_Let [once_rules]: "once P Q (f x) \<Longrightarrow> once P Q (let y = x in f y)"
  by simp

section \<open>What a returned value tells about the requests\<close>

text \<open>\<open>silent S P m\<close>: when \<open>m\<close> returns a value with \<open>S\<close>, all its requests satisfy \<open>P\<close>.\<close>

definition silent :: "('a \<Rightarrow> bool) \<Rightarrow> (request \<Rightarrow> bool) \<Rightarrow> 'a go \<Rightarrow> bool" where
  "silent S P m \<longleftrightarrow> (\<forall>E h t a t' ev. m E h t = Some (Ok a, t', ev) \<longrightarrow> S a \<longrightarrow> (\<forall>e \<in> set ev. P (fst e)))"

named_theorems silent_rules \<open>what a returned value tells about the requests\<close>

lemma silentD: "silent S P m \<Longrightarrow> m E h t = Some (Ok a, t', ev) \<Longrightarrow> S a \<Longrightarrow> e \<in> set ev \<Longrightarrow> P (fst e)"
  unfolding silent_def by blast

lemma silent_emits: "emits P m \<Longrightarrow> silent S P m"
  unfolding silent_def emits_def by blast

lemma silent_never: "yields (\<lambda>a. \<not> S a) m \<Longrightarrow> silent S P m"
  unfolding silent_def yields_def by blast

lemma silent_basic [silent_rules]: "silent S P (ret a)" "silent S P (fail e)" "silent S P (panic s)"
  by (auto simp: silent_def)

lemma silent_after: "emits P m \<Longrightarrow> (\<And>a. silent S P (k a)) \<Longrightarrow> silent S P (andThen m k)"
  unfolding silent_def emits_def by (fastforce elim!: andThen_OkE)

lemma silent_if [silent_rules]:
  "(b \<Longrightarrow> silent S P m) \<Longrightarrow> (\<not> b \<Longrightarrow> silent S P n) \<Longrightarrow> silent S P (if b then m else n)"
  by simp

lemma silent_option [silent_rules]:
  "(x = None \<Longrightarrow> silent S P m) \<Longrightarrow> (\<And>y. x = Some y \<Longrightarrow> silent S P (n y)) \<Longrightarrow>
   silent S P (case x of None \<Rightarrow> m | Some y \<Rightarrow> n y)"
  by (cases x) auto

lemma silent_sum [silent_rules]:
  "(\<And>e. x = Inl e \<Longrightarrow> silent S P (m e)) \<Longrightarrow> (\<And>y. x = Inr y \<Longrightarrow> silent S P (n y)) \<Longrightarrow>
   silent S P (case x of Inl e \<Rightarrow> m e | Inr y \<Rightarrow> n y)"
  by (cases x) auto

lemma silent_prod [silent_rules]:
  "(\<And>a b. x = (a, b) \<Longrightarrow> silent S P (f a b)) \<Longrightarrow> silent S P (case x of (a, b) \<Rightarrow> f a b)"
  by (cases x) auto

lemma silent_Let [silent_rules]: "silent S P (f x) \<Longrightarrow> silent S P (let y = x in f y)"
  by simp

text \<open>The first part tells about its own requests when the second cannot return otherwise.\<close>

lemma silent_bind:
  assumes m: "silent T P m" and k: "\<And>a. T a \<Longrightarrow> silent S P (k a)"
    and never: "\<And>a. \<not> T a \<Longrightarrow> yields (\<lambda>x. \<not> S x) (k a)"
  shows "silent S P (andThen m k)"
  unfolding silent_def
proof (intro allI impI)
  fix E h t b t' ev
  assume "andThen m k E h t = Some (Ok b, t', ev)" and b: "S b"
  then obtain a t1 ev1 ev2 where a: "m E h t = Some (Ok a, t1, ev1)"
    and kb: "k a E (h @ ev1) t1 = Some (Ok b, t', ev2)" and ev: "ev = ev1 @ ev2" by (auto elim: andThen_OkE)
  have "T a" using yieldsD [OF never kb] b by blast
  with silentD [OF m a] silentD [OF k kb b] ev show "\<forall>e \<in> set ev. P (fst e)" by auto
qed

end
