(* ===== verification/Reconcile_Effects.thy ===== *)
theory Reconcile_Effects
  imports Reconciler Trace_Rules
begin

text \<open>
  What the steps of a reconcile may request, which of them return, and how a successful
  reconcile splits into its steps. These facts carry the properties of \<open>Reconcile\<close>.
\<close>

section \<open>What the steps request\<close>

fun finalize_request :: "string \<Rightarrow> request \<Rightarrow> bool" where
  "finalize_request i (Workspaces (Workspace_ReadByID j)) = (j = i)"
| "finalize_request i (Workspaces (Workspace_DeleteByID j)) = (j = i)"
| "finalize_request i (Runs (Run_List j)) = (j = i)"
| "finalize_request i (Runs (Run_Create c)) = (\<exists>ws. c = destroy_options ws)"
| "finalize_request i (Runs q) = True"
| "finalize_request i (Host (Sleep n)) = True"
| "finalize_request i q = False"

fun initialize_request :: "NamespacedName \<Rightarrow> request \<Rightarrow> bool" where
  "initialize_request nn (Kube (Get_Workspace n)) = (n = nn)"
| "initialize_request nn (Kube (Record_Event w a b c)) = True"
| "initialize_request nn (Organizations (Organization_Read x)) = True"
| "initialize_request nn (Host (Stat f)) = True"
| "initialize_request nn q = False"

fun reconcile_workspace_request :: "request \<Rightarrow> bool" where
  "reconcile_workspace_request (Kube (UpdateStatus_Workspace w)) = True"
| "reconcile_workspace_request (Kube (Update_Workspace w)) = True"
| "reconcile_workspace_request (Kube (Record_Event w a b c)) = True"
| "reconcile_workspace_request q = workspace_sync_request q"

fun process_request :: "request \<Rightarrow> bool" where
  "process_request (Kube (UpdateStatus_Workspace w)) = True"
| "process_request (Kube (Record_Event w a b c)) = True"
| "process_request (Kube (Get_Secret n)) = True"
| "process_request (Kube (Create_Secret s)) = True"
| "process_request (Kube (Update_Secret s)) = True"
| "process_request q = is_StateVersions q"

fun template_request :: "request \<Rightarrow> bool" where
  "template_request (Kube (Get_ConfigMap n)) = True"
| "template_request (Kube (Create_ConfigMap c)) = True"
| "template_request (Kube (Update_ConfigMap c)) = True"
| "template_request q = False"

fun variables_request :: "request \<Rightarrow> bool" where
  "variables_request (Kube (Get_ConfigMap n)) = True"
| "variables_request (Kube (Get_Secret n)) = True"
| "variables_request (Workspaces (Workspace_Read x y)) = True"
| "variables_request (Host (ReadFile f)) = True"
| "variables_request q = is_Variables q"

fun triggers_request :: "request \<Rightarrow> bool" where
  "triggers_request (Workspaces (Workspace_Read x y)) = True"
| "triggers_request q = is_RunTriggers q"

fun start_request :: "request \<Rightarrow> bool" where
  "start_request (Runs (Run_Create c)) = (\<exists>w. c = run_options w)"
| "start_request (Kube (UpdateStatus_Workspace w)) = True"
| "start_request (Kube (Get_ConfigMap n)) = True"
| "start_request (Host (Stat f)) = True"
| "start_request (Host (Mkdir f)) = True"
| "start_request (Host (WriteFile f s)) = True"
| "start_request (Host (Pack f)) = True"
| "start_request q = is_ConfigVersions q"

lemma emits_finalize [emits_rules]:
  assumes "\<And>q. finalize_request (st_WorkspaceID (Status w)) q \<Longrightarrow> P q"
  shows "emits P (finalizeWorkspace w)"
  unfolding finalizeWorkspace_def by (intro emits_rules; rule assms) auto

lemma emits_condDelete [emits_rules]:
  assumes "\<And>q. finalize_request (st_WorkspaceID (Status w)) q \<Longrightarrow> P q"
    and "\<And>fs. P (Kube (Update_Workspace (set_finalizers fs w)))"
  shows "emits P (condDeleteWorkspace w)"
  unfolding condDeleteWorkspace_def by (intro emits_rules assms; (rule assms)?) auto

lemma emits_initialize [emits_rules]:
  assumes "\<And>q. initialize_request nn q \<Longrightarrow> P q"
  shows "emits P (initializeReconciliation nn)"
  unfolding initializeReconciliation_def by (intro emits_rules; rule assms) simp_all

lemma emits_reconcileWorkspace [emits_rules]:
  assumes "\<And>q. reconcile_workspace_request q \<Longrightarrow> P q"
  shows "emits P (reconcileWorkspace w)"
  unfolding reconcileWorkspace_def recordWorkspaceID_def adoptRun_def addFinalizer_def
  by (intro emits_rules; rule assms)
    (auto elim: reconcile_workspace_request.elims workspace_sync_request.elims)

lemma emits_reconcileNotifications [emits_rules]:
  "(\<And>q. is_Notifications q \<Longrightarrow> P q) \<Longrightarrow> emits P (reconcileNotifications w)"
  unfolding reconcileNotifications_def by (intro emits_rules)

lemma emits_runInProgress [emits_rules]:
  "(\<And>i. P (Runs (Run_Read i))) \<Longrightarrow> (\<And>w. P (Kube (UpdateStatus_Workspace w))) \<Longrightarrow> emits P (runInProgress w)"
  unfolding runInProgress_def by (intro emits_rules)

lemma emits_processFinishedRun [emits_rules]:
  assumes "\<And>q. process_request q \<Longrightarrow> P q"
  shows "emits P (processFinishedRun C w)"
  unfolding processFinishedRun_def by (intro emits_rules; rule assms) (auto simp: is_StateVersions_def)

lemma emits_updateTerraformTemplate [emits_rules]:
  assumes "\<And>q. template_request q \<Longrightarrow> P q"
  shows "emits P (updateTerraformTemplate w)"
  unfolding updateTerraformTemplate_def by (intro emits_rules; rule assms) simp_all

lemma emits_updateVariables [emits_rules]:
  assumes "\<And>q. variables_request q \<Longrightarrow> P q"
  shows "emits P (updateVariables w)"
  unfolding updateVariables_def resolveVariable_def
  by (intro emits_rules; rule assms) (auto simp: variable_sync_request_def is_Variables_def)

lemma emits_updateRunTriggers [emits_rules]:
  assumes "\<And>q. triggers_request q \<Longrightarrow> P q"
  shows "emits P (updateRunTriggers w)"
  unfolding updateRunTriggers_def
  by (intro emits_rules; rule assms) (auto simp: run_trigger_sync_request_def is_RunTriggers_def)

lemma emits_prepare [emits_rules]:
  assumes "\<And>q. start_request q \<Longrightarrow> \<not> is_Runs q \<Longrightarrow> P q"
  shows "emits P (prepareModuleRun w options)" "emits P (prepareVCSRun w)"
  unfolding prepareModuleRun_def prepareVCSRun_def Let_def
  by (intro emits_rules; rule assms; simp)+

lemma emits_startRun [emits_rules]:
  assumes "\<And>q. start_request q \<Longrightarrow> P q"
  shows "emits P (startRun w)"
  unfolding startRun_def Let_def by (intro emits_rules; rule assms) auto

lemma emits_reconcileFinished [emits_rules]:
  assumes "\<And>q. process_request q \<Longrightarrow> P q" "\<And>q. template_request q \<Longrightarrow> P q"
    "\<And>q. variables_request q \<Longrightarrow> P q" "\<And>q. triggers_request q \<Longrightarrow> P q" "\<And>q. start_request q \<Longrightarrow> P q"
  shows "emits P (reconcileFinished C w)"
  unfolding reconcileFinished_def by (intro emits_rules; (erule assms | (rule assms; (simp; fail))))

section \<open>The three courses of a reconcile\<close>

text \<open>What \<open>Reconcile\<close> does with an object that is not marked for deletion.\<close>

definition reconcileLive :: "codecs \<Rightarrow> Workspace \<Rightarrow> Result go" where
  "reconcileLive C w =
     andThen (reconcileWorkspace w) (\<lambda>w.
     andThen (reconcileNotifications w) (\<lambda>_.
     andThen (runInProgress w) (\<lambda>(shouldRequeue, w).
     if shouldRequeue then ret (no_requeue\<lparr>Requeue := True\<rparr>)
     else reconcileFinished C w)))"

lemma emits_reconcileLive [emits_rules]:
  assumes "\<And>q. reconcile_workspace_request q \<Longrightarrow> P q" "\<And>q. is_Notifications q \<Longrightarrow> P q"
    "\<And>i. P (Runs (Run_Read i))"
    "\<And>q. process_request q \<Longrightarrow> P q" "\<And>q. template_request q \<Longrightarrow> P q"
    "\<And>q. variables_request q \<Longrightarrow> P q" "\<And>q. triggers_request q \<Longrightarrow> P q" "\<And>q. start_request q \<Longrightarrow> P q"
  shows "emits P (reconcileLive C w)"
  unfolding reconcileLive_def by (intro emits_rules; (erule assms | (rule assms; (simp; fail))))

lemma Reconcile_live:
  "Reconcile C nn =
     andThen (initializeReconciliation nn) (\<lambda>found. case found of
       None \<Rightarrow> ret no_requeue
     | Some w \<Rightarrow>
         andThen (condDeleteWorkspace w) (\<lambda>deleted.
         if deleted then ret no_requeue else reconcileLive C w))"
  unfolding Reconcile_def reconcileLive_def ..

lemma condDelete_live [simp]:
  "om_DeletionTimestamp (Meta w) = None \<Longrightarrow> condDeleteWorkspace w = ret False"
  by (simp add: condDeleteWorkspace_def)

lemma condDelete_marked:
  assumes "condDeleteWorkspace w E h t = Some (Ok b, t', ev)" and "om_DeletionTimestamp (Meta w) \<noteq> None"
  shows "b"
proof -
  from assms(2) have "yields (\<lambda>b. b) (condDeleteWorkspace w)"
    unfolding condDeleteWorkspace_def by (intro yields_rules) simp_all
  from yieldsD [OF this assms(1)] show ?thesis .
qed

fun stop_with :: "'a outcome \<Rightarrow> Result outcome" where
  "stop_with (Ok _) = Ok no_requeue"
| "stop_with (Err e) = Err e"
| "stop_with (Panic s) = Panic s"

lemma stop_with_Ok [simp]:
  "stop_with r = Ok res \<longleftrightarrow> (\<exists>x. r = Ok x) \<and> res = no_requeue"
  "Ok res = stop_with r \<longleftrightarrow> (\<exists>x. r = Ok x) \<and> res = no_requeue"
  by (cases r; auto)+

lemma marked_course:
  assumes "andThen (condDeleteWorkspace w) (\<lambda>deleted. if deleted then ret no_requeue else m) E h t = Some (r, t', ev)"
    and "om_DeletionTimestamp (Meta w) \<noteq> None"
  shows "\<exists>r1. condDeleteWorkspace w E h t = Some (r1, t', ev) \<and> r = stop_with r1"
  using assms(1)
proof (cases rule: andThen_SomeE)
  case (ok b t2 ev1 ev2)
  with condDelete_marked [OF ok(1) assms(2)] show ?thesis by (intro exI [of _ "Ok b"]) simp
qed auto

lemma Reconcile_courses:
  assumes "Reconcile C nn E h t = Some (r, t', ev)"
  obtains (stopped) r0 where "initializeReconciliation nn E h t = Some (r0, t', ev)"
      "\<And>w. r0 \<noteq> Ok (Some w)" "r = stop_with r0"
    | (marked) w t1 ev1 ev2 r1 where "initializeReconciliation nn E h t = Some (Ok (Some w), t1, ev1)"
      "om_DeletionTimestamp (Meta w) \<noteq> None"
      "condDeleteWorkspace w E (h @ ev1) t1 = Some (r1, t', ev2)"
      "r = stop_with r1" "ev = ev1 @ ev2"
    | (live) w t1 ev1 ev2 where "initializeReconciliation nn E h t = Some (Ok (Some w), t1, ev1)"
      "om_DeletionTimestamp (Meta w) = None"
      "reconcileLive C w E (h @ ev1) t1 = Some (r, t', ev2)" "ev = ev1 @ ev2"
  using assms unfolding Reconcile_live
proof (cases rule: andThen_SomeE)
  case (ok found t1 ev1 ev2)
  show ?thesis
  proof (cases found)
    case None
    with ok stopped show ?thesis by auto
  next
    case (Some w)
    show ?thesis
    proof (cases "om_DeletionTimestamp (Meta w) = None")
      case True
      with ok Some live show ?thesis by simp
    next
      case False
      from ok(2) Some have "andThen (condDeleteWorkspace w) (\<lambda>deleted. if deleted then ret no_requeue
        else reconcileLive C w) E (h @ ev1) t1 = Some (r, t', ev2)" by simp
      from marked_course [OF this False] marked [OF _ False] ok Some show ?thesis by blast
    qed
  qed
qed (use stopped in \<open>auto simp: assms\<close>)

text \<open>The object a reconcile is about is the one its first request reads.\<close>

lemma initialize_reads:
  assumes "initializeReconciliation nn E h t = Some (r, t', ev)"
  shows "\<exists>rest. ev = (Kube (Get_Workspace nn), E h (Kube (Get_Workspace nn))) # rest"
  using assms unfolding initializeReconciliation_def kube_Get_Workspace_def
  by (auto elim!: andThen_SomeE simp: attempt_Some call_Some)

lemma CheckOrganization_Ok:
  assumes "CheckOrganization E h t = Some (Ok u, t', ev)"
  shows "t' = t" and "\<exists>a. ev = [(Organizations (Organization_Read (tf_Organization t)), Inr a)]"
proof -
  from assms have "Organizations_Read (tf_Organization t) E h t = Some (Ok u, t', ev)"
    by (simp add: CheckOrganization_def)
  then show "t' = t" "\<exists>a. ev = [(Organizations (Organization_Read (tf_Organization t)), Inr a)]"
    by (auto simp: Organizations_Read_def require_Ok perform_Ok)
qed

lemma set_up_client_Ok:
  assumes "andThen (set_client f) (\<lambda>_. andThen CheckOrganization (\<lambda>_. andThen (set_client g) (\<lambda>_.
      andThen CheckSecretsMountPath (\<lambda>_. ret x)))) E h t = Some (Ok y, t', ev)"
  shows "y = x \<and> t' = g (f t) \<and> (\<exists>a. (Organizations (Organization_Read (tf_Organization (f t))), Inr a) \<in> set ev)"
proof -
  from assms [unfolded andThen_set_client] obtain u t1 ev1 ev2 where org: "CheckOrganization E h (f t) = Some (Ok u, t1, ev1)"
    and tail: "andThen CheckSecretsMountPath (\<lambda>_. ret x) E (h @ ev1) (g t1) = Some (Ok y, t', ev2)" and ev: "ev = ev1 @ ev2"
    by (rule andThen_OkE) (simp only: andThen_set_client)
  from tail obtain v t2 ev3 where "CheckSecretsMountPath E (h @ ev1) (g t1) = Some (Ok v, t2, ev3)" "y = x" "t' = t2"
    by (auto elim: andThen_OkE)
  with CheckOrganization_Ok [OF org] keeps_clientD [OF keeps_variables(1)] ev show ?thesis by fastforce
qed

lemma initialize_Ok:
  assumes "initializeReconciliation nn E h t = Some (Ok (Some w), t', ev)"
  obtains rest a where "ev = (Kube (Get_Workspace nn), Inr (R_Resource w)) # rest"
    "(Organizations (Organization_Read (sp_Organization (Spec w))), Inr a) \<in> set rest"
    "t' = \<lparr>tf_Organization = sp_Organization (Spec w), tf_SecretsMountPath = sp_SecretsMountPath (Spec w)\<rparr>"
  using assms unfolding initializeReconciliation_def
proof (cases rule: andThen_attempt_OkE)
  case (success w' t1 ev1 ev2)
  let ?f = "\<lambda>t. t\<lparr>tf_Organization := sp_Organization (Spec w')\<rparr>"
    and ?g = "\<lambda>t. t\<lparr>tf_SecretsMountPath := sp_SecretsMountPath (Spec w')\<rparr>"
  from success(1) have ev1: "ev1 = [(Kube (Get_Workspace nn), Inr (R_Resource w'))]" by (auto simp: kube_Ok)
  from success(2) [unfolded sum.case] obtain u t2 ev3 ev4 where ev2: "ev2 = ev3 @ ev4" and
    "andThen (set_client ?f) (\<lambda>_. andThen CheckOrganization (\<lambda>_. andThen (set_client ?g) (\<lambda>_.
      andThen CheckSecretsMountPath (\<lambda>_. ret (Some w'))))) E ((h @ ev1) @ ev3) t2 = Some (Ok (Some w), t', ev4)"
    by (rule andThen_OkE)
  from set_up_client_Ok [OF this(2)] obtain a where w: "w' = w" "t' = ?g (?f t2)"
    "(Organizations (Organization_Read (sp_Organization (Spec w'))), Inr a) \<in> set ev4" by auto
  with that [of "ev3 @ ev4" a] success(3) ev1 ev2 show ?thesis by (cases t2) simp
next
  case (failure e t1 ev1 ev2)
  then show ?thesis by (simp split: if_splits)
qed

text \<open>There is no object only when the API server says so.\<close>

lemma initialize_None:
  assumes "initializeReconciliation nn E h t = Some (Ok None, t', ev)"
  shows "\<exists>e. E h (Kube (Get_Workspace nn)) = Inl e \<and> k8s_IsNotFound e \<and>
    ev = [(Kube (Get_Workspace nn), Inl e)] \<and> t' = t"
  using assms unfolding initializeReconciliation_def
proof (cases rule: andThen_attempt_OkE)
  case (success w t1 ev1 ev2)
  let ?m = "andThen (if sp_VCS (Spec w) = None \<and> sp_Module (Spec w) = None
      then record_event w ''Warning'' ''WorkspaceEvent''
        (''Either VCS or Module need to be specified in spec for workspace '' @ ws_Name w)
      else ret ()) (\<lambda>_.
    andThen (set_client (\<lambda>t. t\<lparr>tf_Organization := sp_Organization (Spec w)\<rparr>)) (\<lambda>_.
    andThen CheckOrganization (\<lambda>_.
    andThen (set_client (\<lambda>t. t\<lparr>tf_SecretsMountPath := sp_SecretsMountPath (Spec w)\<rparr>)) (\<lambda>_.
    andThen CheckSecretsMountPath (\<lambda>_. ret (Some w))))))"
  have "yields (\<lambda>x. x \<noteq> None) ?m" by (intro yields_rules) simp
  note ne = yieldsD [OF this]
  from success(2) have "?m E (h @ ev1) t1 = Some (Ok None, t', ev2)" by simp
  from ne [OF this] show ?thesis by simp
next
  case (failure e t1 ev1 ev2)
  then show ?thesis
    by (cases "E h (Kube (Get_Workspace nn))")
      (auto simp: kube_Get_Workspace_def call_Some k8s_IsNotFound_def split: if_splits option.splits)
qed

lemma initialize_answer:
  assumes "initializeReconciliation nn E h t = Some (r, t', ev)"
    and "E h (Kube (Get_Workspace nn)) = Inr (R_Resource w)" and "r = Ok (Some w')"
  shows "w' = w"
  using initialize_reads [OF assms(1)] assms(2) initialize_Ok [OF assms(1) [unfolded assms(3)]] by auto

section \<open>Steps that find nothing to do\<close>

lemma reconcileWorkspace_in_sync:
  assumes "CheckWorkspace (workspace_name w) w E h t = Some (Ok ws, t', ev)"
    and "st_WorkspaceID (Status w) = tw_ID ws"
    and "\<And>run. tw_CurrentRun ws = Some run \<Longrightarrow> st_RunID (Status w) = '''' \<or> st_RunID (Status w) = run_ID run"
    and "workspaceFinalizer \<in> set (om_Finalizers (Meta w))"
  shows "reconcileWorkspace w E h t = Some (Ok w, t', ev)"
  using assms(1,2,4) assms(3)
  by (cases "tw_CurrentRun ws") (auto simp: reconcileWorkspace_def recordWorkspaceID_def adoptRun_def andThen_def ret_def)

lemma notifications_none:
  assumes "validStringID (Some (st_WorkspaceID (Status w)))"
    and "E h (Notifications (Notification_List (st_WorkspaceID (Status w)))) = Inr (R_Notifications [])"
    and "sp_Notifications (Spec w) = []"
  shows "reconcileNotifications w E h t = Some (Ok (), t,
    [(Notifications (Notification_List (st_WorkspaceID (Status w))), Inr (R_Notifications []))])"
  using assms
  by (simp add: reconcileNotifications_def CheckNotifications_def NotificationConfigurations_List_def go_defs Let_def)

end
