(* ===== verification/K8s_Properties.thy ===== *)
theory K8s_Properties
  imports Reconcile_Effects
begin

text \<open>
  What the operator's ConfigMaps and Secrets hold after a step: the rendered configuration, the
  outputs, and where the value of a variable was read from.
\<close>

section \<open>The configuration\<close>

lemma lookup_Some: "lookup_map (Some xs) = map_of xs" and lookup_None: "lookup_map None = Map.empty"
  by (simp_all add: lookup_map_def fun_eq_iff)

lemma put_lookup: "lookup_map (Some (put d k v)) = (lookup_map (Some d))(k \<mapsto> v)"
  by (auto simp: lookup_map_def fun_eq_iff)

text \<open>
  C29. A successful \<open>UpsertTerraformConfig\<close> leaves a ConfigMap of the object's name whose entry
  \<open>terraform\<close> is the template, and returns whether it wrote: a missing map is created with that
  entry alone and owned by the object; an existing one keeps its metadata and all other
  entries.
\<close>

theorem UpsertTerraformConfig_effect:
  assumes "UpsertTerraformConfig w template E h t = Some (Ok b, t', ev)"
  defines "get \<equiv> Kube (Get_ConfigMap \<lparr>nn_Namespace = ws_Namespace w, nn_Name = ws_Name w\<rparr>)"
  shows "case E h get of
      Inl e \<Rightarrow> k8s_IsNotFound e \<and> b \<and>
        (\<exists>c. map fst ev = [get, Kube (Create_ConfigMap c)] \<and>
             lookup_map (cm_Data c) = [''terraform'' \<mapsto> template] \<and>
             om_Name (cm_Meta c) = ws_Name w \<and> om_Namespace (cm_Meta c) = ws_Namespace w \<and>
             controller_ref (Meta w) \<in> set (om_OwnerReferences (cm_Meta c)))
    | Inr x \<Rightarrow> \<exists>c. x = R_ConfigMap c \<and>
        (if (case lookup_map (cm_Data c) ''terraform'' of None \<Rightarrow> '''' | Some s \<Rightarrow> s) = template
         then \<not> b \<and> map fst ev = [get]
         else b \<and> (\<exists>c'. map fst ev = [get, Kube (Update_ConfigMap c')] \<and> cm_Meta c' = cm_Meta c \<and>
              lookup_map (cm_Data c') = (lookup_map (cm_Data c))(''terraform'' \<mapsto> template)))"
  using assms(1) unfolding UpsertTerraformConfig_def Let_def
proof (cases rule: andThen_attempt_OkE)
  case (success c t1 ev1 ev2)
  from success(1) have e: "E h get = Inr (R_ConfigMap c)" and ev1: "map fst ev1 = [get]"
    by (simp_all add: kube_Ok get_def)
  show ?thesis
  proof (cases "(case lookup_map (cm_Data c) ''terraform'' of None \<Rightarrow> '''' | Some s \<Rightarrow> s) = template")
    case True
    with success(2,3) e ev1 show ?thesis by (auto simp: TerraformConfigMap_def)
  next
    case False
    with success(2) obtain d where d: "cm_Data c = Some d" and "andThen (kube_Update_ConfigMap
        (c\<lparr>cm_Data := Some (put d ''terraform'' template)\<rparr>)) (\<lambda>_. ret True) E (h @ ev1) t1 = Some (Ok b, t', ev2)"
      by (auto simp: TerraformConfigMap_def split: option.splits)
    then have "b" "map fst ev2 = [Kube (Update_ConfigMap (c\<lparr>cm_Data := Some (put d ''terraform'' template)\<rparr>))]"
      by (auto elim!: andThen_OkE simp: kube_Update_ConfigMap_def perform_Ok)
    with False success(3) e ev1 d show ?thesis by (auto simp: put_lookup)
  qed
next
  case (failure e t1 ev1 ev2)
  let ?c = "configMapForTerraform (ws_Name w) (ws_Namespace w) template"
  from failure(2) obtain m where nf: "k8s_IsNotFound e" and m: "SetControllerReference (Meta w) (cm_Meta ?c) = Inr m"
    and run: "andThen (kube_Create_ConfigMap (?c\<lparr>cm_Meta := m\<rparr>)) (\<lambda>_. ret True) E (h @ ev1) t1 = Some (Ok b, t', ev2)"
    by (auto split: if_splits sum.splits)
  from failure(1) nf have e: "E h get = Inl e" "map fst ev1 = [get]"
    by (auto simp: kube_Get_ConfigMap_def call_Some get_def k8s_IsNotFound_def split: sum.splits option.splits)
  from run have "b" "map fst ev2 = [Kube (Create_ConfigMap (?c\<lparr>cm_Meta := m\<rparr>))]"
    by (auto elim!: andThen_OkE simp: kube_Create_ConfigMap_def perform_Ok)
  with SetControllerReference_owned [OF m] failure(3) e nf show ?thesis
    by (auto simp: configMapForTerraform_def new_meta_def lookup_map_def TerraformConfigMap_def fun_eq_iff)
qed

text \<open>
  A ConfigMap of the object's name that has no data at all makes \<open>UpsertTerraformConfig\<close>
  panic on a write to a nil map, and nothing else does.
\<close>

lemma UpsertTerraformConfig_panics:
  fixes w :: Workspace
  assumes "template \<noteq> ''''"
  defines "get \<equiv> Kube (Get_ConfigMap \<lparr>nn_Namespace = ws_Namespace w, nn_Name = ws_Name w\<rparr>)"
  shows "(\<exists>s t' ev. UpsertTerraformConfig w template E h t = Some (Panic s, t', ev)) \<longleftrightarrow>
    (\<exists>c. E h get = Inr (R_ConfigMap c) \<and> cm_Data c = None)"
proof (cases "E h get")
  case (Inl e)
  then show ?thesis
    by (auto simp: UpsertTerraformConfig_def kube_Get_ConfigMap_def kube_Create_ConfigMap_def get_def [symmetric]
        go_defs Let_def split: sum.splits option.splits)
next
  case (Inr x)
  show ?thesis
  proof (cases "as_configmap x")
    case None
    with Inr show ?thesis
      by (auto simp: UpsertTerraformConfig_def kube_Get_ConfigMap_def get_def [symmetric] k8s_IsNotFound_def go_defs Let_def)
  next
    case (Some c)
    then have "x = R_ConfigMap c" by (cases x) auto
    with Inr assms(1) show ?thesis
      by (auto simp: UpsertTerraformConfig_def kube_Get_ConfigMap_def kube_Update_ConfigMap_def get_def [symmetric]
          lookup_map_def go_defs Let_def split: sum.splits option.splits)
  qed
qed

section \<open>The value of a variable\<close>

lemma GetConfigMapForVariable_Ok:
  assumes "GetConfigMapForVariable ns v E h t = Some (Ok v', t', ev)"
  shows "t' = t \<and> (if v_Sensitive v \<or> v_Value v \<noteq> '''' then v' = v \<and> ev = []
    else \<exists>src sel c val. v_ValueFrom v = Some src \<and> ConfigMapKeyRef src = Some sel \<and>
      ev = [(Kube (Get_ConfigMap \<lparr>nn_Namespace = ns, nn_Name = sel_Name sel\<rparr>), Inr (R_ConfigMap c))] \<and>
      lookup_map (cm_Data c) (sel_Key sel) = Some val \<and> v' = v\<lparr>v_Value := val\<rparr>)"
proof (cases "v_Sensitive v \<or> v_Value v \<noteq> ''''")
  case True
  with assms show ?thesis by (simp add: GetConfigMapForVariable_def)
next
  case False
  with assms show ?thesis
    unfolding GetConfigMapForVariable_def
    by (auto elim!: andThen_OkE simp: kube_Ok split: option.splits)
qed

lemma GetSecretForVariable_Ok:
  assumes "GetSecretForVariable ns v E h t = Some (Ok v', t', ev)"
  shows "t' = t \<and> (if \<not> v_Sensitive v \<or> v_ValueFrom v = None then v' = v \<and> ev = []
    else \<exists>src sel s val. v_ValueFrom v = Some src \<and> SecretKeyRef src = Some sel \<and>
      ev = [(Kube (Get_Secret \<lparr>nn_Namespace = ns, nn_Name = sel_Name sel\<rparr>), Inr (R_Secret s))] \<and>
      lookup_map (sec_Data s) (sel_Key sel) = Some val \<and> v' = v\<lparr>v_Value := elems val\<rparr>)"
proof (cases "v_ValueFrom v")
  case None
  with assms show ?thesis by (simp add: GetSecretForVariable_def)
next
  case (Some src)
  with assms show ?thesis
    unfolding GetSecretForVariable_def GetSecretData_def
    by (auto elim!: andThen_OkE simp: kube_Ok split: option.splits if_splits)
qed

text \<open>
  C31. Resolving a variable changes its value only, and reads it from one place: a non-sensitive
  variable with an inline value and a sensitive one without a reference are left alone, an
  empty non-sensitive one is read from the referenced key of a ConfigMap, and a sensitive one
  with a reference from the referenced key of a Secret. A sensitive variable never comes from a
  ConfigMap, and no other from a Secret. (The Secret also wins over an inline value of a sensitive
  variable, against the comment of \<open>ValueFrom\<close> in \<open>workspace_types.go\<close>, by which it cannot be used
  if the value is not empty; a non-sensitive variable keeps its inline value.)
\<close>

theorem resolveVariable_source:
  assumes "resolveVariable ns v E h t = Some (Ok v', t', ev)"
  shows "v' = v\<lparr>v_Value := v_Value v'\<rparr> \<and>
    (if \<not> v_Sensitive v \<and> v_Value v = '''' then
       (\<exists>src sel c. v_ValueFrom v = Some src \<and> ConfigMapKeyRef src = Some sel \<and>
          ev = [(Kube (Get_ConfigMap \<lparr>nn_Namespace = ns, nn_Name = sel_Name sel\<rparr>), Inr (R_ConfigMap c))] \<and>
          lookup_map (cm_Data c) (sel_Key sel) = Some (v_Value v'))
     else if v_Sensitive v \<and> v_ValueFrom v \<noteq> None then
       (\<exists>src sel s val. v_ValueFrom v = Some src \<and> SecretKeyRef src = Some sel \<and>
          ev = [(Kube (Get_Secret \<lparr>nn_Namespace = ns, nn_Name = sel_Name sel\<rparr>), Inr (R_Secret s))] \<and>
          lookup_map (sec_Data s) (sel_Key sel) = Some val \<and> v_Value v' = elems val)
     else v' = v \<and> ev = [])"
proof -
  from assms obtain v1 t1 ev1 ev2 where one: "GetConfigMapForVariable ns v E h t = Some (Ok v1, t1, ev1)"
    and two: "GetSecretForVariable ns v1 E (h @ ev1) t1 = Some (Ok v', t', ev2)" and ev: "ev = ev1 @ ev2"
    unfolding resolveVariable_def by (rule andThen_OkE)
  note steps = GetConfigMapForVariable_Ok [OF one] GetSecretForVariable_Ok [OF two]
  show ?thesis
  proof (cases "\<not> v_Sensitive v \<and> v_Value v = ''''")
    case True
    with steps(1) obtain src sel c val where r: "v_ValueFrom v = Some src" "ConfigMapKeyRef src = Some sel"
      "ev1 = [(Kube (Get_ConfigMap \<lparr>nn_Namespace = ns, nn_Name = sel_Name sel\<rparr>), Inr (R_ConfigMap c))]"
      "lookup_map (cm_Data c) (sel_Key sel) = Some val" "v1 = v\<lparr>v_Value := val\<rparr>" by auto
    with steps(2) True have "v' = v1" "ev2 = []" by simp_all
    with r ev True show ?thesis by simp
  next
    case False
    then have v: "v_Sensitive v \<or> v_Value v \<noteq> ''''" by simp
    with steps(1) have "v1 = v" "ev1 = []" by simp_all
    with steps(2) False ev show ?thesis by (cases "v_Sensitive v \<and> v_ValueFrom v \<noteq> None") auto
  qed
qed

section \<open>The outputs\<close>

lemma foldl_put:
  "map_of (foldl (\<lambda>m x. put m (f x) (g x)) m xs) = map_of m ++ map_of (rev (map (\<lambda>x. (f x, g x)) xs))"
  by (induction xs arbitrary: m) (auto simp: map_add_def fun_eq_iff split: option.splits)

text \<open>
  C30. A successful \<open>UpsertSecretOutputs\<close> leaves the Secret \<open><name>-outputs\<close> with exactly the
  outputs, the last one of a key winning: it was created with them and is owned by the
  object, was overwritten, or held them already and nothing was written.
\<close>

theorem UpsertSecretOutputs_effect:
  assumes "UpsertSecretOutputs w outputs E h t = Some (Ok u, t', ev)"
  defines "get \<equiv> Kube (Get_Secret \<lparr>nn_Namespace = ws_Namespace w, nn_Name = ws_Name w @ ''-outputs''\<rparr>)"
    and "want \<equiv> map_of (rev (map (\<lambda>o1. (out_Key o1, Some (out_Value o1))) outputs))"
  shows "\<exists>data. lookup_map (Some data) = want \<and> (case E h get of
      Inl e \<Rightarrow> k8s_IsNotFound e \<and> (\<exists>s. map fst ev = [get, Kube (Create_Secret s)] \<and> sec_Data s = Some data \<and>
        om_Name (sec_Meta s) = ws_Name w @ ''-outputs'' \<and>
        controller_ref (Meta w) \<in> set (om_OwnerReferences (sec_Meta s)))
    | Inr x \<Rightarrow> (\<exists>s. x = R_Secret s \<and>
        (if sec_Data s \<noteq> None \<and> lookup_map (sec_Data s) = want then map fst ev = [get]
         else map fst ev = [get, Kube (Update_Secret (s\<lparr>sec_Data := Some data\<rparr>))])))"
proof -
  define data where "data = foldl (\<lambda>m output. put m (out_Key output) (Some (out_Value output))) [] outputs"
  then have om: "outputsToMap outputs = Some data" by (simp add: outputsToMap_def)
  have want: "lookup_map (Some data) = want"
    by (simp add: data_def lookup_Some foldl_put want_def)
  from assms(1) have "andThen (attempt (kube_Get_Secret \<lparr>nn_Namespace = ws_Namespace w, nn_Name = ws_Name w @ ''-outputs''\<rparr>))
      (\<lambda>res. case res of
         Inl err \<Rightarrow>
           if k8s_IsNotFound err then
             (case SetControllerReference (Meta w) (sec_Meta (secretForOutputs (ws_Name w @ ''-outputs'') (ws_Namespace w) outputs)) of
                Inl e \<Rightarrow> fail e
              | Inr m \<Rightarrow> kube_Create_Secret (secretForOutputs (ws_Name w @ ''-outputs'') (ws_Namespace w) outputs\<lparr>sec_Meta := m\<rparr>))
           else fail err
       | Inr found \<Rightarrow>
            if \<not> deep_equal_map (sec_Data found) (Some data)
            then kube_Update_Secret (found\<lparr>sec_Data := Some data\<rparr>)
            else ret ()) E h t = Some (Ok u, t', ev)"
    unfolding UpsertSecretOutputs_def Let_def om .
  then show ?thesis
  proof (cases rule: andThen_attempt_OkE)
    case (success s t1 ev1 ev2)
    from success(1) have e: "E h get = Inr (R_Secret s)" "map fst ev1 = [get]" by (simp_all add: kube_Ok get_def)
    have same: "deep_equal_map (sec_Data s) (Some data) \<longleftrightarrow> sec_Data s \<noteq> None \<and> lookup_map (sec_Data s) = want"
      by (cases "sec_Data s") (simp_all add: lookup_Some flip: want)
    from success(2,3) e want show ?thesis
      by (intro exI [of _ data]) (auto simp: same kube_Update_Secret_def perform_Ok split: if_splits)
  next
    case (failure e t1 ev1 ev2)
    let ?s = "secretForOutputs (ws_Name w @ ''-outputs'') (ws_Namespace w) outputs"
    from failure(2) obtain m where nf: "k8s_IsNotFound e" and m: "SetControllerReference (Meta w) (sec_Meta ?s) = Inr m"
      and run: "kube_Create_Secret (?s\<lparr>sec_Meta := m\<rparr>) E (h @ ev1) t1 = Some (Ok u, t', ev2)"
      by (auto split: if_splits sum.splits)
    from failure(1) nf have e: "E h get = Inl e" "map fst ev1 = [get]"
      by (auto simp: kube_Get_Secret_def call_Some get_def k8s_IsNotFound_def split: sum.splits option.splits)
    from run have "map fst ev2 = [Kube (Create_Secret (?s\<lparr>sec_Meta := m\<rparr>))]"
      by (auto simp: kube_Create_Secret_def perform_Ok)
    with SetControllerReference_owned [OF m] failure(3) e nf want om show ?thesis
      by (intro exI [of _ data]) (auto simp: secretForOutputs_def new_meta_def)
  qed
qed

section \<open>Examples\<close>

text \<open>A ConfigMap with another entry and an old configuration.\<close>

definition example_map :: "string gomap \<Rightarrow> ConfigMap" where
  "example_map data = \<lparr>cm_Meta = new_meta ''hello'' ''prod'', cm_Data = data\<rparr>"

definition example_key :: request where
  "example_key = Kube (Get_ConfigMap \<lparr>nn_Namespace = ws_Namespace example_workspace, nn_Name = ws_Name example_workspace\<rparr>)"

definition example_update :: trace where
  "example_update = [(example_key, Inr (R_ConfigMap (example_map (Some [(''other'', ''x''), (''terraform'', ''old'')])))),
     (Kube (Update_ConfigMap (example_map (Some [(''other'', ''x''), (''terraform'', ''new'')]))), Inr R_None)]"

definition example_store :: env where
  "example_store = script [Inr (R_ConfigMap (example_map (Some [(''other'', ''x''), (''terraform'', ''old'')])))]"

lemma example_update_run:
  "UpsertTerraformConfig example_workspace ''new'' example_store [] example_client =
     Some (Ok True, example_client, example_update)"
  by (simp add: UpsertTerraformConfig_def kube_Get_ConfigMap_def kube_Update_ConfigMap_def go_defs Let_def
      example_store_def script_def lookup_map_def example_map_def TerraformConfigMap_def example_update_def
      example_key_def)

theorem UpsertTerraformConfig_effect_witness:
  "\<exists>c'. map fst example_update = [example_key, Kube (Update_ConfigMap c')] \<and>
     lookup_map (cm_Data c') = (lookup_map (Some [(''other'', ''x''), (''terraform'', ''old'')]))(''terraform'' \<mapsto> ''new'')"
  using UpsertTerraformConfig_effect [OF example_update_run]
  by (simp add: example_store_def script_def example_key_def example_map_def lookup_Some) (erule exE, rule exI, erule conjE, rule conjI, assumption, simp)

lemma UpsertTerraformConfig_panics_witness:
  "\<exists>s t' ev. UpsertTerraformConfig example_workspace ''new'' (\<lambda>h q. Inr (R_ConfigMap (example_map None))) []
     example_client = Some (Panic s, t', ev)"
  using UpsertTerraformConfig_panics [of "''new''" example_workspace "\<lambda>h q. Inr (R_ConfigMap (example_map None))" "[]" example_client]
  by (simp add: example_map_def)

definition example_secret_variable :: Variable where
  "example_secret_variable = \<lparr>v_Key = ''token'', v_Value = ''inline'',
     v_ValueFrom = Some \<lparr>ConfigMapKeyRef = None, SecretKeyRef = Some \<lparr>sel_Name = ''creds'', sel_Key = ''token''\<rparr>\<rparr>,
     v_HCL = False, v_Sensitive = True, v_EnvironmentVariable = False\<rparr>"

definition example_secret :: Secret where
  "example_secret = \<lparr>sec_Meta = new_meta ''creds'' ''prod'', sec_Data = Some [(''token'', Some ''s3cret'')]\<rparr>"

lemma example_resolve_run:
  "resolveVariable ''prod'' example_secret_variable (\<lambda>h q. Inr (R_Secret example_secret)) [] example_client =
     Some (Ok (example_secret_variable\<lparr>v_Value := ''s3cret''\<rparr>), example_client,
       [(Kube (Get_Secret \<lparr>nn_Namespace = ''prod'', nn_Name = ''creds''\<rparr>), Inr (R_Secret example_secret))])"
  by (simp add: resolveVariable_def GetConfigMapForVariable_def GetSecretForVariable_def GetSecretData_def
      kube_Get_Secret_def go_defs Let_def lookup_map_def example_secret_variable_def example_secret_def)

theorem resolveVariable_source_witness:
  "\<exists>(src :: EnvVarSource) (sel :: KeySelector) (s :: Secret) val.
     v_ValueFrom example_secret_variable = Some src \<and> SecretKeyRef src = Some sel \<and>
     lookup_map (sec_Data s) (sel_Key sel) = Some val \<and> ''s3cret'' = elems val"
  using resolveVariable_source [OF example_resolve_run]
  by (simp add: example_secret_variable_def) blast

definition example_outputs_key :: request where
  "example_outputs_key = Kube (Get_Secret \<lparr>nn_Namespace = ws_Namespace example_workspace,
     nn_Name = ws_Name example_workspace @ ''-outputs''\<rparr>)"

definition example_output :: "OutputStatus list" where
  "example_output = [\<lparr>out_Key = ''ip'', out_Value = ''10.0.0.1''\<rparr>]"

lemma example_outputs_run:
  "UpsertSecretOutputs example_workspace example_output (\<lambda>h q. Inr (R_Secret example_secret)) [] example_client =
     Some (Ok (), example_client, [(example_outputs_key, Inr (R_Secret example_secret)),
       (Kube (Update_Secret (example_secret\<lparr>sec_Data := Some [(''ip'', Some ''10.0.0.1'')]\<rparr>)),
        Inr (R_Secret example_secret))])"
proof -
  have "(\<lambda>x. if x = ''token'' then Some a else None) \<noteq> (\<lambda>x. if x = ''ip'' then Some b else None)" for a b :: bytes
    by (auto simp: fun_eq_iff)
  then have "\<not> deep_equal_map (sec_Data example_secret) (outputsToMap example_output)"
    by (simp add: example_secret_def outputsToMap_def example_output_def fun_upd_def)
  then show ?thesis
    by (simp add: UpsertSecretOutputs_def kube_Get_Secret_def kube_Update_Secret_def example_outputs_key_def go_defs Let_def)
      (simp add: outputsToMap_def example_output_def)
qed

theorem UpsertSecretOutputs_effect_witness:
  "\<exists>data. lookup_map (Some data) = [''ip'' \<mapsto> Some ''10.0.0.1'']"
  using UpsertSecretOutputs_effect [OF example_outputs_run] by (auto simp: example_output_def)

end
