(* ===== verification/Variables_Converge.thy ===== *)
theory Variables_Converge
  imports Variables_Sync
begin

text \<open>
  The synchronisation of variables in a closed loop with the service: a service that does what it
  is asked, and that a second synchronisation finds nothing to do.
\<close>

section \<open>A service\<close>

text \<open>
  The variables of workspace \<open>w\<close> after a request that succeeded, as the documentation of the workspace variables
  API has it: a created variable gets a new identity, an update writes the given fields, a deleted one is gone, and
  the value of a sensitive variable is written once and not visible thereafter. \<open>fresh\<close> is how the
  service chooses identities.
\<close>

definition hidden :: "bool \<Rightarrow> string \<Rightarrow> string" where
  "hidden sensitive val = (if sensitive then '''' else val)"

definition the_or :: "'a \<Rightarrow> 'a option \<Rightarrow> 'a" where
  "the_or d x = (case x of None \<Rightarrow> d | Some y \<Rightarrow> y)"

definition created_variable :: "string \<Rightarrow> string \<Rightarrow> VariableCreateOptions \<Rightarrow> tfc_Variable" where
  "created_variable w ident c = \<lparr>tv_ID = ident, tv_Key = the_or '''' (vco_Key c),
     tv_Value = hidden (the_or False (vco_Sensitive c)) (the_or '''' (vco_Value c)),
     tv_Category = the_or ''terraform'' (vco_Category c), tv_HCL = the_or False (vco_HCL c),
     tv_Sensitive = the_or False (vco_Sensitive c), tv_Workspace = Some (new_tfc_Workspace w)\<rparr>"

definition updated_variable :: "VariableUpdateOptions \<Rightarrow> tfc_Variable \<Rightarrow> tfc_Variable" where
  "updated_variable u v = v\<lparr>tv_Key := the_or (tv_Key v) (vuo_Key u),
     tv_Value := hidden (the_or (tv_Sensitive v) (vuo_Sensitive u)) (the_or (tv_Value v) (vuo_Value u)),
     tv_HCL := the_or (tv_HCL v) (vuo_HCL u), tv_Sensitive := the_or (tv_Sensitive v) (vuo_Sensitive u)\<rparr>"

fun variable_step :: "(string list \<Rightarrow> string) \<Rightarrow> string \<Rightarrow> event \<Rightarrow> tfc_Variable list \<Rightarrow> tfc_Variable list" where
  "variable_step fresh w (Variables (Variable_Create x c), Inr a) vs =
     (if x = w then vs @ [created_variable w (fresh (map tv_ID vs)) c] else vs)"
| "variable_step fresh w (Variables (Variable_Update x i u), Inr a) vs =
     (if x = w then map (\<lambda>v. if tv_ID v = i then updated_variable u v else v) vs else vs)"
| "variable_step fresh w (Variables (Variable_Delete x i), Inr a) vs =
     (if x = w then filter (\<lambda>v. tv_ID v \<noteq> i) vs else vs)"
| "variable_step fresh w e vs = vs"

definition variables_after ::
  "(string list \<Rightarrow> string) \<Rightarrow> string \<Rightarrow> tfc_Variable list \<Rightarrow> trace \<Rightarrow> tfc_Variable list" where
  "variables_after fresh w vs h = fold (variable_step fresh w) h vs"

text \<open>
  The service: when it answers a read of a workspace by its name it is \<open>w\<close>, and when it answers a list
  request the variables are those that the requests of the history leave. This assumes that nobody else
  writes the variables of the workspace and that all of them fit on the one page that is asked for. Any
  request may be refused, at any time. New identities are not in use.
\<close>

definition serves_variables ::
  "env \<Rightarrow> (string list \<Rightarrow> string) \<Rightarrow> string \<Rightarrow> tfc_Variable list \<Rightarrow> bool" where
  "serves_variables E fresh w vs \<longleftrightarrow>
     (\<forall>is. fresh is \<notin> set is) \<and>
     (\<forall>h o1 n ws. E h (Workspaces (Workspace_Read o1 n)) = Inr (R_Workspace ws) \<longrightarrow> tw_ID ws = w) \<and>
     (\<forall>h n rs. E h (Variables (Variable_List w n)) = Inr (R_Variables rs) \<longrightarrow> rs = variables_after fresh w vs h)"

text \<open>What the service keeps of its variables: one per key and identity, all of workspace \<open>w\<close>.\<close>

definition variables_wf :: "string \<Rightarrow> tfc_Variable list \<Rightarrow> bool" where
  "variables_wf w vs \<longleftrightarrow> distinct (map tv_ID vs) \<and> distinct (map tv_Key vs) \<and>
     (\<forall>v \<in> set vs. \<exists>x. tv_Workspace v = Some x \<and> tw_ID x = w)"

lemma variables_after_append:
  "variables_after fresh w vs (h @ h') = variables_after fresh w (variables_after fresh w vs h) h'"
  by (simp add: variables_after_def)

section \<open>The effect of each step\<close>

lemma no_writes_effect:
  assumes "emits (\<lambda>q. variable_delete q = None \<and> variable_create q = None \<and> variable_update q = None) m"
    and "m E h t = Some (r, t', ev)"
  shows "variables_after fresh w vs ev = vs"
proof -
  have "variable_step fresh w e vs = vs"
    if "variable_delete (fst e) = None \<and> variable_create (fst e) = None \<and> variable_update (fst e) = None" for e vs
    using that by (cases "(fresh, w, e, vs)" rule: variable_step.cases) auto
  moreover note emitsD [OF assms]
  ultimately show ?thesis unfolding variables_after_def by (induction ev) auto
qed

text \<open>A loop whose elements each change the variables by a function of the element.\<close>

lemma each_effect:
  assumes "each f xs E h t = Some (Ok u, t', ev)"
    and "\<And>x h t t' ev vs. x \<in> set xs \<Longrightarrow> f x E h t = Some (Ok (), t', ev) \<Longrightarrow>
      variables_after fresh w vs ev = g x vs"
  shows "variables_after fresh w vs ev = fold g xs vs"
  using assms
proof (induction xs arbitrary: h t ev vs)
  case (Cons x xs)
  from Cons.prems(1) obtain t1 ev1 ev2 where x: "f x E h t = Some (Ok (), t1, ev1)"
    and xs: "each f xs E (h @ ev1) t1 = Some (Ok u, t', ev2)" and ev: "ev = ev1 @ ev2"
    by (auto elim!: andThen_OkE)
  from Cons.prems(2) [OF _ x] have "variables_after fresh w vs ev1 = g x vs" by simp
  moreover from Cons.IH [OF xs] Cons.prems(2)
  have "variables_after fresh w (g x vs) ev2 = fold g xs (g x vs)" by simp
  ultimately show ?case by (simp add: ev variables_after_append)
qed (simp add: variables_after_def)

definition in_workspace :: "string \<Rightarrow> tfc_Variable \<Rightarrow> bool" where
  "in_workspace w v \<longleftrightarrow> (\<exists>x. tv_Workspace v = Some x \<and> tw_ID x = w)"

lemma deletes_effect:
  assumes "deleteVariablesFromTFC spec remote E h t = Some (Ok u, t', ev)"
    and "list_all (in_workspace w) remote"
  shows "variables_after fresh w vs ev = filter (\<lambda>r. tv_ID r \<notin> tv_ID ` set (vs.extras spec remote)) vs"
proof -
  from assms(1) have "each DeleteVariable (vs.extras spec remote) E h t = Some (Ok u, t', ev)"
    by (simp add: deleteVariablesFromTFC_def each_filter vs.extras_def)
  then have "variables_after fresh w vs ev =
      fold (\<lambda>v. filter (\<lambda>r. tv_ID r \<noteq> tv_ID v)) (vs.extras spec remote) vs"
  proof (rule each_effect)
    fix v h t t' ev us
    assume "v \<in> set (vs.extras spec remote)" and run: "DeleteVariable v E h t = Some (Ok (), t', ev)"
    then have "in_workspace w v" using assms(2) by (auto simp: vs.extras_def list_all_iff)
    with run show "variables_after fresh w us ev = filter (\<lambda>r. tv_ID r \<noteq> tv_ID v) us"
      by (auto simp: in_workspace_def DeleteVariable_def Variables_Delete_def require_Ok perform_Ok variables_after_def)
  qed
  also have "fold (\<lambda>v. filter (\<lambda>r. tv_ID r \<noteq> tv_ID v)) xs us = filter (\<lambda>r. tv_ID r \<notin> tv_ID ` set xs) us" for xs us
    by (induction xs arbitrary: us) (auto intro: filter_cong)
  finally show ?thesis .
qed

text \<open>The update of one variable, and of a list of them.\<close>

definition update_at :: "tfc_Variable \<Rightarrow> tfc_Variable \<Rightarrow> tfc_Variable" where
  "update_at u r = (if tv_ID r = tv_ID u then updated_variable (update_options u) r else r)"

lemma updates_effect:
  assumes "UpdateTerraformVariables us E h t = Some (Ok u, t', ev)" and "list_all (in_workspace w) us"
  shows "variables_after fresh w vs ev = map (fold update_at us) vs"
proof -
  from assms(1) have "each (\<lambda>v. case tv_Workspace v of None \<Rightarrow> panic ''nil pointer dereference''
    | Some x \<Rightarrow> Variables_Update (tw_ID x) (tv_ID v) (update_options v)) us E h t = Some (Ok u, t', ev)"
    by (auto simp: UpdateTerraformVariables_def split: if_splits)
  then have "variables_after fresh w vs ev = fold (\<lambda>u. map (update_at u)) us vs"
  proof (rule each_effect)
    fix v h t t' ev rs
    assume "v \<in> set us" and run: "(case tv_Workspace v of None \<Rightarrow> panic ''nil pointer dereference''
      | Some x \<Rightarrow> Variables_Update (tw_ID x) (tv_ID v) (update_options v)) E h t = Some (Ok (), t', ev)"
    then have "in_workspace w v" using assms(2) by (auto simp: list_all_iff)
    with run show "variables_after fresh w rs ev = map (update_at v) rs"
      by (auto simp: in_workspace_def Variables_Update_def require_Ok perform_Ok variables_after_def update_at_def)
  qed
  also have "fold (\<lambda>u. map (update_at u)) us rs = map (fold update_at us) rs" for rs
    by (induction us arbitrary: rs) simp_all
  finally show ?thesis .
qed

text \<open>What a created variable has of the one it was created for.\<close>

definition made_for :: "tfc_Variable \<Rightarrow> tfc_Variable \<Rightarrow> bool" where
  "made_for n v \<longleftrightarrow> tv_Key n = tv_Key v \<and> tv_HCL n = tv_HCL v \<and> tv_Sensitive n = tv_Sensitive v \<and>
     (\<not> tv_Sensitive v \<longrightarrow> tv_Value n = tv_Value v)"

lemma create_effect:
  assumes "CreateTerraformVariable x v E h t = Some (Ok u, t', ev)" and "tw_ID x = w"
  shows "\<exists>n. variables_after fresh w vs ev = vs @ [n] \<and> made_for n v \<and> tv_ID n = fresh (map tv_ID vs)"
  using assms
  by (auto simp: CreateTerraformVariable_def checkAndRetrieveIfSensitive_def attempt_Some call_Ok call_Some
      Variables_Create_def require_Ok check_options_Ok perform_Ok variables_after_def created_variable_def
      made_for_def the_or_def hidden_def elim!: andThen_OkE split: if_splits sum.splits)

lemma creates_effect:
  assumes "each (CreateTerraformVariable x) xs E h t = Some (Ok u, t', ev)" and "tw_ID x = w"
    and "\<And>is. fresh is \<notin> set is"
  shows "\<exists>ns. variables_after fresh w vs ev = vs @ ns \<and> list_all2 made_for ns xs \<and>
    tv_ID ` set ns \<inter> tv_ID ` set vs = {}"
  using assms(1)
proof (induction xs arbitrary: h t ev vs)
  case (Cons v xs)
  then obtain t1 ev1 ev2 where v: "CreateTerraformVariable x v E h t = Some (Ok (), t1, ev1)"
    and xs: "each (CreateTerraformVariable x) xs E (h @ ev1) t1 = Some (Ok u, t', ev2)" and ev: "ev = ev1 @ ev2"
    by (auto elim!: andThen_OkE)
  from create_effect [OF v assms(2)] obtain n where n: "variables_after fresh w vs ev1 = vs @ [n]"
    "made_for n v" "tv_ID n = fresh (map tv_ID vs)" by blast
  from Cons.IH [OF xs, of "vs @ [n]"] obtain ns where
    "variables_after fresh w (vs @ [n]) ev2 = (vs @ [n]) @ ns" "list_all2 made_for ns xs"
    "tv_ID ` set ns \<inter> tv_ID ` set (vs @ [n]) = {}" by blast
  with n assms(3) [of "map tv_ID vs"] show ?case
    by (intro exI [of _ "n # ns"]) (auto simp: ev variables_after_append)
qed (simp add: variables_after_def)

section \<open>After a synchronisation\<close>

text \<open>
  Settled: the variables have the keys of the spec, and none that is readable differs from the
  spec's in the way that asks for an update.
\<close>

definition settled_variables :: "tfc_Variable list \<Rightarrow> tfc_Variable list \<Rightarrow> bool" where
  "settled_variables spec rs \<longleftrightarrow> tv_Key ` set rs = tv_Key ` set spec \<and>
     (\<forall>v \<in> set spec. \<forall>r \<in> set rs. tv_Key r = tv_Key v \<longrightarrow> tv_Sensitive r \<or> \<not> checkIfVariableChanged v r)"

lemma update_at_fields [simp]: "tv_ID (update_at u r) = tv_ID r"
  by (simp add: update_at_def updated_variable_def)

lemma update_at_other: "tv_ID u \<noteq> tv_ID r \<Longrightarrow> update_at u r = r"
  by (simp add: update_at_def)

lemma update_at_twice: "tv_ID u = tv_ID r \<Longrightarrow> update_at u (update_at u' r) = update_at u r"
  by (simp add: update_at_def updated_variable_def update_options_def the_or_def hidden_def)

text \<open>Of several updates the last one of the variable counts.\<close>

lemma fold_update_at:
  "fold update_at us r = r \<and> tv_ID r \<notin> tv_ID ` set us \<or>
   (\<exists>u \<in> set us. tv_ID u = tv_ID r \<and> fold update_at us r = update_at u r)"
proof (induction us arbitrary: r)
  case (Cons a us)
  from Cons.IH [of "update_at a r"] show ?case
  proof (elim disjE conjE bexE)
    assume "fold update_at us (update_at a r) = update_at a r" "tv_ID (update_at a r) \<notin> tv_ID ` set us"
    then show ?case by (cases "tv_ID a = tv_ID r") (auto simp: update_at_other)
  next
    fix u assume "u \<in> set us" "tv_ID u = tv_ID (update_at a r)"
      "fold update_at us (update_at a r) = update_at u (update_at a r)"
    then show ?case by (intro disjI2 bexI [of _ u]) (auto simp: update_at_twice)
  qed
qed simp

text \<open>The update that \<open>generateUpdateVariableList\<close> makes for \<open>v\<close>, where the remote one is \<open>r\<close>.\<close>

definition update_for :: "tfc_Variable \<Rightarrow> tfc_Variable \<Rightarrow> tfc_Variable \<Rightarrow> bool" where
  "update_for u v r \<longleftrightarrow> tv_Key u = tv_Key v \<and> tv_HCL u = tv_HCL v \<and> tv_ID u = tv_ID r \<and>
     (tv_Sensitive r \<longrightarrow> tv_Sensitive u) \<and>
     (\<not> tv_Sensitive r \<longrightarrow> tv_Value u = tv_Value v \<and> tv_Sensitive u = tv_Sensitive v)"

lemma update_for_settles:
  assumes "update_for u v r"
  shows "tv_Key (update_at u r) = tv_Key v"
    and "tv_Sensitive (update_at u r) \<or> \<not> checkIfVariableChanged v (update_at u r)"
  using assms
  by (auto simp: update_for_def update_at_def updated_variable_def update_options_def the_or_def hidden_def
      checkIfVariableChanged_iff)

lemma made_for_settles: "made_for n v \<Longrightarrow> tv_Sensitive n \<or> \<not> checkIfVariableChanged v n"
  by (auto simp: made_for_def checkIfVariableChanged_iff)

lemma distinct_key_eq:
  "distinct (map f xs) \<Longrightarrow> x \<in> set xs \<Longrightarrow> y \<in> set xs \<Longrightarrow> f x = f y \<Longrightarrow> x = y"
  by (auto simp: distinct_map dest: inj_onD)

text \<open>The variables after the three steps: those kept, those created, and the updates of some of them.\<close>

text \<open>The variables that are kept and created have exactly the keys of the spec.\<close>

lemma kept_and_made_keys:
  assumes kept: "set kept = {r \<in> set remote. tv_Key r \<in> tv_Key ` set spec}"
    and made: "list_all2 made_for ns (filter (\<lambda>v. tv_Key v \<notin> tv_Key ` set remote) spec)"
  shows "tv_Key ` set (kept @ ns) = tv_Key ` set spec"
proof -
  have "map tv_Key ns = map tv_Key (filter (\<lambda>v. tv_Key v \<notin> tv_Key ` set remote) spec)"
    using made by (induction rule: list_all2_induct) (simp_all add: made_for_def)
  then have "tv_Key ` set ns = tv_Key ` {v \<in> set spec. tv_Key v \<notin> tv_Key ` set remote}"
    by (metis list.set_map set_filter)
  moreover have "tv_Key ` set kept = tv_Key ` set remote \<inter> tv_Key ` set spec"
    using kept by auto
  ultimately show ?thesis unfolding set_append image_Un by auto
qed

text \<open>A variable that no update addresses is already as the spec wants it.\<close>

lemma untouched_settled:
  assumes keys: "distinct (map tv_Key remote)"
    and kept: "set kept = {r \<in> set remote. tv_Key r \<in> tv_Key ` set spec}"
    and made: "list_all2 made_for ns (filter (\<lambda>v. tv_Key v \<notin> tv_Key ` set remote) spec)"
    and us: "\<And>v. v \<in> set spec \<Longrightarrow> to_update remote v \<Longrightarrow> tv_ID (remote_of remote v) \<in> tv_ID ` set us"
    and r: "r \<in> set (kept @ ns)" and no: "tv_ID r \<notin> tv_ID ` set us"
  shows "\<exists>v \<in> set spec. tv_Key r = tv_Key v \<and> (tv_Sensitive r \<or> \<not> checkIfVariableChanged v r)"
proof (cases "r \<in> set ns")
  case True
  with list_all2_setD [OF made] made_for_settles show ?thesis by (fastforce simp: made_for_def)
next
  case False
  with r kept obtain v where v: "v \<in> set spec" "tv_Key r = tv_Key v" and rr: "r \<in> set remote" by auto
  then have f: "0 \<le> find remote (tv_Key v)" using vs.search_neg by (metis imageI not_le)
  from remote_of_in [OF f] distinct_key_eq [OF keys] rr v have "remote_of remote v = r" by metis
  with us [OF v(1)] no f have "tv_Sensitive r \<or> \<not> checkIfVariableChanged v r" by (auto simp: to_update_def)
  with v show ?thesis by blast
qed

lemma three_steps_settle:
  assumes keys: "distinct (map tv_Key spec)" "distinct (map tv_Key remote)" and ids: "distinct (map tv_ID remote)"
    and kept: "set kept = {r \<in> set remote. tv_Key r \<in> tv_Key ` set spec}"
    and made: "list_all2 made_for ns (filter (\<lambda>v. tv_Key v \<notin> tv_Key ` set remote) spec)"
      "tv_ID ` set ns \<inter> tv_ID ` set kept = {}"
    and us: "\<And>u. u \<in> set us \<Longrightarrow> \<exists>v \<in> set spec. 0 \<le> find remote (tv_Key v) \<and> update_for u v (remote_of remote v)"
      "\<And>v. v \<in> set spec \<Longrightarrow> to_update remote v \<Longrightarrow> tv_ID (remote_of remote v) \<in> tv_ID ` set us"
  shows "settled_variables spec (map (fold update_at us) (kept @ ns))"
proof -
  have source: "\<exists>v \<in> set spec. r \<in> set kept \<and> update_for u v r" if u: "u \<in> set us" and r: "r \<in> set (kept @ ns)"
    and eq: "tv_ID u = tv_ID r" for u r
  proof -
    from us(1) [OF u] obtain v where v: "v \<in> set spec" "0 \<le> find remote (tv_Key v)"
      "update_for u v (remote_of remote v)" by blast
    note m = remote_of_in [OF v(2)]
    with v kept have k: "remote_of remote v \<in> set kept" by auto
    from v(3) eq have id: "tv_ID (remote_of remote v) = tv_ID r" by (simp add: update_for_def)
    with k made(2) r have "r \<in> set kept" by (auto 0 3)
    with kept m(1) id distinct_key_eq [OF ids] have "r = remote_of remote v" by blast
    with v k show ?thesis by auto
  qed
  have own: "\<exists>v \<in> set spec. tv_Key r = tv_Key v \<and> (tv_Sensitive r \<or> \<not> checkIfVariableChanged v r)"
    if "r \<in> set (kept @ ns)" "tv_ID r \<notin> tv_ID ` set us" for r
    by (rule untouched_settled [OF keys(2) kept made(1) us(2) that])
  have each: "\<exists>v \<in> set spec. tv_Key r = tv_Key v \<and> tv_Key (fold update_at us r) = tv_Key v \<and>
      (tv_Sensitive (fold update_at us r) \<or> \<not> checkIfVariableChanged v (fold update_at us r))"
    if r: "r \<in> set (kept @ ns)" for r
    using fold_update_at [of us r]
  proof (elim disjE conjE bexE)
    fix u assume u: "u \<in> set us" "tv_ID u = tv_ID r" and f: "fold update_at us r = update_at u r"
    from source [OF u(1) r u(2)] obtain v where v: "v \<in> set spec" "r \<in> set kept" "update_for u v r" by blast
    from us(1) [OF u(1)] obtain v' where v': "v' \<in> set spec" "0 \<le> find remote (tv_Key v')"
      "update_for u v' (remote_of remote v')" by blast
    from v(3) v'(3) keys(1) v(1) v'(1) have "v' = v" by (auto simp: update_for_def dest: distinct_key_eq)
    with v' v kept ids remote_of_in have "tv_Key r = tv_Key v" by (metis (mono_tags, lifting) distinct_key_eq mem_Collect_eq update_for_def)
    with v(1) f update_for_settles [OF v(3)] show ?thesis by (intro bexI [of _ v]) simp_all
  qed (use own [OF r] in auto)
  have "tv_Key ` set (map (fold update_at us) (kept @ ns)) = tv_Key ` set (kept @ ns)"
    unfolding list.set_map image_image by (rule image_cong) (use each in fastforce)+
  also note kept_and_made_keys [OF kept made(1)]
  finally have all: "tv_Key ` set (map (fold update_at us) (kept @ ns)) = tv_Key ` set spec" .
  show ?thesis
    unfolding settled_variables_def
  proof (intro conjI ballI impI)
    fix v r assume v: "v \<in> set spec" and "r \<in> set (map (fold update_at us) (kept @ ns))" and k: "tv_Key r = tv_Key v"
    with each obtain v' where "v' \<in> set spec" "tv_Key r = tv_Key v'" "tv_Sensitive r \<or> \<not> checkIfVariableChanged v' r"
      by fastforce
    with v k distinct_key_eq [OF keys(1)] show "tv_Sensitive r \<or> \<not> checkIfVariableChanged v r" by metis
  qed (use all in simp)
qed

section \<open>The closed loop\<close>

lemma wf_in_workspace: "variables_wf w vs \<Longrightarrow> list_all (in_workspace w) vs"
  by (simp add: variables_wf_def in_workspace_def list_all_iff)

lemma CheckVariables_reads:
  assumes "CheckVariables name spec E h t = Some (Ok b, t', ev)"
    and "ev = (q1, Inr (R_Workspace x)) # (q2, Inr (R_Variables remote)) # rest"
  shows "E h (Workspaces (Workspace_Read (tf_Organization t) name)) = Inr (R_Workspace x)"
    and "E (h @ [(q1, Inr (R_Workspace x))]) (Variables (Variable_List (tw_ID x) PageSize)) = Inr (R_Variables remote)"
proof -
  from assms(1) obtain y t1 t2 ev1 ev2 r1 ev3 where
    1: "Workspaces_Read (tf_Organization t) name E h t = Some (Ok y, t1, ev1)"
    and 2: "listVariables (tw_ID y) E (h @ ev1) t1 = Some (Ok r1, t2, ev2)" and ev: "ev = ev1 @ ev2 @ ev3"
    unfolding CheckVariables_def by (auto elim!: andThen_OkE split del: if_split)
  from 1 have y: "ev1 = [(Workspaces (Workspace_Read (tf_Organization t) name), Inr (R_Workspace y))]"
    "E h (Workspaces (Workspace_Read (tf_Organization t) name)) = Inr (R_Workspace y)"
    by (auto simp: Workspaces_Read_def require_Ok call_Ok elim!: as_workspace.elims)
  from 2 have r: "ev2 = [(Variables (Variable_List (tw_ID y) PageSize), Inr (R_Variables r1))]"
    "E (h @ ev1) (Variables (Variable_List (tw_ID y) PageSize)) = Inr (R_Variables r1)"
    by (auto simp: listVariables_def Variables_List_def require_Ok call_Ok elim!: as_variables.elims)
  from ev y(1) r(1) assms(2) have "x = y" "remote = r1" "ev1 = [(q1, Inr (R_Workspace x))]" by simp_all
  with y(2) r(2) show "E h (Workspaces (Workspace_Read (tf_Organization t) name)) = Inr (R_Workspace x)"
    "E (h @ [(q1, Inr (R_Workspace x))]) (Variables (Variable_List (tw_ID x) PageSize)) = Inr (R_Variables remote)"
    by simp_all
qed

lemma generateUpdate_plan:
  assumes "generateUpdateVariableList spec remote path E h t = Some (Ok us, t', ev)"
  shows "u \<in> set us \<Longrightarrow> \<exists>v \<in> set spec. 0 \<le> find remote (tv_Key v) \<and> update_for u v (remote_of remote v)"
    and "v \<in> set spec \<Longrightarrow> to_update remote v \<Longrightarrow> tv_ID (remote_of remote v) \<in> tv_ID ` set us"
    and "list_all (in_workspace w) remote \<Longrightarrow> list_all (in_workspace w) us"
proof -
  note plan = generateUpdate_Ok [OF assms]
  show "u \<in> set us \<Longrightarrow> \<exists>v \<in> set spec. 0 \<le> find remote (tv_Key v) \<and> update_for u v (remote_of remote v)"
    using plan(3) [of u] unfolding update_for_def by blast
  show "tv_ID (remote_of remote v) \<in> tv_ID ` set us" if v: "v \<in> set spec" "to_update remote v"
  proof -
    from v plan(1) have "us \<noteq> []" by (auto simp: filter_empty_conv)
    from plan(2) [OF this, THEN arg_cong, of set] v
    have "(tv_Key v, tv_ID (remote_of remote v), tv_Workspace (remote_of remote v)) \<in>
        set (map (\<lambda>u. (tv_Key u, tv_ID u, tv_Workspace u)) us)" by auto
    then show ?thesis by auto
  qed
  show "list_all (in_workspace w) us" if "list_all (in_workspace w) remote"
    unfolding list_all_iff
  proof
    fix u assume "u \<in> set us"
    from plan(3) [OF this] obtain v where "tv_Workspace u = tv_Workspace (remote_of remote v)"
      "0 \<le> find remote (tv_Key v)" by blast
    with that remote_of_in(1) show "in_workspace w u" by (auto simp: list_all_iff in_workspace_def)
  qed
qed

lemma CheckVariables_settles:
  assumes serves: "serves_variables E fresh w vs0"
    and wf: "variables_wf w (variables_after fresh w vs0 h)" and spec: "distinct (map tv_Key spec)"
    and run: "CheckVariables name spec E h t = Some (Ok b, t', ev)"
  shows "settled_variables spec (variables_after fresh w vs0 (h @ ev))"
  using run
proof (cases rule: CheckVariables_OkE)
  case (1 x remote us ev1 ev2 ev3 ev4 h1 h2 h3 h4 t1 t2 t3 t4 x1 x2 cb)
  let ?read = "(Workspaces (Workspace_Read (tf_Organization t) name), Inr (R_Workspace x))"
    and ?list = "(Variables (Variable_List (tw_ID x) PageSize), Inr (R_Variables remote))"
  note reads = CheckVariables_reads [OF run 1(1)]
  from serves reads(1) have x: "tw_ID x = w" unfolding serves_variables_def by blast
  with serves reads(2) have "remote = variables_after fresh w vs0 (h @ [?read])"
    unfolding serves_variables_def by blast
  then have remote: "remote = variables_after fresh w vs0 h" by (simp add: variables_after_def)
  from wf have ids: "distinct (map tv_ID remote)" and keys: "distinct (map tv_Key remote)"
    and ws: "list_all (in_workspace w) remote" by (simp_all add: remote variables_wf_def wf_in_workspace)
  let ?kept = "variables_after fresh w remote ev1"
  note kept = deletes_effect [OF 1(2) ws, of fresh remote]
  have set_kept: "set ?kept = {r \<in> set remote. tv_Key r \<in> tv_Key ` set spec}"
    using distinct_key_eq [OF ids] by (auto simp: kept key_filters)
  from 1(3) have "each (CreateTerraformVariable x) (vs.missing spec remote) E h2 t1 = Some (Ok (), t2, ev2)"
    by (auto simp: createVariablesOnTFC_def each_filter vs.missing_def elim!: andThen_OkE)
  note made = creates_effect [OF this x]
  from serves have "\<And>is. fresh is \<notin> set is" by (simp add: serves_variables_def)
  from made [OF this, of ?kept] obtain ns where ns: "variables_after fresh w ?kept ev2 = ?kept @ ns"
    "list_all2 made_for ns (filter (\<lambda>v. tv_Key v \<notin> tv_Key ` set remote) spec)"
    "tv_ID ` set ns \<inter> tv_ID ` set ?kept = {}"
    unfolding key_filters by blast
  have "emits (\<lambda>q. variable_delete q = None \<and> variable_create q = None \<and> variable_update q = None)
      (generateUpdateVariableList spec remote (tf_SecretsMountPath t))" by (intro emits_rules) simp
  note same = no_writes_effect [OF this 1(4)]
  note plan = generateUpdate_plan [OF 1(4)]
  from 1(5) have us: "variables_after fresh w rs ev4 = map (fold update_at us) rs" for rs
    using updates_effect [OF _ plan(3) [OF ws]] by (auto simp: variables_after_def)
  have "variables_after fresh w rs [?read, ?list] = rs" for rs by (simp add: variables_after_def)
  moreover have "h @ ev = h @ [?read, ?list] @ ev1 @ ev2 @ ev3 @ ev4" using 1(1) by simp
  ultimately have "variables_after fresh w vs0 (h @ ev) = map (fold update_at us) (?kept @ ns)"
    by (simp only: variables_after_append remote [symmetric] same us ns(1))
  with three_steps_settle [OF spec keys ids set_kept ns(2,3) plan(1,2)] show ?thesis by simp
qed


text \<open>
  C23. Variables are matched by key alone, although the service tells an environment variable from a Terraform variable of
  the same key. A spec with both and different values is never in sync: whatever variables of that key the workspace
  has, if they are readable, every successful synchronisation sends an update and reports a change again.
\<close>

theorem same_key_never_settles:
  assumes "CheckVariables name spec E h t = Some (Ok b, t', ev)"
    and "v1 \<in> set spec" "v2 \<in> set spec" "tv_Key v1 = tv_Key v2" "tv_Value v1 \<noteq> tv_Value v2"
    and "snd (ev ! 1) = Inr (R_Variables remote)" "tv_Key v1 \<in> tv_Key ` set remote"
    and "\<And>r. r \<in> set remote \<Longrightarrow> tv_Key r = tv_Key v1 \<Longrightarrow> \<not> tv_Sensitive r"
  shows "b \<and> sent variable_update ev \<noteq> []"
proof -
  from CheckVariables_writes [OF assms(1)] assms(6) obtain rest where
    rest: "\<exists>q1 a1 q2 a2. ev = (q1, a1) # (q2, a2) # rest" and b: "b \<longleftrightarrow> (\<exists>v \<in> set spec. to_update remote v)"
    and sent: "map update_key (sent variable_update rest) =
      (if b then map (\<lambda>v. (tv_ID (remote_of remote v), Some (tv_Key v)))
         (filter (to_update remote) spec @ filter (to_rewrite remote) spec) else [])" by auto
  from assms(7) have found: "0 \<le> find remote (tv_Key v1)" using vs.search_neg [of remote "tv_Key v1"] by linarith
  with remote_of_in [of remote v1] assms(8) have "\<not> tv_Sensitive (remote_of remote v1)" by blast
  moreover have "remote_of remote v2 = remote_of remote v1" using assms(4) by (simp add: remote_of_def)
  ultimately have "to_update remote v1 \<or> to_update remote v2"
    using found assms(4,5) by (auto simp: to_update_def checkIfVariableChanged_iff)
  with b assms(2,3) have change: b "filter (to_update remote) spec \<noteq> []" by (auto simp: filter_empty_conv)
  with sent have "sent variable_update rest \<noteq> []" by auto
  with change(1) rest show ?thesis by (auto split: option.splits)
qed

text \<open>A readable variable that the spec makes sensitive, with the same value, is not updated.\<close>

lemma becomes_sensitive_unnoticed:
  assumes "tv_Sensitive v" and "\<not> tv_Sensitive (remote_of remote v)"
    and "tv_Value v = tv_Value (remote_of remote v)" "tv_HCL v = tv_HCL (remote_of remote v)"
  shows "\<not> to_update remote v \<and> \<not> to_rewrite remote v"
  using assms by (simp add: to_update_def to_rewrite_def checkIfVariableChanged_iff)

section \<open>An example\<close>

definition example_fresh :: "string list \<Rightarrow> string" where
  "example_fresh is = concat is @ ''x''"

definition example_stored :: "tfc_Variable list" where
  "example_stored = [example_variable ''var-1'' ''old'' ''x'', example_variable ''var-2'' ''size'' ''1'']"

fun example_service :: env where
  "example_service h (Workspaces (Workspace_Read x n)) = Inr (R_Workspace (new_tfc_Workspace ''ws-1''))"
| "example_service h (Variables (Variable_List x n)) =
     Inr (R_Variables (variables_after example_fresh ''ws-1'' example_stored h))"
| "example_service h q = Inr R_None"

lemma example_fresh_new: "example_fresh is \<notin> set is"
proof -
  have "length s \<le> length (concat is)" if "s \<in> set is" for s using that by (induction "is") auto
  then show ?thesis unfolding example_fresh_def by fastforce
qed

lemma example_serves: "serves_variables example_service example_fresh ''ws-1'' example_stored"
  by (simp add: serves_variables_def example_fresh_new new_tfc_Workspace_def)

definition example_first :: trace where
  "example_first =
     [(Workspaces (Workspace_Read ''world'' ''prod-hello''), Inr (R_Workspace (new_tfc_Workspace ''ws-1''))),
      (Variables (Variable_List ''ws-1'' PageSize), Inr (R_Variables example_stored)),
      (Variables (Variable_Delete ''ws-1'' ''var-1''), Inr R_None),
      (Variables (Variable_Create ''ws-1'' \<lparr>vco_Key = Some ''region'', vco_Value = Some ''eu'',
         vco_Category = Some ''terraform'', vco_HCL = Some False, vco_Sensitive = Some False\<rparr>), Inr R_None),
      (Variables (Variable_Update ''ws-1'' ''var-2'' \<lparr>vuo_Key = Some ''size'', vuo_Value = Some ''2'',
         vuo_HCL = Some False, vuo_Sensitive = Some False\<rparr>), Inr R_None)]"

definition example_now :: "tfc_Variable list" where
  "example_now = [example_variable ''var-2'' ''size'' ''2'', example_variable ''var-2x'' ''region'' ''eu'']"

lemmas example_synced = run_simps validStringID_def validString_def id_char_def valid_VariableCreateOptions_def
  new_tfc_Workspace_def example_client_def example_spec_variables_def example_variable_def find_def
  checkIfVariableChanged_def update_options_def Let_def

lemma example_first_run:
  "CheckVariables ''prod-hello'' example_spec_variables example_service [] example_client =
     Some (Ok True, example_client, example_first)"
  by (simp add: example_synced example_first_def example_stored_def variables_after_def)

lemma example_after: "variables_after example_fresh ''ws-1'' example_stored (example_first @ [(q, Inr (R_Workspace x))]) = example_now"
  if "q = Workspaces (Workspace_Read y n)"
  using that
  by (simp add: variables_after_def example_first_def example_stored_def example_variable_def example_fresh_def
      created_variable_def updated_variable_def the_or_def hidden_def example_now_def new_tfc_Workspace_def)

lemma example_second_run:
  "CheckVariables ''prod-hello'' example_spec_variables example_service ([] @ example_first) example_client =
     Some (Ok False, example_client,
      [(Workspaces (Workspace_Read ''world'' ''prod-hello''), Inr (R_Workspace (new_tfc_Workspace ''ws-1''))),
       (Variables (Variable_List ''ws-1'' PageSize), Inr (R_Variables example_now))])"
  by (simp add: example_synced example_after example_now_def)


text \<open>One key twice, for a workspace that has both: the second value is sent for the first variable.\<close>

definition example_two_values :: "tfc_Variable list" where
  "example_two_values = [(example_variable '''' ''size'' ''1'')\<lparr>tv_Category := ''env''\<rparr>, example_variable '''' ''size'' ''2'']"

definition example_pair :: "tfc_Variable list" where
  "example_pair = [(example_variable ''var-1'' ''size'' ''1'')\<lparr>tv_Category := ''env''\<rparr>, example_variable ''var-2'' ''size'' ''2'']"

definition example_two_values_trace :: trace where
  "example_two_values_trace =
     [(Workspaces (Workspace_Read ''world'' ''prod-hello''), Inr (R_Workspace (new_tfc_Workspace ''ws-1''))),
      (Variables (Variable_List ''ws-1'' PageSize), Inr (R_Variables example_pair)),
      (Variables (Variable_Update ''ws-1'' ''var-1'' \<lparr>vuo_Key = Some ''size'', vuo_Value = Some ''2'',
         vuo_HCL = Some False, vuo_Sensitive = Some False\<rparr>), Inr R_None)]"

lemma example_two_values_run:
  "CheckVariables ''prod-hello'' example_two_values (script (map snd example_two_values_trace)) [] example_client =
     Some (Ok True, example_client, example_two_values_trace)"
  by (simp add: example_synced script_def example_two_values_def example_two_values_trace_def example_pair_def)

theorem same_key_never_settles_witness: "sent variable_update example_two_values_trace \<noteq> []"
proof -
  have "True \<and> sent variable_update example_two_values_trace \<noteq> []"
    by (rule same_key_never_settles [OF example_two_values_run, of "example_two_values ! 0" "example_two_values ! 1" example_pair])
      (auto simp: example_two_values_def example_two_values_trace_def example_pair_def example_variable_def)
  then show ?thesis by simp
qed

end
