(* ===== verification/Reconcile_Examples.thy ===== *)
theory Reconcile_Examples
  imports Reconcile_Effects
begin

text \<open>
  Concrete reconciles for the witnesses: an object marked for deletion whose workspace is
  destroyed and deleted, one whose run is pending, and one whose outputs are up to date.
\<close>

definition no_codecs :: codecs where
  "no_codecs = \<lparr>ImpliedType = (\<lambda>_. Inl (ErrorString ''no JSON'')),
     Unmarshal = (\<lambda>_ _. Inl (ErrorString ''no JSON'')), statefile_Read = (\<lambda>_. Inr (Some []))\<rparr>"

definition example_name :: NamespacedName where
  "example_name = \<lparr>nn_Namespace = ''prod'', nn_Name = ''hello''\<rparr>"

definition example_bound_client :: tfclient where
  "example_bound_client = \<lparr>tf_Organization = ''world'', tf_SecretsMountPath = ''/tmp''\<rparr>"

text \<open>The workspace that exists, with the finalizer and a status.\<close>

definition example_known :: "string \<Rightarrow> Workspace" where
  "example_known status = set_status (\<lambda>s. s\<lparr>st_WorkspaceID := ''ws-1'', st_RunID := ''run-1'',
     st_RunStatus := status, st_Outputs := Some []\<rparr>) (set_finalizers [workspaceFinalizer] example_workspace)"

definition example_doomed :: Workspace where
  "example_doomed = (example_known ''applied'')\<lparr>Meta := (Meta (example_known ''applied''))
     \<lparr>om_DeletionTimestamp := Some ''now''\<rparr>\<rparr>"

lemma example_fields [simp]:
  "Meta (example_known s) = \<lparr>om_Name = ''hello'', om_Namespace = ''prod'', om_UID = ''uid'',
     om_Finalizers = [workspaceFinalizer], om_DeletionTimestamp = None, om_OwnerReferences = []\<rparr>"
  "Spec (example_known s) = Spec example_workspace"
  "Status (example_known s) = \<lparr>st_RunStatus = s, st_WorkspaceID = ''ws-1'', st_RunID = ''run-1'',
     st_ConfigVersionID = '''', st_Outputs = Some []\<rparr>"
  "Meta example_doomed = (Meta (example_known ''applied''))\<lparr>om_DeletionTimestamp := Some ''now''\<rparr>"
  "Spec example_doomed = Spec example_workspace"
  "Status example_doomed = Status (example_known ''applied'')"
  by (simp_all add: example_known_def example_doomed_def example_workspace_def set_finalizers_def)

definition example_entry :: "Workspace \<Rightarrow> trace" where
  "example_entry w = [(Kube (Get_Workspace example_name), Inr (R_Resource w)),
     (Organizations (Organization_Read ''world''), Inr R_None), (Host (Stat ''/tmp''), Inr (R_FileInfo True))]"

text \<open>Reading the object and its organization, whatever follows.\<close>

lemma example_initialize:
  assumes "sp_Organization (Spec w) = ''world''" "sp_SecretsMountPath (Spec w) = ''/tmp''"
      "\<not> (sp_VCS (Spec w) = None \<and> sp_Module (Spec w) = None)"
    and "\<And>h. E h (Kube (Get_Workspace example_name)) = Inr (R_Resource w)"
    "\<And>h. E h (Organizations (Organization_Read ''world'')) = Inr R_None"
    "\<And>h. E h (Host (Stat ''/tmp'')) = Inr (R_FileInfo True)"
  shows "initializeReconciliation example_name E h t =
    Some (Ok (Some w), example_bound_client, example_entry w)"
  using assms
  by (cases "sp_VCS (Spec w)"; cases "sp_Module (Spec w)")
    (simp_all add: initializeReconciliation_def CheckOrganization_def Organizations_Read_def
      CheckSecretsMountPath_def kube_Get_Workspace_def go_defs Let_def validStringID_def id_char_def example_entry_def example_bound_client_def)

section \<open>Deletion\<close>

definition example_remote :: tfc_Workspace where
  "example_remote = (new_tfc_Workspace ''ws-1'')\<lparr>tw_Name := ''prod-hello'',
     tw_CurrentRun := Some \<lparr>run_ID = ''run-1'', run_Status = ''applied''\<rparr>\<rparr>"

lemma example_remote_fields [simp]:
  "tw_ID example_remote = ''ws-1''"
  "tw_CurrentRun example_remote = Some \<lparr>run_ID = ''run-1'', run_Status = ''applied''\<rparr>"
  by (simp_all add: example_remote_def new_tfc_Workspace_def)

definition example_destroyed :: Run where
  "example_destroyed = \<lparr>run_ID = ''run-2'', run_Status = ''applied''\<rparr>"

fun example_world :: "Workspace \<Rightarrow> env" where
  "example_world w h (Kube (Get_Workspace n)) = Inr (R_Resource w)"
| "example_world w h (Kube (Update_Workspace w')) = Inr (R_Resource w')"
| "example_world w h (Kube (UpdateStatus_Workspace w')) = Inr (R_Resource w')"
| "example_world w h (Host (Stat f)) = Inr (R_FileInfo True)"
| "example_world w h (Workspaces (Workspace_ReadByID i)) = Inr (R_Workspace example_remote)"
| "example_world w h (Workspaces (Workspace_Read x y)) = Inr (R_Workspace example_remote)"
| "example_world w h (Runs (Run_List i)) = Inr (R_Runs [])"
| "example_world w h (Runs (Run_Create c)) = Inr (R_Run example_destroyed)"
| "example_world w h (Runs (Run_Read i)) = Inr (R_Run \<lparr>run_ID = i, run_Status = ''applied''\<rparr>)"
| "example_world w h (Variables (Variable_List x n)) = Inr (R_Variables [])"
| "example_world w h (RunTriggers (RunTrigger_List x y)) = Inr (R_RunTriggers [])"
| "example_world w h (ConfigVersions (ConfigVersion_List x)) =
     Inr (R_ConfigVersions [\<lparr>cv_ID = ''cv-1'', cv_Status = ''uploaded'', cv_UploadURL = ''''\<rparr>])"
| "example_world w h (Kube (Get_Secret n)) =
     Inr (R_Secret \<lparr>sec_Meta = new_meta (nn_Name n) (nn_Namespace n), sec_Data = Some []\<rparr>)"
| "example_world w h (Notifications q) = Inr (R_Notifications [])"
| "example_world w h q = Inr R_None"

definition example_deletion :: trace where
  "example_deletion =
     [(Workspaces (Workspace_ReadByID ''ws-1''), Inr (R_Workspace example_remote)),
      (Workspaces (Workspace_ReadByID ''ws-1''), Inr (R_Workspace example_remote)),
      (Runs (Run_List ''ws-1''), Inr (R_Runs [])),
      (Workspaces (Workspace_ReadByID ''ws-1''), Inr (R_Workspace example_remote)),
      (Runs (Run_Create (destroy_options example_remote)), Inr (R_Run example_destroyed)),
      (Runs (Run_Read ''run-2''), Inr (R_Run example_destroyed)),
      (Workspaces (Workspace_DeleteByID ''ws-1''), Inr R_None),
      (Kube (Update_Workspace (set_finalizers [] example_doomed)),
       Inr (R_Resource (set_finalizers [] example_doomed)))]"

lemma example_condDelete:
  "condDeleteWorkspace example_doomed (example_world example_doomed) h t =
     Some (Ok True, t, example_deletion)"
proof -
  have rm: "remove [workspaceFinalizer] workspaceFinalizer = Some []"
    using remove_at_most_once [of "[workspaceFinalizer]" workspaceFinalizer] by simp
  have id: "validStringID (Some ''ws-1'')" "validStringID (Some ''run-2'')"
    by (simp_all add: validStringID_def id_char_def)
  show ?thesis
    by (simp add: condDeleteWorkspace_def finalizeWorkspace_def run_defs workspace_defs
        Workspaces_ReadByID_def Workspaces_DeleteByID_def Runs_List_def Runs_Create_def Runs_Read_def
        kube_Update_Workspace_def destroy_options_def
        go_defs Let_def rm id poll_step poll_round_def settled_iff destroyed_iff example_deletion_def example_destroyed_def example_remote_def
        new_tfc_Workspace_def isPending_iff)
qed

lemma example_doomed_run:
  "Reconcile C example_name (example_world example_doomed) [] t =
     Some (Ok no_requeue, example_bound_client, example_entry example_doomed @ example_deletion)"
proof -
  have "initializeReconciliation example_name (example_world example_doomed) [] t =
      Some (Ok (Some example_doomed), example_bound_client, example_entry example_doomed)"
    by (rule example_initialize) (simp_all add: example_workspace_def)
  then show ?thesis
    by (simp add: Reconcile_live andThen_def example_condDelete ret_def)
qed

section \<open>A pending run\<close>

definition example_polling :: trace where
  "example_polling = example_entry (example_known ''planning'') @
     [(Workspaces (Workspace_Read ''world'' ''prod-hello''), Inr (R_Workspace example_remote)),
      (Notifications (Notification_List ''ws-1''), Inr (R_Notifications [])),
      (Runs (Run_Read ''run-1''), Inr (R_Run \<lparr>run_ID = ''run-1'', run_Status = ''applied''\<rparr>)),
      (Kube (UpdateStatus_Workspace (set_status (\<lambda>s. s\<lparr>st_RunStatus := ''applied''\<rparr>) (example_known ''planning''))),
       Inr (R_Resource (set_status (\<lambda>s. s\<lparr>st_RunStatus := ''applied''\<rparr>) (example_known ''planning''))))]"

lemma example_CheckWorkspace:
  assumes "Spec w = Spec example_workspace \<or> Spec w = (Spec example_workspace)\<lparr>sp_VCS := v, sp_Variables := []\<rparr>"
  shows "CheckWorkspace ''prod-hello'' w (example_world w') h example_bound_client =
    Some (Ok example_remote, example_bound_client,
      [(Workspaces (Workspace_Read ''world'' ''prod-hello''), Inr (R_Workspace example_remote))])"
  using assms
  by (auto simp: CheckWorkspace_def Workspaces_Read_def sync_ssh_key_def sync_version_def sync_agent_pool_def
      go_defs Let_def example_bound_client_def validStringID_def id_char_def
      example_workspace_def example_remote_def new_tfc_Workspace_def)

lemma example_CheckWorkspace_known:
  "CheckWorkspace (workspace_name (example_known s)) (example_known s) (example_world w') h example_bound_client =
    Some (Ok example_remote, example_bound_client,
      [(Workspaces (Workspace_Read ''world'' ''prod-hello''), Inr (R_Workspace example_remote))])"
  using example_CheckWorkspace [of "example_known s"]
  by (simp add: workspace_name_def example_workspace_def)

lemma example_polling_run:
  "Reconcile C example_name (example_world (example_known ''planning'')) [] t =
     Some (Ok (no_requeue\<lparr>Requeue := True\<rparr>), example_bound_client, example_polling)"
proof -
  have "initializeReconciliation example_name (example_world (example_known ''planning'')) [] t =
      Some (Ok (Some (example_known ''planning'')), example_bound_client, example_entry (example_known ''planning''))"
    by (rule example_initialize) (simp_all add: example_workspace_def)
  moreover have "reconcileWorkspace (example_known ''planning'') (example_world (example_known ''planning'')) h
      example_bound_client = Some (Ok (example_known ''planning''), example_bound_client,
        [(Workspaces (Workspace_Read ''world'' ''prod-hello''), Inr (R_Workspace example_remote))])" for h
    by (rule reconcileWorkspace_in_sync [OF example_CheckWorkspace_known]) simp_all
  moreover have "reconcileNotifications (example_known ''planning'') (example_world (example_known ''planning'')) h
      example_bound_client = Some (Ok (), example_bound_client,
        [(Notifications (Notification_List ''ws-1''), Inr (R_Notifications []))])" for h
    using notifications_none [of "example_known ''planning''" "example_world (example_known ''planning'')" h]
    by (simp add: validStringID_def id_char_def example_workspace_def)
  ultimately show ?thesis
    by (simp add: Reconcile_live reconcileLive_def runInProgress_def CheckRun_def Runs_Read_def isPending_iff
        kube_UpdateStatus_Workspace_def go_defs Let_def validStringID_def id_char_def example_polling_def)
qed

section \<open>A workspace from a repository\<close>

definition example_vcs :: "string \<Rightarrow> string \<Rightarrow> Workspace" where
  "example_vcs run status = (set_status (\<lambda>s. s\<lparr>st_RunID := run\<rparr>) (example_known status))
     \<lparr>Spec := (Spec example_workspace)\<lparr>sp_VCS := Some \<lparr>vcs_TokenID = '''', vcs_RepoIdentifier = '''',
       vcs_Branch = '''', vcs_IngressSubmodules = False\<rparr>, sp_Variables := []\<rparr>\<rparr>"

lemma example_vcs_fields [simp]:
  "Meta (example_vcs r s) = Meta (example_known s)"
  "Status (example_vcs r s) = (Status (example_known s))\<lparr>st_RunID := r\<rparr>"
  "sp_Variables (Spec (example_vcs r s)) = []" "sp_VCS (Spec (example_vcs r s)) \<noteq> None"
  "sp_RunTriggers (Spec (example_vcs r s)) = []" "sp_Notifications (Spec (example_vcs r s)) = []"
  "sp_Organization (Spec (example_vcs r s)) = ''world''" "sp_SecretsMountPath (Spec (example_vcs r s)) = ''/tmp''"
  "workspace_name (example_vcs r s) = ''prod-hello''"
  "set_variables [] (example_vcs r s) = example_vcs r s"
  by (simp_all add: example_vcs_def example_workspace_def workspace_name_def set_variables_def)

lemma example_vcs_spec:
  "Spec (example_vcs r s) = (Spec example_workspace)\<lparr>sp_VCS := Some \<lparr>vcs_TokenID = '''', vcs_RepoIdentifier = '''',
       vcs_Branch = '''', vcs_IngressSubmodules = False\<rparr>, sp_Variables := []\<rparr>"
  by (simp add: example_vcs_def)

definition example_syncing :: "Workspace \<Rightarrow> trace" where
  "example_syncing w = example_entry w @
     [(Workspaces (Workspace_Read ''world'' ''prod-hello''), Inr (R_Workspace example_remote)),
      (Notifications (Notification_List ''ws-1''), Inr (R_Notifications []))]"

definition example_listing :: trace where
  "example_listing =
     [(Workspaces (Workspace_Read ''world'' ''prod-hello''), Inr (R_Workspace example_remote)),
      (Variables (Variable_List ''ws-1'' PageSize), Inr (R_Variables [])),
      (Workspaces (Workspace_Read ''world'' ''prod-hello''), Inr (R_Workspace example_remote)),
      (RunTriggers (RunTrigger_List ''ws-1'' ''inbound''), Inr (R_RunTriggers []))]"

lemma example_vcs_start:
  assumes "r = '''' \<or> r = ''run-1''" and "\<not> isPending s"
  shows "reachFinished example_name (example_world (example_vcs r s)) [] t =
    Some (Ok (Inr (example_vcs r s)), example_bound_client, example_syncing (example_vcs r s))"
proof -
  have "initializeReconciliation example_name (example_world (example_vcs r s)) [] t =
      Some (Ok (Some (example_vcs r s)), example_bound_client, example_entry (example_vcs r s))"
    by (rule example_initialize) simp_all
  moreover have "CheckWorkspace (workspace_name (example_vcs r s)) (example_vcs r s) (example_world w) h
      example_bound_client = Some (Ok example_remote, example_bound_client,
        [(Workspaces (Workspace_Read ''world'' ''prod-hello''), Inr (R_Workspace example_remote))])" for w h
    using example_CheckWorkspace [OF disjI2 [OF example_vcs_spec]] by simp
  then have "reconcileWorkspace (example_vcs r s) (example_world w) h
      example_bound_client = Some (Ok (example_vcs r s), example_bound_client,
        [(Workspaces (Workspace_Read ''world'' ''prod-hello''), Inr (R_Workspace example_remote))])" for w h
    by (rule reconcileWorkspace_in_sync) (use assms in auto)
  moreover have "reconcileNotifications (example_vcs r s) (example_world w) h
      example_bound_client = Some (Ok (), example_bound_client,
        [(Notifications (Notification_List ''ws-1''), Inr (R_Notifications []))])" for w h
    using notifications_none [of "example_vcs r s" "example_world w" h]
    by (simp add: validStringID_def id_char_def)
  ultimately show ?thesis
    using assms(2) by (simp add: reachFinished_def runInProgress_def andThen_def ret_def example_syncing_def)
qed

lemma example_vcs_sync:
  "updateVariables (example_vcs r s) (example_world w) h example_bound_client =
     Some (Ok (False, example_vcs r s), example_bound_client, take 2 example_listing)"
  "updateRunTriggers (example_vcs r s) (example_world w) h example_bound_client =
     Some (Ok False, example_bound_client, drop 2 example_listing)"
  by (simp_all add: updateVariables_def updateRunTriggers_def CheckVariables_def CheckRunTriggers_def
      MapToTFCVariable_def MapToTFCRunTrigger_def Workspaces_Read_def listVariables_def listRunTriggers_def
      Variables_List_def RunTriggers_List_def valid_RunTriggerListOptions_def deleteVariablesFromTFC_def
      createVariablesOnTFC_def generateUpdateVariableList_def deleteRunTriggersFromTFC_def
      createRunTriggersOnTFC_def go_defs Let_def validStringID_def validString_def id_char_def
      example_bound_client_def example_listing_def del: One_nat_def)

definition example_quiet :: trace where
  "example_quiet = example_syncing (example_vcs ''run-1'' ''errored'') @
     (Kube (Record_Event (example_vcs ''run-1'' ''errored'') ''Normal'' ''WorkspaceEvent''
        (''Run '' @ quote ''run-1'' @ '' for workspace '' @ quote ''ws-1'' @ '' failed to complete'')), Inr R_None)
     # example_listing"

lemma example_quiet_run:
  "Reconcile C example_name (example_world (example_vcs ''run-1'' ''errored'')) [] t =
     Some (Ok (no_requeue\<lparr>RequeueAfter := 60\<rparr>), example_bound_client, example_quiet)"
proof -
  have "\<not> isPending ''errored''" by (simp add: isPending_iff)
  from example_vcs_start [OF _ this, of "''run-1''"] show ?thesis
    by (simp add: Reconcile_halves reconcileFinished_def processFinishedRun_def isError_def andThen_def
        updateTerraformTemplate_def example_vcs_sync ret_def record_event_def notify_def perform_def
        call_def attempt_def Let_def requeueInterval_def example_quiet_def example_listing_def)
qed

definition example_started :: Workspace where
  "example_started = set_status (\<lambda>s. s\<lparr>st_RunID := ''run-2'', st_RunStatus := ''applied''\<rparr>) (example_vcs '''' '''')"

definition example_start :: trace where
  "example_start =
     (Kube (UpdateStatus_Workspace example_started), Inr (R_Resource example_started)) #
     [(Kube (Record_Event example_started ''Normal'' ''WorkspaceEvent''
        ''Started new Terraform job with id run-2''), Inr R_None)]"

definition example_before_run :: trace where
  "example_before_run = example_syncing (example_vcs '''' '''') @
     (Kube (Get_Secret \<lparr>nn_Namespace = ''prod'', nn_Name = ''hello-outputs''\<rparr>),
      Inr (R_Secret \<lparr>sec_Meta = new_meta ''hello-outputs'' ''prod'', sec_Data = Some []\<rparr>))
     # example_listing @
     [(ConfigVersions (ConfigVersion_List ''ws-1''),
       Inr (R_ConfigVersions [\<lparr>cv_ID = ''cv-1'', cv_Status = ''uploaded'', cv_UploadURL = ''''\<rparr>]))]"

lemma example_start_run:
  "Reconcile C example_name (example_world (example_vcs '''' '''')) [] t =
     Some (Ok (no_requeue\<lparr>Requeue := True\<rparr>), example_bound_client,
       example_before_run @ (Runs (Run_Create (run_options (example_vcs '''' ''''))), Inr (R_Run example_destroyed))
         # example_start)"
proof -
  have "\<not> isPending ''''" by (simp add: isPending_iff)
  from example_vcs_start [OF _ this, of "''''"] show ?thesis
    by (simp add: Reconcile_halves reconcileFinished_def processFinishedRun_def isError_def andThen_def
        updateTerraformTemplate_def example_vcs_sync ret_def record_event_def notify_def perform_def
        call_def attempt_def Let_def CheckOutputs_def UpsertSecretOutputs_def outputsToMap_def
        kube_Get_Secret_def kube_UpdateStatus_Workspace_def startRun_def prepareVCSRun_def
        ConfigurationVersions_List_def Runs_Create_def validStringID_def id_char_def run_options_def
        example_destroyed_def example_started_def example_start_def example_before_run_def example_listing_def)
qed

end
