(* ===== verification/Reconcile_Safety.thy ===== *)
theory Reconcile_Safety
  imports Reconcile_Examples
begin

text \<open>
  What a reconcile does and does not do to the Terraform Cloud workspace and to the object:
  which runs it creates, when it deletes, when it lets the object go, and that nothing
  happens without the organization.
\<close>

section \<open>Deletion, step by step\<close>

lemma CheckWorkspacebyID_Some:
  assumes "CheckWorkspacebyID i E h t = Some (r, t', ev)"
  shows "t' = t" and "set (map fst ev) \<subseteq> {Workspaces (Workspace_ReadByID i)}"
    and "\<And>u. r = Ok u \<Longrightarrow> \<exists>x. ev = [(Workspaces (Workspace_ReadByID i), Inr (R_Workspace x))]"
proof -
  have "keeps_client (CheckWorkspacebyID i)" by (rule keeps_workspaces)
  from keeps_clientD [OF this assms] show "t' = t" .
  have "emits (\<lambda>q. q = Workspaces (Workspace_ReadByID i)) (CheckWorkspacebyID i)"
    by (rule emits_CheckWorkspacebyID) simp
  from emitsD [OF this assms] show "set (map fst ev) \<subseteq> {Workspaces (Workspace_ReadByID i)}" by auto
  show "\<exists>x. ev = [(Workspaces (Workspace_ReadByID i), Inr (R_Workspace x))]" if "r = Ok u" for u
    using assms that unfolding CheckWorkspacebyID_def by (auto elim!: andThen_OkE dest: tfe_Ok(2))
qed

text \<open>
  \<open>finalizeWorkspace\<close> asks for the deletion only after it cancelled the pending runs and
  destroyed the resources.
\<close>

lemma finalize_deletion:
  assumes "finalizeWorkspace w E h t = Some (r, t', ev)"
    and "(Workspaces (Workspace_DeleteByID i), a) \<in> set ev"
  obtains rd ev1 ev2 where "i = st_WorkspaceID (Status w)"
    "ev = rd @ ev1 @ ev2 @ [(Workspaces (Workspace_DeleteByID i), a)]"
    "CheckWorkspacebyID i E h t = Some (Ok (), t, rd)"
    "DeleteRuns i E (h @ rd) t = Some (Ok (), t, ev1)"
    "DeleteResources i E (h @ rd @ ev1) t = Some (Ok (), t, ev2)"
proof -
  let ?i = "st_WorkspaceID (Status w)"
  let ?P = "\<lambda>q. q = Workspaces (Workspace_DeleteByID i)"
  have nodel: "emits (\<lambda>q. \<not> ?P q) (attempt (CheckWorkspacebyID ?i))" "emits (\<lambda>q. \<not> ?P q) (DeleteRuns ?i)"
    "emits (\<lambda>q. \<not> ?P q) (DeleteResources ?i)"
    by (intro emits_rules; simp)+
  have keeps: "keeps_client (CheckWorkspacebyID ?i)" "keeps_client (DeleteRuns ?i)" "keeps_client (DeleteResources ?i)"
    by (rule keeps_rules)+
  from andThen_requestE [OF assms(1) [unfolded finalizeWorkspace_def Let_def] nodel(1) assms(2) refl]
  obtain x t1 rd e1 where x: "attempt (CheckWorkspacebyID ?i) E h t = Some (Ok x, t1, rd)"
    and more: "(case x of Inl _ \<Rightarrow> ret () | Inr _ \<Rightarrow> andThen (DeleteRuns ?i) (\<lambda>_. andThen (DeleteResources ?i)
      (\<lambda>_. andThen (attempt (DeleteWorkspace ?i)) (\<lambda>_. ret ())))) E (h @ rd) t1 = Some (r, t', e1)"
    and e1: "ev = rd @ e1" "(Workspaces (Workspace_DeleteByID i), a) \<in> set e1" by blast
  from more e1(2) obtain u where xu: "x = Inr u" by (cases x) auto
  with x have rd: "CheckWorkspacebyID ?i E h t = Some (Ok (), t1, rd)" by (auto simp: attempt_Some)
  have t1: "t1 = t" by (rule keeps_clientD [OF keeps(1) rd])
  from andThen_requestE [OF more [unfolded xu sum.case] nodel(2) e1(2) refl]
  obtain t2 ev1 e2 where ev1: "DeleteRuns ?i E (h @ rd) t1 = Some (Ok (), t2, ev1)"
    and more: "andThen (DeleteResources ?i) (\<lambda>_. andThen (attempt (DeleteWorkspace ?i)) (\<lambda>_. ret ()))
      E ((h @ rd) @ ev1) t2 = Some (r, t', e2)"
    and e2: "e1 = ev1 @ e2" "(Workspaces (Workspace_DeleteByID i), a) \<in> set e2" by auto
  have t2: "t2 = t" using keeps_clientD [OF keeps(2) ev1] t1 by simp
  from andThen_requestE [OF more nodel(3) e2(2) refl]
  obtain t3 ev2 e3 where ev2: "DeleteResources ?i E ((h @ rd) @ ev1) t2 = Some (Ok (), t3, ev2)"
    and last: "andThen (attempt (DeleteWorkspace ?i)) (\<lambda>_. ret ()) E (((h @ rd) @ ev1) @ ev2) t3 = Some (r, t', e3)"
    and e3: "e2 = ev2 @ e3" "(Workspaces (Workspace_DeleteByID i), a) \<in> set e3" by auto
  from last e3(2) have "i = ?i \<and> e3 = [(Workspaces (Workspace_DeleteByID i), a)]"
    unfolding DeleteWorkspace_def Workspaces_DeleteByID_def
    by (auto elim!: andThen_SomeE simp: attempt_Some require_def perform_def call_Some split: if_splits)
  with that [of rd ev1 ev2] rd ev1 ev2 t1 t2 keeps_clientD [OF keeps(3) ev2] e1(1) e2(1) e3(1)
  show thesis by simp
qed

text \<open>A successful \<open>finalizeWorkspace\<close> did all of it, or could not read the workspace.\<close>

lemma finalize_Ok:
  assumes "finalizeWorkspace w E h t = Some (Ok u, t', ev)"
  defines "i \<equiv> st_WorkspaceID (Status w)"
  obtains (unread) e where "CheckWorkspacebyID i E h t = Some (Err e, t, ev)"
    | (destroyed) rd ev1 ev2 ev3 where "ev = rd @ ev1 @ ev2 @ ev3"
      "CheckWorkspacebyID i E h t = Some (Ok (), t, rd)"
      "DeleteRuns i E (h @ rd) t = Some (Ok (), t, ev1)"
      "DeleteResources i E (h @ rd @ ev1) t = Some (Ok (), t, ev2)"
      "\<exists>a. ev3 = [(Workspaces (Workspace_DeleteByID i), a)]"
  using assms(1) unfolding finalizeWorkspace_def Let_def i_def [symmetric]
proof (cases rule: andThen_attempt_OkE)
  case (failure e t1 ev1 ev2)
  have "keeps_client (CheckWorkspacebyID i)" by (rule keeps_rules)
  from keeps_clientD [OF this failure(1)] failure unread show thesis by simp
next
  case (success v t1 rd more)
  have keeps: "keeps_client (CheckWorkspacebyID i)" "keeps_client (DeleteRuns i)" "keeps_client (DeleteResources i)"
    by (rule keeps_rules)+
  from keeps_clientD [OF keeps(1) success(1)] have t1: "t1 = t" .
  from success(2) have "andThen (DeleteRuns i) (\<lambda>_. andThen (DeleteResources i)
    (\<lambda>_. andThen (attempt (DeleteWorkspace i)) (\<lambda>_. ret ()))) E (h @ rd) t1 = Some (Ok u, t', more)" by simp
  then obtain v2 t2 ev1 tail where runs: "DeleteRuns i E (h @ rd) t1 = Some (Ok v2, t2, ev1)"
    and tail: "andThen (DeleteResources i) (\<lambda>_. andThen (attempt (DeleteWorkspace i)) (\<lambda>_. ret ()))
      E ((h @ rd) @ ev1) t2 = Some (Ok u, t', tail)" and more: "more = ev1 @ tail"
    by (rule andThen_OkE)
  from tail obtain v3 t3 ev2 ev3 where res: "DeleteResources i E ((h @ rd) @ ev1) t2 = Some (Ok v3, t3, ev2)"
    and del: "andThen (attempt (DeleteWorkspace i)) (\<lambda>_. ret ()) E (((h @ rd) @ ev1) @ ev2) t3 = Some (Ok u, t', ev3)"
    and tail: "tail = ev2 @ ev3"
    by (rule andThen_OkE)
  from success(1) have "validStringID (Some i)"
    by (auto simp: CheckWorkspacebyID_def Workspaces_ReadByID_def require_Ok elim!: andThen_OkE)
  with del have "\<exists>a. ev3 = [(Workspaces (Workspace_DeleteByID i), a)]"
    by (auto simp: DeleteWorkspace_def Workspaces_DeleteByID_def perform_def call_Some attempt_Some elim!: andThen_OkE)
  with destroyed [of rd ev1 ev2 ev3] success(1,3) runs res more tail t1 keeps_clientD [OF keeps(2) runs]
    keeps_clientD [OF keeps(3) res]
  show thesis by simp
qed


text \<open>The part of \<open>condDeleteWorkspace\<close> after the object is known to be marked.\<close>

lemma then_case_Some:
  assumes "andThen m (\<lambda>_. case x of None \<Rightarrow> panic s | Some y \<Rightarrow> k y) E h t = Some (r, t', ev)" and "keeps_client m"
  obtains (ended) r1 where "m E h t = Some (r1, t, ev)" "\<And>a. r1 \<noteq> Ok a" "\<And>b. r \<noteq> Ok b"
    | (went_on) y ev1 ev2 where "x = Some y" "m E h t = Some (Ok (), t, ev1)" "k y E (h @ ev1) t = Some (r, t', ev2)"
      "ev = ev1 @ ev2"
    | (crashed) "x = None" "m E h t = Some (Ok (), t, ev)" "r = Panic s"
  using assms(1)
proof (cases rule: andThen_SomeE)
  case (ok u t1 ev1 ev2)
  with keeps_clientD [OF assms(2) ok(1)] went_on crashed show thesis by (cases x) auto
qed (use ended keeps_clientD [OF assms(2)] in fastforce)+

lemma condDelete_Some:
  assumes "condDeleteWorkspace w E h t = Some (r, t', ev)" and "om_DeletionTimestamp (Meta w) \<noteq> None"
  defines "i \<equiv> st_WorkspaceID (Status w)" and "owned \<equiv> workspaceFinalizer \<in> set (om_Finalizers (Meta w))"
  obtains (unread) "set (map fst ev) \<subseteq> {Workspaces (Workspace_ReadByID i)}" "\<And>b. r \<noteq> Ok b"
    | (finalizing) rd ev1 where "owned" "set (map fst rd) \<subseteq> {Workspaces (Workspace_ReadByID i)}"
      "ev = rd @ ev1" "\<And>b. r \<noteq> Ok b"
      "\<exists>r1. finalizeWorkspace w E (h @ rd) t = Some (r1, t, ev1)"
    | (released) rd ev1 ev2 fs where "set (map fst rd) \<subseteq> {Workspaces (Workspace_ReadByID i)}"
      "ev = rd @ ev1 @ ev2"
      "(if owned then finalizeWorkspace w else ret ()) E (h @ rd) t = Some (Ok (), t, ev1)"
      "remove (om_Finalizers (Meta w)) workspaceFinalizer = Some fs"
      "andThen (kube_Update_Workspace (set_finalizers fs w)) (\<lambda>_. ret True) E (h @ rd @ ev1) t = Some (r, t', ev2)"
    | (crash) rd ev1 s where "set (map fst rd) \<subseteq> {Workspaces (Workspace_ReadByID i)}"
      "ev = rd @ ev1" "r = Panic s"
      "(if owned then finalizeWorkspace w else ret ()) E (h @ rd) t = Some (Ok (), t, ev1)"
      "remove (om_Finalizers (Meta w)) workspaceFinalizer = None"
proof -
  let ?final = "if owned then finalizeWorkspace w else ret ()"
  let ?read = "andThen (attempt (CheckWorkspacebyID i)) (\<lambda>res. case res of
                   Inl err \<Rightarrow> if err \<noteq> ErrResourceNotFound then fail err else ret ()
                 | Inr _ \<Rightarrow> ret ())"
  have keeps: "keeps_client ?read" "keeps_client ?final"
    by (intro keeps_rules | simp add: finalizeWorkspace_def)+
  have only: "emits (\<lambda>q. q = Workspaces (Workspace_ReadByID i)) ?read"
    by (intro emits_rules) simp
  have onlyD: "set (map fst ev) \<subseteq> {Workspaces (Workspace_ReadByID i)}" if "?read E h t = Some (r, t', ev)" for r t' ev
    using that only unfolding emits_def by fastforce
  from assms(1) [unfolded condDeleteWorkspace_def if_not_P [OF assms(2)]]
  have "andThen ?read (\<lambda>_. andThen ?final (\<lambda>_. case remove (om_Finalizers (Meta w)) workspaceFinalizer of
      None \<Rightarrow> panic ''slice bounds out of range''
    | Some fs \<Rightarrow> andThen (kube_Update_Workspace (set_finalizers fs w)) (\<lambda>_. ret True))) E h t = Some (r, t', ev)"
    unfolding andThen_assoc i_def owned_def contains_iff .
  then show thesis
  proof (cases rule: andThen_SomeE)
    case (ok u t1 rd more)
    note rd = onlyD [OF ok(1)]
    from ok(2) keeps(1) [THEN keeps_clientD, OF ok(1)] have "andThen ?final (\<lambda>_. case remove (om_Finalizers (Meta w)) workspaceFinalizer of
      None \<Rightarrow> panic ''slice bounds out of range''
    | Some fs \<Rightarrow> andThen (kube_Update_Workspace (set_finalizers fs w)) (\<lambda>_. ret True)) E (h @ rd) t = Some (r, t', more)"
      by (simp only:)
    then show thesis
    proof (cases rule: then_case_Some [OF _ keeps(2), consumes 1, case_names ended went_on crashed])
      case (ended r1)
      with finalizing [of rd more] rd ok(3) show thesis by (auto split: if_splits)
    next
      case (went_on fs ev1 ev2)
      with released [of rd ev1 ev2 fs] rd ok(3) show thesis by simp
    next
      case crashed
      with crash [of rd more] rd ok(3) show thesis by simp
    qed
  qed (use onlyD unread in auto)
qed

lemma emits_unowned:
  assumes "workspaceFinalizer \<notin> set (om_Finalizers (Meta w))"
    and "P (Workspaces (Workspace_ReadByID (st_WorkspaceID (Status w))))"
    and "\<And>fs. P (Kube (Update_Workspace (set_finalizers fs w)))"
  shows "emits P (condDeleteWorkspace w)"
  unfolding condDeleteWorkspace_def contains_iff if_not_P [OF assms(1)]
  by (intro emits_rules assms)

section \<open>Which runs are created\<close>

fun created_run :: "request \<Rightarrow> RunCreateOptions option" where
  "created_run (Runs (Run_Create c)) = Some c"
| "created_run _ = None"

text \<open>
  C2. No run that a reconcile creates names a configuration version: although a module run
  uploads the rendered configuration and waits until it is accepted, the options the run is
  created with are the ones from before. A live object gets apply runs only, an object marked
  for deletion destroy runs only, and those only while it carries the finalizer.
\<close>

theorem Reconcile_run_kinds:
  assumes "Reconcile C nn E h t = Some (r, t', ev)"
    and "E h (Kube (Get_Workspace nn)) = Inr (R_Resource w)"
    and "(Runs (Run_Create c), a) \<in> set ev"
  shows "rco_ConfigurationVersion c = None \<and>
    (if om_DeletionTimestamp (Meta w) = None then rco_IsDestroy c = None
     else rco_IsDestroy c = Some True \<and> workspaceFinalizer \<in> set (om_Finalizers (Meta w)))"
proof -
  let ?c = "Runs (Run_Create c)"
  have init: "(?c, a) \<notin> set ev1" if "initializeReconciliation nn E h t = Some (r1, t1, ev1)" for r1 t1 ev1
  proof -
    have "emits (\<lambda>q. q \<noteq> ?c) (initializeReconciliation nn)" by (intro emits_rules) auto
    with that show ?thesis using emits_event by blast
  qed
  from assms(1) show ?thesis
  proof (cases rule: Reconcile_courses)
    case (stopped r0)
    with init assms(3) show ?thesis by blast
  next
    case (marked w' t1 ev1 ev2 r1)
    with initialize_answer [OF marked(1) assms(2) refl] have w: "w' = w" by simp
    from marked(5) init [OF marked(1)] assms(3) have "(?c, a) \<in> set ev2" by auto
    moreover have "emits (\<lambda>q. q = ?c \<longrightarrow> (\<exists>ws. c = destroy_options ws)) (condDeleteWorkspace w)"
      by (intro emits_rules) auto
    ultimately have "\<exists>ws. c = destroy_options ws"
      using emits_event marked(3) w by blast
    moreover have "workspaceFinalizer \<in> set (om_Finalizers (Meta w))"
    proof (rule ccontr)
      assume "\<not> ?thesis"
      then have "emits (\<lambda>q. q \<noteq> ?c) (condDeleteWorkspace w)" by (rule emits_unowned) auto
      with marked(3) w \<open>(?c, a) \<in> set ev2\<close> show False using emits_event by blast
    qed
    ultimately show ?thesis using marked(2) w by (auto simp: destroy_options_def)
  next
    case (live w' t1 ev1 ev2)
    with initialize_answer [OF live(1) assms(2)] have w: "w' = w" by simp
    from live(4) init [OF live(1)] assms(3) have "(?c, a) \<in> set ev2" by auto
    moreover have "emits (\<lambda>q. q = ?c \<longrightarrow> (\<exists>w. c = run_options w)) (reconcileLive C w)"
      by (intro emits_rules) auto
    ultimately have "\<exists>w. c = run_options w" using emits_event live(3) w by blast
    with live(2) w show ?thesis by (auto simp: run_options_def)
  qed
qed

text \<open>A deletion by \<open>condDeleteWorkspace\<close> comes from \<open>finalizeWorkspace\<close>, of an object with the finalizer.\<close>

lemma condDelete_deletion:
  assumes "condDeleteWorkspace w E h t = Some (r, t', ev)" and "om_DeletionTimestamp (Meta w) \<noteq> None"
    and d: "(Workspaces (Workspace_DeleteByID i), a) \<in> set ev"
  obtains rd r1 ev1 after where "workspaceFinalizer \<in> set (om_Finalizers (Meta w))" "ev = rd @ ev1 @ after"
    "finalizeWorkspace w E (h @ rd) t = Some (r1, t, ev1)" "(Workspaces (Workspace_DeleteByID i), a) \<in> set ev1"
proof -
  let ?d = "Workspaces (Workspace_DeleteByID i)"
  have read: "(?d, a) \<notin> set rd" if "set (map fst rd) \<subseteq> {Workspaces (Workspace_ReadByID j)}" for rd j
    using that by force
  have owned: "workspaceFinalizer \<in> set (om_Finalizers (Meta w))"
    if "(?d, a) \<in> set ev1" "(if workspaceFinalizer \<in> set (om_Finalizers (Meta w)) then finalizeWorkspace w else ret ())
      E (h @ rd) t = Some (Ok (), t, ev1)" for rd ev1
    using that by (auto split: if_splits)
  from assms(1,2) show thesis
  proof (cases rule: condDelete_Some)
    case unread
    with read d show ?thesis by blast
  next
    case (finalizing rd ev1)
    with read [OF finalizing(2)] d that [of rd ev1 "[]"] show ?thesis by auto
  next
    case (released rd ev1 ev2 fs)
    have "emits (\<lambda>q. q \<noteq> ?d) (andThen (kube_Update_Workspace (set_finalizers fs w)) (\<lambda>_. ret True))"
      by (intro emits_rules) simp
    note no = emits_event [OF this released(5)]
    then have "(?d, a) \<notin> set ev2" by blast
    with read [OF released(1)] d have d1: "(?d, a) \<in> set ev1" unfolding released(2) by simp
    from owned [OF d1 released(3)] released(2,3) d1 that [of rd ev1 ev2] show ?thesis by simp
  next
    case (crash rd ev1 s)
    with read [OF crash(1)] d have d1: "(?d, a) \<in> set ev1" by simp
    from owned [OF d1 crash(4)] crash(2,4) d1 that [of rd ev1 "[]"] show ?thesis by simp
  qed
qed

text \<open>
  C1. A reconcile deletes a Terraform Cloud workspace only for an object that is marked for
  deletion and carries the finalizer, only the workspace its status names, and only after
  \<open>DeleteRuns\<close> and \<open>DeleteResources\<close> have both succeeded on it.
\<close>

theorem Reconcile_deletes_last:
  assumes "Reconcile C nn E h t = Some (r, t', ev)"
    and "(Workspaces (Workspace_DeleteByID i), a) \<in> set ev"
  shows "\<exists>w t1 before runs resources after.
    E h (Kube (Get_Workspace nn)) = Inr (R_Resource w) \<and>
    om_DeletionTimestamp (Meta w) \<noteq> None \<and> workspaceFinalizer \<in> set (om_Finalizers (Meta w)) \<and>
    i = st_WorkspaceID (Status w) \<and>
    ev = before @ runs @ resources @ [(Workspaces (Workspace_DeleteByID i), a)] @ after \<and>
    DeleteRuns i E (h @ before) t1 = Some (Ok (), t1, runs) \<and>
    DeleteResources i E (h @ before @ runs) t1 = Some (Ok (), t1, resources)"
proof -
  let ?d = "Workspaces (Workspace_DeleteByID i)"
  have "emits (\<lambda>q. q \<noteq> ?d) (initializeReconciliation nn)" by (intro emits_rules) auto
  note init = emits_event [OF this]
  from assms(1) show ?thesis
  proof (cases rule: Reconcile_courses)
    case (stopped r0)
    from init [OF stopped(1) assms(2)] show ?thesis by simp
  next
    case (live w t1 ev1 ev2)
    have "emits (\<lambda>q. q \<noteq> ?d) (reconcileLive C w)" by (intro emits_rules) auto
    note no = emits_event [OF this]
    from live(4) init [OF live(1)] assms(2) have "(?d, a) \<in> set ev2" by auto
    from no [OF live(3) this] show ?thesis by simp
  next
    case (marked w t1 ev1 ev2 r1)
    from marked(5) init [OF marked(1)] assms(2) have d: "(?d, a) \<in> set ev2" by auto
    from marked(3,2) d obtain rd r2 fev after where owned: "workspaceFinalizer \<in> set (om_Finalizers (Meta w))"
      and ev2: "ev2 = rd @ fev @ after" and run: "finalizeWorkspace w E ((h @ ev1) @ rd) t1 = Some (r2, t1, fev)"
      and del: "(?d, a) \<in> set fev" by (rule condDelete_deletion)
    from run del obtain rd2 runs resources where fev: "i = st_WorkspaceID (Status w)"
      "fev = rd2 @ runs @ resources @ [(?d, a)]"
      "DeleteRuns i E (((h @ ev1) @ rd) @ rd2) t1 = Some (Ok (), t1, runs)"
      "DeleteResources i E (((h @ ev1) @ rd) @ rd2 @ runs) t1 = Some (Ok (), t1, resources)"
      by (rule finalize_deletion)
    from initialize_reads [OF marked(1)] initialize_Ok [OF marked(1)]
    have "E h (Kube (Get_Workspace nn)) = Inr (R_Resource w)" by auto
    with marked(2,5) owned ev2 fev show ?thesis
      by (intro exI [of _ w] exI [of _ t1] exI [of _ "ev1 @ rd @ rd2"] exI [of _ runs] exI [of _ resources]
        exI [of _ after]) simp
  qed
qed

section \<open>Letting the object go\<close>

text \<open>
  C8. A successful reconcile of an object that is marked for deletion ends with the update that
  removes the finalizer, and is not repeated. If the object carried the finalizer, the
  deletion of the Terraform Cloud workspace had been requested (whatever the answer was), or
  reading the workspace had failed and nothing was cancelled, destroyed or deleted.
\<close>

theorem Reconcile_releases:
  assumes "Reconcile C nn E h t = Some (Ok res, t', ev)"
    and "E h (Kube (Get_Workspace nn)) = Inr (R_Resource w)" "om_DeletionTimestamp (Meta w) \<noteq> None"
    and "count_list (om_Finalizers (Meta w)) workspaceFinalizer = 1"
  shows "res = no_requeue \<and>
    (\<exists>front x. ev = front @ [(Kube (Update_Workspace (set_finalizers
        (filter (\<lambda>f. f \<noteq> workspaceFinalizer) (om_Finalizers (Meta w))) w)), Inr (R_Resource x))]) \<and>
    ((\<exists>a. (Workspaces (Workspace_DeleteByID (st_WorkspaceID (Status w))), a) \<in> set ev) \<or>
     (\<forall>e \<in> set ev. \<not> is_Runs (fst e) \<and> (\<forall>i. fst e \<noteq> Workspaces (Workspace_DeleteByID i))))"
  using assms(1)
proof (cases rule: Reconcile_courses)
  case (stopped r0)
  from stopped(3) obtain x where x: "r0 = Ok x" by auto
  with stopped(2) have "r0 = Ok None" by (cases x) auto
  with initialize_None stopped(1) assms(2) show ?thesis by fastforce
next
  case (live w' t1 ev1 ev2)
  with initialize_answer [OF live(1) assms(2)] assms(3) show ?thesis by simp
next
  case (marked w' t1 ev1 ev2 r1)
  with initialize_answer [OF marked(1) assms(2) refl] have w: "w' = w" by simp
  let ?i = "st_WorkspaceID (Status w)"
  let ?fs = "filter (\<lambda>f. f \<noteq> workspaceFinalizer) (om_Finalizers (Meta w))"
  let ?quiet = "\<lambda>q. \<not> is_Runs q \<and> (\<forall>i. q \<noteq> Workspaces (Workspace_DeleteByID i))"
  from assms(4) have owned: "workspaceFinalizer \<in> set (om_Finalizers (Meta w))"
    by (metis count_notin zero_neq_one)
  from marked(4) obtain b where r1: "r1 = Ok b" by (cases r1) simp_all
  with marked(4) have res: "res = no_requeue" by simp
  have "emits ?quiet (initializeReconciliation nn)" by (intro emits_rules) (auto simp: is_Runs_def)
  note quiet1 = emitsD [OF this marked(1)]
  from marked(3,2) [unfolded w] show ?thesis
  proof (cases rule: condDelete_Some)
    case (released rd ev3 ev4 fs)
    from remove_at_most_once [of "om_Finalizers (Meta w)" workspaceFinalizer] assms(4) released(4)
    have fs: "fs = ?fs" by simp
    from released(5) r1 fs obtain x where ev4: "ev4 = [(Kube (Update_Workspace (set_finalizers ?fs w)), Inr (R_Resource x))]"
      by (auto elim!: andThen_OkE simp: kube_Ok)
    from released(1) have quiet2: "\<And>e. e \<in> set rd \<Longrightarrow> ?quiet (fst e)" by auto
    from released(3) owned have "finalizeWorkspace w E ((h @ ev1) @ rd) t1 = Some (Ok (), t1, ev3)" by simp
    then have "(\<exists>a. (Workspaces (Workspace_DeleteByID ?i), a) \<in> set ev3) \<or> (\<forall>e \<in> set ev3. ?quiet (fst e))"
    proof (cases rule: finalize_Ok)
      case (unread e)
      from CheckWorkspacebyID_Some(2) [OF unread] have "\<forall>e \<in> set ev3. ?quiet (fst e)" by auto
      then show ?thesis ..
    qed auto
    with quiet1 quiet2 ev4 released(2) marked(5) res show ?thesis
      by (intro conjI exI [of _ "ev1 @ rd @ ev3"] exI [of _ x]) auto
  qed (use r1 in \<open>blast | simp\<close>)+
qed

text \<open>
  The object is let go although its Terraform Cloud workspace may live on: when the second
  read of the workspace fails, whatever the error (a timeout, say), \<open>condDeleteWorkspace\<close>
  removes the finalizer and reports the object deleted after these three requests.
\<close>

lemma condDelete_lets_go:
  assumes "om_DeletionTimestamp (Meta w) \<noteq> None" "count_list (om_Finalizers (Meta w)) workspaceFinalizer = 1"
    and "validStringID (Some (st_WorkspaceID (Status w)))"
  defines "rd \<equiv> Workspaces (Workspace_ReadByID (st_WorkspaceID (Status w)))"
    and "up \<equiv> Kube (Update_Workspace (set_finalizers
      (filter (\<lambda>f. f \<noteq> workspaceFinalizer) (om_Finalizers (Meta w))) w))"
  assumes "E h rd = Inr (R_Workspace x)" "E (h @ [(rd, Inr (R_Workspace x))]) rd = Inl e"
    "E (h @ [(rd, Inr (R_Workspace x)), (rd, Inl e)]) up = Inr (R_Resource y)"
  shows "condDeleteWorkspace w E h t =
    Some (Ok True, t, [(rd, Inr (R_Workspace x)), (rd, Inl e), (up, Inr (R_Resource y))])"
proof -
  from assms(2) have "workspaceFinalizer \<in> set (om_Finalizers (Meta w))"
    by (metis count_notin zero_neq_one)
  moreover have "remove (om_Finalizers (Meta w)) workspaceFinalizer =
    Some (filter (\<lambda>f. f \<noteq> workspaceFinalizer) (om_Finalizers (Meta w)))"
    by (rule remove_at_most_once) (simp add: assms(2))
  moreover have "CheckWorkspacebyID (st_WorkspaceID (Status w)) E h t = Some (Ok (), t, [(rd, Inr (R_Workspace x))])"
    using assms(3,6) by (simp add: CheckWorkspacebyID_def Workspaces_ReadByID_def rd_def go_defs)
  moreover have "CheckWorkspacebyID (st_WorkspaceID (Status w)) E (h @ [(rd, Inr (R_Workspace x))]) t =
      Some (Err e, t, [(rd, Inl e)])"
    using assms(3,7) by (simp add: CheckWorkspacebyID_def Workspaces_ReadByID_def rd_def go_defs)
  moreover have "kube_Update_Workspace (set_finalizers (filter (\<lambda>f. f \<noteq> workspaceFinalizer)
      (om_Finalizers (Meta w))) w) E (h @ [(rd, Inr (R_Workspace x)), (rd, Inl e)]) t =
      Some (Ok y, t, [(up, Inr (R_Resource y))])"
    using assms(8) by (simp only: kube_Ok up_def)
  ultimately show ?thesis
    using assms(1) by (simp add: condDeleteWorkspace_def finalizeWorkspace_def Let_def andThen_def attempt_def ret_def)
qed

section \<open>Nothing happens without the organization\<close>

text \<open>
  When the organization of the spec cannot be read, a reconcile fails with that error after
  reading the object, a warning event and the attempt to read the organization. This holds for
  objects that are marked for deletion too: they stay until the organization is back.
\<close>

lemma Reconcile_needs_organization:
  assumes "E h (Kube (Get_Workspace nn)) = Inr (R_Resource w)"
    and "\<And>h. E h (Organizations (Organization_Read (sp_Organization (Spec w)))) = Inl e"
  shows "\<exists>t' ev. Reconcile C nn E h t =
      Some (Err (if validStringID (Some (sp_Organization (Spec w))) then e else ErrInvalidOrg), t', ev) \<and>
    (\<forall>q \<in> set (map fst ev). q = Kube (Get_Workspace nn) \<or> (\<exists>a b c. q = Kube (Record_Event w a b c)) \<or>
       q = Organizations (Organization_Read (sp_Organization (Spec w))))"
  using assms
  by (simp add: Reconcile_def initializeReconciliation_def CheckOrganization_def Organizations_Read_def
      kube_Get_Workspace_def record_event_def go_defs require_def Let_def split: sum.split)

section \<open>Examples\<close>

theorem Reconcile_run_kinds_witness:
  "rco_ConfigurationVersion (destroy_options example_remote) = None \<and>
    (if om_DeletionTimestamp (Meta example_doomed) = None then rco_IsDestroy (destroy_options example_remote) = None
     else rco_IsDestroy (destroy_options example_remote) = Some True \<and>
       workspaceFinalizer \<in> set (om_Finalizers (Meta example_doomed)))"
  by (rule Reconcile_run_kinds [OF example_doomed_run [of no_codecs example_client],
      where a = "Inr (R_Run example_destroyed)"]) (simp, simp add: example_deletion_def)

theorem Reconcile_deletes_last_witness:
  "\<exists>w t1 before runs resources after.
    example_world example_doomed [] (Kube (Get_Workspace example_name)) = Inr (R_Resource w) \<and>
    om_DeletionTimestamp (Meta w) \<noteq> None \<and> workspaceFinalizer \<in> set (om_Finalizers (Meta w)) \<and>
    ''ws-1'' = st_WorkspaceID (Status w) \<and>
    example_entry example_doomed @ example_deletion =
      before @ runs @ resources @ [(Workspaces (Workspace_DeleteByID ''ws-1''), Inr R_None)] @ after \<and>
    DeleteRuns ''ws-1'' (example_world example_doomed) ([] @ before) t1 = Some (Ok (), t1, runs) \<and>
    DeleteResources ''ws-1'' (example_world example_doomed) ([] @ before @ runs) t1 = Some (Ok (), t1, resources)"
  by (rule Reconcile_deletes_last [OF example_doomed_run [of no_codecs example_client]])
    (simp add: example_deletion_def)

theorem Reconcile_releases_witness:
  "no_requeue = no_requeue \<and>
    (\<exists>front x. example_entry example_doomed @ example_deletion = front @ [(Kube (Update_Workspace (set_finalizers
        (filter (\<lambda>f. f \<noteq> workspaceFinalizer) (om_Finalizers (Meta example_doomed))) example_doomed)),
        Inr (R_Resource x))]) \<and>
    ((\<exists>a. (Workspaces (Workspace_DeleteByID (st_WorkspaceID (Status example_doomed))), a) \<in>
        set (example_entry example_doomed @ example_deletion)) \<or>
     list_all (\<lambda>e. \<not> is_Runs (fst e) \<and> (\<forall>i. fst e \<noteq> Workspaces (Workspace_DeleteByID i)))
       (example_entry example_doomed @ example_deletion))"
  unfolding list_all_iff
  by (rule Reconcile_releases [OF example_doomed_run [of no_codecs example_client]]) simp_all

definition example_timeout :: env where
  "example_timeout = script [Inr (R_Workspace example_remote), Inl (ErrorString ''timeout''),
     Inr (R_Resource (set_finalizers [] example_doomed))]"

lemma condDelete_lets_go_witness:
  "condDeleteWorkspace example_doomed example_timeout [] example_client = Some (Ok True, example_client,
    [(Workspaces (Workspace_ReadByID (st_WorkspaceID (Status example_doomed))), Inr (R_Workspace example_remote)),
     (Workspaces (Workspace_ReadByID (st_WorkspaceID (Status example_doomed))), Inl (ErrorString ''timeout'')),
     (Kube (Update_Workspace (set_finalizers (filter (\<lambda>f. f \<noteq> workspaceFinalizer)
        (om_Finalizers (Meta example_doomed))) example_doomed)), Inr (R_Resource (set_finalizers [] example_doomed)))])"
  by (rule condDelete_lets_go) (simp_all add: example_timeout_def script_def validStringID_def id_char_def)

definition example_lost_world :: env where
  "example_lost_world h q = (if q = Kube (Get_Workspace example_name) then Inr (R_Resource example_doomed)
     else Inl ErrUnauthorized)"

lemma Reconcile_needs_organization_witness:
  "\<exists>t' ev. Reconcile no_codecs example_name example_lost_world [] example_client =
      Some (Err (if validStringID (Some (sp_Organization (Spec example_doomed))) then ErrUnauthorized else ErrInvalidOrg), t', ev) \<and>
    list_all (\<lambda>q. q = Kube (Get_Workspace example_name) \<or>
       (\<exists>a b c. q = Kube (Record_Event example_doomed a b c)) \<or>
       q = Organizations (Organization_Read (sp_Organization (Spec example_doomed)))) (map fst ev)"
  unfolding list_all_iff
  by (rule Reconcile_needs_organization) (simp_all add: example_lost_world_def)

end
