(* ===== verification/Reconcile_Runs.thy ===== *)
theory Reconcile_Runs
  imports Reconcile_Examples
begin

text \<open>
  The runs of a live object: while a run is pending a reconcile only looks at it, a new run is
  the last thing a reconcile starts, a reconcile that asks to be repeated after a minute has
  changed nothing that needs a run, and a module run waits for its configuration.
\<close>

section \<open>A new run is the last thing\<close>

fun creates_run :: "request \<Rightarrow> bool" where
  "creates_run (Runs (Run_Create c)) = True"
| "creates_run q = False"

fun reports_run :: "request \<Rightarrow> bool" where
  "reports_run (Kube (UpdateStatus_Workspace w)) = True"
| "reports_run (Kube (Record_Event w a b c)) = True"
| "reports_run q = False"

lemma creates_run_iff: "creates_run q \<longleftrightarrow> (\<exists>c. q = Runs (Run_Create c))"
  by (cases q rule: creates_run.cases) auto

lemma request_not_creates_run [simp]:
  "initialize_request nn q \<Longrightarrow> \<not> creates_run q" "reconcile_workspace_request q \<Longrightarrow> \<not> creates_run q"
  "is_Notifications q \<Longrightarrow> \<not> creates_run q" "process_request q \<Longrightarrow> \<not> creates_run q"
  "template_request q \<Longrightarrow> \<not> creates_run q" "variables_request q \<Longrightarrow> \<not> creates_run q"
  "triggers_request q \<Longrightarrow> \<not> creates_run q" "start_request q \<Longrightarrow> \<not> is_Runs q \<Longrightarrow> \<not> creates_run q"
  by (auto simp: creates_run_iff)

lemma once_startRun: "once creates_run reports_run (startRun w)"
  unfolding startRun_def Let_def Runs_Create_def require_def
  by (intro once_andThen_before once_prod once_if once_basic once_andThen_after once_call emits_rules) simp_all

lemma once_reconcileFinished: "once creates_run reports_run (reconcileFinished C w)"
  unfolding reconcileFinished_def
  by (intro once_andThen_before once_prod once_if once_basic once_andThen_after once_startRun emits_rules) simp_all

lemma once_reconcileLive: "once creates_run reports_run (reconcileLive C w)"
  unfolding reconcileLive_def
  by (intro once_andThen_before once_prod once_if once_basic once_reconcileFinished emits_rules) simp_all

lemma reads_object:
  assumes "Reconcile C nn E h t = Some (r, t', ev)"
    and "E h (Kube (Get_Workspace nn)) = Inr (R_Resource w)" "om_DeletionTimestamp (Meta w) = None"
  obtains (stopped) r0 where "initializeReconciliation nn E h t = Some (r0, t', ev)" "\<And>x. r \<noteq> Ok x"
    | (live) t1 ev1 ev2 where "initializeReconciliation nn E h t = Some (Ok (Some w), t1, ev1)"
      "reconcileLive C w E (h @ ev1) t1 = Some (r, t', ev2)" "ev = ev1 @ ev2"
  using assms(1)
proof (cases rule: Reconcile_courses)
  case (stopped r0)
  have "\<And>x. r0 \<noteq> Ok x"
  proof
    fix x
    assume "r0 = Ok x"
    with stopped(2) have "r0 = Ok None" by (cases x) auto
    with initialize_None stopped(1) assms(2) show False by fastforce
  qed
  with that(1) stopped show thesis by (cases r0) auto
next
  case (marked w' t1 ev1 ev2 r1)
  with initialize_answer [OF marked(1) assms(2) refl] assms(3) show thesis by simp
next
  case (live w' t1 ev1 ev2)
  with initialize_answer [OF live(1) assms(2) refl] that(2) show thesis by simp
qed

text \<open>
  C4. A reconcile of a live object creates at most one run, and afterwards only records it: all
  later requests are status updates and events.
\<close>

theorem Reconcile_one_apply_run:
  assumes "Reconcile C nn E h t = Some (r, t', pre @ (Runs (Run_Create c), a) # post)"
    and "E h (Kube (Get_Workspace nn)) = Inr (R_Resource w)" "om_DeletionTimestamp (Meta w) = None"
  shows "(\<forall>c' a'. (Runs (Run_Create c'), a') \<notin> set (pre @ post)) \<and>
    (\<forall>q \<in> set (map fst post). (\<exists>w. q = Kube (UpdateStatus_Workspace w)) \<or> (\<exists>w x y z. q = Kube (Record_Event w x y z)))"
proof -
  let ?c = "Runs (Run_Create c)"
  have "emits (\<lambda>q. \<not> creates_run q) (initializeReconciliation nn)" by (intro emits_rules) simp
  note init = emits_event [OF this]
  have reports: "(\<exists>w. q = Kube (UpdateStatus_Workspace w)) \<or> (\<exists>w x y z. q = Kube (Record_Event w x y z))"
    if "reports_run q" for q using that by (cases q rule: reports_run.cases) auto
  from assms show ?thesis
  proof (cases rule: reads_object)
    case (stopped r0)
    from init [OF this(1), of ?c a] show ?thesis by simp
  next
    case (live t1 ev1 ev2)
    have "(?c, a) \<notin> set ev1" using init [OF live(1)] by fastforce
    with live(3) obtain pre2 where pre: "pre = ev1 @ pre2" and ev2: "ev2 = pre2 @ (?c, a) # post"
      by (auto simp: append_eq_append_conv2 Cons_eq_append_conv)
    from onceD [OF once_reconcileLive live(2) [unfolded ev2]]
    have "\<forall>e \<in> set pre2. \<not> creates_run (fst e)" "\<forall>e \<in> set post. reports_run (fst e) \<and> \<not> creates_run (fst e)"
      by simp_all
    with pre init [OF live(1)] reports show ?thesis by fastforce
  qed
qed

section \<open>A pending run\<close>

fun acts_on_spec :: "request \<Rightarrow> bool" where
  "acts_on_spec (Runs (Run_Read i)) = False"
| "acts_on_spec (Runs q) = True"
| "acts_on_spec (Variables q) = True"
| "acts_on_spec (RunTriggers q) = True"
| "acts_on_spec (ConfigVersions q) = True"
| "acts_on_spec (StateVersions q) = True"
| "acts_on_spec (Kube (Create_ConfigMap c)) = True"
| "acts_on_spec (Kube (Update_ConfigMap c)) = True"
| "acts_on_spec (Kube (Create_Secret s)) = True"
| "acts_on_spec (Kube (Update_Secret s)) = True"
| "acts_on_spec q = False"

lemma not_acts_on_spec [simp]:
  "initialize_request nn q \<Longrightarrow> \<not> acts_on_spec q" "reconcile_workspace_request q \<Longrightarrow> \<not> acts_on_spec q"
  "is_Notifications q \<Longrightarrow> \<not> acts_on_spec q"
  by (cases q rule: acts_on_spec.cases; auto)+

lemma runInProgress_pending:
  assumes "isPending (st_RunStatus (Status w))"
  shows "yields (\<lambda>x. fst x) (runInProgress w)"
  unfolding runInProgress_def using assms by (intro yields_rules) simp_all

text \<open>A pending run ends the reconcile, any other lets it go on without a poll.\<close>

lemma pending_tail:
  assumes "andThen (runInProgress w) (\<lambda>(shouldRequeue, w). if shouldRequeue then ret (no_requeue\<lparr>Requeue := True\<rparr>)
      else reconcileFinished C w) E h t = Some (r, t', ev)"
    and "(Runs (Run_Read i), a) \<in> set ev"
  shows "(\<forall>e \<in> set ev. \<not> acts_on_spec (fst e)) \<and> (\<forall>res. r = Ok res \<longrightarrow> Requeue res \<and> RequeueAfter res = 0)"
proof (cases "isPending (st_RunStatus (Status w))")
  case True
  have "emits (\<lambda>q. \<not> acts_on_spec q) (runInProgress w)" by (intro emits_rules) simp_all
  note quiet = emitsD [OF this]
  from assms(1) show ?thesis
  proof (cases rule: andThen_SomeE)
    case (ok x t1 ev1 ev2)
    from yieldsD [OF runInProgress_pending [OF True] ok(1)] ok(2) have "ev2 = []"
      "r = Ok (no_requeue\<lparr>Requeue := True\<rparr>)" by (auto simp: split_def)
    with quiet [OF ok(1)] ok(3) show ?thesis by (simp add: no_requeue_def)
  qed (use quiet in auto)
next
  case False
  then have "runInProgress w = ret (False, w)" by (simp add: runInProgress_def)
  with assms(1) have run: "reconcileFinished C w E h t = Some (r, t', ev)" by simp
  have "emits (\<lambda>q. q \<noteq> Runs (Run_Read i)) (reconcileFinished C w)" by (intro emits_rules) auto
  from emits_event [OF this run assms(2)] show ?thesis by simp
qed

text \<open>A reconcile that polls does nothing else about the object.\<close>

lemma polling_reconcile:
  assumes "Reconcile C nn E h t = Some (r, t', ev)"
    and "E h (Kube (Get_Workspace nn)) = Inr (R_Resource w)" "om_DeletionTimestamp (Meta w) = None"
    and "(Runs (Run_Read i), a) \<in> set ev"
  shows "(\<forall>q \<in> set (map fst ev). \<not> acts_on_spec q) \<and>
    (case r of Ok res \<Rightarrow> Requeue res \<and> RequeueAfter res = 0 | _ \<Rightarrow> True)"
proof -
  let ?p = "Runs (Run_Read i)"
  have "emits (\<lambda>q. \<not> acts_on_spec q \<and> q \<noteq> ?p) (initializeReconciliation nn)" by (intro emits_rules) auto
  note init = emits_event [OF this]
  from assms(1-3) show ?thesis
  proof (cases rule: reads_object)
    case (stopped r0)
    from init [OF stopped(1) assms(4)] show ?thesis by simp
  next
    case (live t1 ev1 ev2)
    from init [OF live(1)] have "(?p, a) \<notin> set ev1" by blast
    with live(3) assms(4) have p: "(?p, a) \<in> set ev2" by simp
    have quiet: "emits (\<lambda>q. \<not> acts_on_spec q) (reconcileWorkspace w)"
      "\<And>w. emits (\<lambda>q. \<not> acts_on_spec q) (reconcileNotifications w)" by (intro emits_rules; simp)+
    have no_poll: "emits (\<lambda>q. \<not> q = ?p) (reconcileWorkspace w)"
      "\<And>w. emits (\<lambda>q. \<not> q = ?p) (reconcileNotifications w)" by (intro emits_rules; auto)+
    let ?k = "\<lambda>w. andThen (runInProgress w) (\<lambda>(shouldRequeue, w).
      if shouldRequeue then ret (no_requeue\<lparr>Requeue := True\<rparr>) else reconcileFinished C w)"
    from live(2) have "andThen (reconcileWorkspace w) (\<lambda>w. andThen (reconcileNotifications w) (\<lambda>_. ?k w))
      E (h @ ev1) t1 = Some (r, t', ev2)" by (simp only: reconcileLive_def)
    then obtain w1 t2 e1 e2 where e1: "reconcileWorkspace w E (h @ ev1) t1 = Some (Ok w1, t2, e1)"
      and more: "andThen (reconcileNotifications w1) (\<lambda>_. ?k w1) E ((h @ ev1) @ e1) t2 = Some (r, t', e2)"
      and ev2: "ev2 = e1 @ e2" and p2: "(?p, a) \<in> set e2"
      using no_poll(1) p refl by (rule andThen_requestE)
    from more no_poll(2) p2 refl obtain u t3 e3 e4 where
      e3: "reconcileNotifications w1 E ((h @ ev1) @ e1) t2 = Some (Ok u, t3, e3)"
      and tail: "?k w1 E (((h @ ev1) @ e1) @ e3) t3 = Some (r, t', e4)"
      and e2: "e2 = e3 @ e4" and p4: "(?p, a) \<in> set e4" by (rule andThen_requestE)
    from pending_tail [OF tail p4] emitsD [OF quiet(1) e1] emitsD [OF quiet(2) e3] init [OF live(1)]
    show ?thesis unfolding live(3) ev2 e2 by (auto split: outcome.split)
  qed
qed

text \<open>
  C3. A reconcile of a live object that polls the run of the status does nothing else about the
  object: it reads no outputs, writes no configuration, touches no variable or run trigger and
  creates no run, and when it succeeds it asks to be repeated at once.
\<close>

theorem Reconcile_pending_only_polls:
  assumes "Reconcile C nn E h t = Some (r, t', ev)"
    and "E h (Kube (Get_Workspace nn)) = Inr (R_Resource w)" "om_DeletionTimestamp (Meta w) = None"
    and "(Runs (Run_Read i), a) \<in> set ev"
  shows "(\<forall>q \<in> set (map fst ev). \<not> acts_on_spec q) \<and>
    (case r of Ok res \<Rightarrow> Requeue res \<and> RequeueAfter res = 0 | _ \<Rightarrow> True)"
  by (rule polling_reconcile [OF assms])

section \<open>A reconcile that only asks to be repeated\<close>

text \<open>What gives cause for a run: a new configuration, a changed variable, a new run trigger.\<close>

fun causes_run :: "request \<Rightarrow> bool" where
  "causes_run (Runs (Run_Create c)) = True"
| "causes_run (Kube (Create_ConfigMap c)) = True"
| "causes_run (Kube (Update_ConfigMap c)) = True"
| "causes_run (Variables (Variable_Update x y z)) = True"
| "causes_run (RunTriggers (RunTrigger_Create x y)) = True"
| "causes_run q = False"

lemma not_causes_run [simp]:
  "initialize_request nn q \<Longrightarrow> \<not> causes_run q" "reconcile_workspace_request q \<Longrightarrow> \<not> causes_run q"
  "is_Notifications q \<Longrightarrow> \<not> causes_run q" "process_request q \<Longrightarrow> \<not> causes_run q"
  by (cases q rule: causes_run.cases; auto)+

lemma silent_template: "silent (\<lambda>b. \<not> b) (\<lambda>q. \<not> causes_run q) (updateTerraformTemplate w)"
  unfolding updateTerraformTemplate_def UpsertTerraformConfig_def Let_def
  by (intro silent_rules silent_after silent_never yields_rules emits_rules) simp_all

lemma silent_variables: "silent (\<lambda>b. \<not> b) (\<lambda>q. \<not> causes_run q) (CheckVariables name spec)"
  unfolding CheckVariables_def listVariables_def
  by (intro silent_after silent_if silent_basic silent_never [OF yields_andThen] yields_basic emits_rules) auto

lemma silent_createRunTriggers:
  "silent (\<lambda>b. \<not> b) (\<lambda>q. \<not> causes_run q) (createRunTriggersOnTFC w spec remote)"
proof (cases "list_ex (\<lambda>rt. findRT remote (trt_SourceableName rt) < 0) spec")
  case True
  then show ?thesis
    unfolding createRunTriggersOnTFC_def by (intro silent_never yields_rules) simp
next
  case False
  then have "filter (\<lambda>rt. findRT remote (trt_SourceableName rt) < 0) spec = []"
    by (simp add: list_ex_iff filter_empty_conv)
  then show ?thesis
    unfolding createRunTriggersOnTFC_def each_filter by (simp add: silent_basic)
qed

lemma silent_triggers: "silent (\<lambda>b. \<not> b) (\<lambda>q. \<not> causes_run q) (CheckRunTriggers name spec)"
  unfolding CheckRunTriggers_def listRunTriggers_def
  by (intro silent_after silent_Let silent_createRunTriggers emits_rules) simp_all

lemma silent_updateVariables: "silent (\<lambda>x. \<not> fst x) (\<lambda>q. \<not> causes_run q) (updateVariables w)"
  unfolding updateVariables_def resolveVariable_def
  by (intro silent_after silent_bind [OF silent_variables] silent_basic yields_rules emits_rules) simp_all

text \<open>What \<open>reconcileFinished\<close> knows when it creates no run.\<close>

lemma silent_reconcileFinished:
  "silent (\<lambda>res. \<not> Requeue res) (\<lambda>q. \<not> causes_run q) (reconcileFinished C w)"
  unfolding reconcileFinished_def
proof (rule silent_after)
  show "emits (\<lambda>q. \<not> causes_run q) (processFinishedRun C w)" by (intro emits_rules) simp
next
  fix w
  let ?decide = "\<lambda>a b c w. if a \<or> b \<or> c \<or> st_RunID (Status w) = '''' \<or> st_ConfigVersionID (Status w) \<noteq> ''''
      then andThen (startRun w) (\<lambda>w. andThen (record_event w ''Normal'' ''WorkspaceEvent''
        (''Started new Terraform job with id '' @ st_RunID (Status w))) (\<lambda>_. ret (no_requeue\<lparr>Requeue := True\<rparr>)))
      else ret (no_requeue\<lparr>RequeueAfter := requeueInterval\<rparr>)"
  have quiet: "silent (\<lambda>res. \<not> Requeue res) (\<lambda>q. \<not> causes_run q) (?decide a b c w)" for a b c w
    by (intro silent_if silent_basic silent_never yields_rules) simp
  have loud: "yields (\<lambda>res. \<not> \<not> Requeue res) (?decide a b c w)" if "a \<or> b \<or> c" for a b c w
    by (intro yields_rules) (use that in auto)
  show "silent (\<lambda>res. \<not> Requeue res) (\<lambda>q. \<not> causes_run q)
    (andThen (updateTerraformTemplate w) (\<lambda>a. andThen (updateVariables w) (\<lambda>(b, w). andThen (updateRunTriggers w)
      (\<lambda>c. ?decide a b c w))))"
    unfolding updateRunTriggers_def
    by (intro silent_bind [OF silent_template] silent_bind [OF silent_updateVariables] silent_bind [OF silent_triggers]
        silent_prod quiet yields_andThen yields_prod loud) simp_all
qed

text \<open>
  C6. A reconcile of a live object that asks to be repeated only after the interval has created no
  run and given no cause for one: it wrote no configuration and updated no variable, and it
  created no run trigger. (It may have created or deleted variables and deleted triggers.)
\<close>

theorem Reconcile_quiet:
  assumes "Reconcile C nn E h t = Some (Ok res, t', ev)"
    and "E h (Kube (Get_Workspace nn)) = Inr (R_Resource w)" "om_DeletionTimestamp (Meta w) = None"
    and "\<not> Requeue res"
  shows "res = no_requeue\<lparr>RequeueAfter := 60\<rparr> \<and> (\<forall>q \<in> set (map fst ev). \<not> causes_run q)"
proof -
  have waits: "yields (\<lambda>res. \<not> Requeue res \<longrightarrow> res = no_requeue\<lparr>RequeueAfter := 60\<rparr>) (reconcileLive C w)"
    unfolding reconcileLive_def reconcileFinished_def
    by (intro yields_rules) (simp_all add: requeueInterval_def)
  have init: "emits (\<lambda>q. \<not> causes_run q) (initializeReconciliation nn)" by (intro emits_rules) simp
  have live_silent: "silent (\<lambda>res. \<not> Requeue res) (\<lambda>q. \<not> causes_run q) (reconcileLive C w)"
    unfolding reconcileLive_def
    by (intro silent_after silent_prod silent_if silent_basic silent_reconcileFinished emits_rules) simp_all
  from assms(1-3) show ?thesis
  proof (cases rule: reads_object)
    case (live t1 ev1 ev2)
    from yieldsD [OF waits live(2)] silentD [OF live_silent live(2)] emitsD [OF init live(1)] live(3) assms(4)
    show ?thesis by auto
  qed blast
qed

section \<open>A module run waits for its configuration\<close>

text \<open>
  While the configuration version of a module workspace is not accepted, starting the run is
  put off: nothing is uploaded again, no run is created and the object is unchanged. (The
  reconcile still announces a started job, with the ID of the previous run.)
\<close>

lemma startRun_waits:
  assumes "sp_VCS (Spec w) = None" "sp_Module (Spec w) \<noteq> None"
    and "st_ConfigVersionID (Status w) \<noteq> ''''" "validStringID (Some (st_ConfigVersionID (Status w)))"
    and "E h (ConfigVersions (ConfigVersion_Read (st_ConfigVersionID (Status w)))) = Inr (R_ConfigVersion cv)"
    and "cv_Status cv \<noteq> ''uploaded''"
  shows "startRun w E h t = Some (Ok w, t,
    [(ConfigVersions (ConfigVersion_Read (st_ConfigVersionID (Status w))), Inr (R_ConfigVersion cv))])"
  using assms
  by (simp add: startRun_def prepareModuleRun_def ConfigurationVersions_Read_def go_defs Let_def)

text \<open>
  Once the configuration version is accepted, it is cleared from the status and the run is
  created, but with the options from before: the accepted version is not part of them.
\<close>

lemma startRun_drops_configuration:
  fixes w :: Workspace
  defines "read \<equiv> ConfigVersions (ConfigVersion_Read (st_ConfigVersionID (Status w)))"
    and "clear \<equiv> Kube (UpdateStatus_Workspace (set_status (\<lambda>s. s\<lparr>st_ConfigVersionID := ''''\<rparr>) w))"
    and "start \<equiv> Runs (Run_Create (run_options w))"
    and "record_it \<equiv> \<lambda>w run. Kube (UpdateStatus_Workspace
      (set_status (\<lambda>s. s\<lparr>st_RunID := run_ID run, st_RunStatus := run_Status run\<rparr>) w))"
  assumes "sp_VCS (Spec w) = None" "sp_Module (Spec w) \<noteq> None"
    and "st_ConfigVersionID (Status w) \<noteq> ''''" "validStringID (Some (st_ConfigVersionID (Status w)))"
    and "E h read = Inr (R_ConfigVersion cv)" "cv_Status cv = ''uploaded''"
    and "E (h @ [(read, Inr (R_ConfigVersion cv))]) clear = Inr (R_Resource w1)"
    and "E (h @ [(read, Inr (R_ConfigVersion cv)), (clear, Inr (R_Resource w1))]) start = Inr (R_Run run)"
    and "E (h @ [(read, Inr (R_ConfigVersion cv)), (clear, Inr (R_Resource w1)), (start, Inr (R_Run run))])
      (record_it w1 run) = Inr (R_Resource w2)"
  shows "startRun w E h t = Some (Ok w2, t, [(read, Inr (R_ConfigVersion cv)), (clear, Inr (R_Resource w1)),
      (start, Inr (R_Run run)), (record_it w1 run, Inr (R_Resource w2))]) \<and>
    rco_ConfigurationVersion (run_options w) = None"
proof -
  have read: "ConfigurationVersions_Read (st_ConfigVersionID (Status w)) E h t =
      Some (Ok cv, t, [(read, Inr (R_ConfigVersion cv))])"
    using assms(8,9) by (simp add: ConfigurationVersions_Read_def read_def go_defs Let_def)
  have clear: "kube_UpdateStatus_Workspace (set_status (\<lambda>s. s\<lparr>st_ConfigVersionID := ''''\<rparr>) w) E
      (h @ [(read, Inr (R_ConfigVersion cv))]) t = Some (Ok w1, t, [(clear, Inr (R_Resource w1))])"
    using assms(11) unfolding clear_def kube_Ok by simp
  have start: "Runs_Create (run_options w) E (h @ [(read, Inr (R_ConfigVersion cv)), (clear, Inr (R_Resource w1))]) t =
      Some (Ok run, t, [(start, Inr (R_Run run))])"
    using assms(12) by (simp add: Runs_Create_def run_options_def start_def go_defs Let_def)
  have record_it: "kube_UpdateStatus_Workspace
      (set_status (\<lambda>s. s\<lparr>st_RunID := run_ID run, st_RunStatus := run_Status run\<rparr>) w1) E
      (h @ [(read, Inr (R_ConfigVersion cv)), (clear, Inr (R_Resource w1)), (start, Inr (R_Run run))]) t =
      Some (Ok w2, t, [(record_it w1 run, Inr (R_Resource w2))])"
    using assms(13) unfolding record_it_def kube_Ok by simp
  from read clear start record_it assms(5-7,10) show ?thesis
    by (simp add: startRun_def prepareModuleRun_def Let_def andThen_def ret_def run_options_def)
qed

section \<open>Examples\<close>

theorem Reconcile_one_apply_run_witness:
  "(\<forall>c' a'. (Runs (Run_Create c'), a') \<notin> set (example_before_run @ example_start)) \<and>
    list_all (\<lambda>q. (\<exists>w. q = Kube (UpdateStatus_Workspace w)) \<or>
       (\<exists>w x y z. q = Kube (Record_Event w x y z))) (map fst example_start)"
  unfolding list_all_iff
  by (rule Reconcile_one_apply_run [OF example_start_run [of no_codecs example_client],
      where w = "example_vcs '''' ''''"]) simp_all

theorem Reconcile_pending_only_polls_witness:
  "list_all (\<lambda>q. \<not> acts_on_spec q) (map fst example_polling) \<and>
    (case Ok (no_requeue\<lparr>Requeue := True\<rparr>) of Ok res \<Rightarrow> Requeue res \<and> RequeueAfter res = 0 | _ \<Rightarrow> True)"
  unfolding list_all_iff
  by (rule Reconcile_pending_only_polls [OF example_polling_run [of no_codecs example_client], where i = "''run-1''"
      and a = "Inr (R_Run \<lparr>run_ID = ''run-1'', run_Status = ''applied''\<rparr>)"])
    (simp, simp, simp add: example_polling_def)

theorem Reconcile_quiet_witness:
  "no_requeue\<lparr>RequeueAfter := 60\<rparr> = no_requeue\<lparr>RequeueAfter := 60\<rparr> \<and>
    list_all (\<lambda>q. \<not> causes_run q) (map fst example_quiet)"
  unfolding list_all_iff
  by (rule Reconcile_quiet [OF example_quiet_run [of no_codecs example_client],
      where w = "example_vcs ''run-1'' ''errored''"]) (simp_all add: no_requeue_def)

definition example_waiting :: Workspace where
  "example_waiting = set_status (\<lambda>s. s\<lparr>st_ConfigVersionID := ''cv-1''\<rparr>) (example_known '''')"

definition example_version :: "string \<Rightarrow> ConfigurationVersion" where
  "example_version status = \<lparr>cv_ID = ''cv-1'', cv_Status = status, cv_UploadURL = ''''\<rparr>"

lemma example_waiting_fields [simp]:
  "sp_VCS (Spec example_waiting) = None" "sp_Module (Spec example_waiting) \<noteq> None"
  "st_ConfigVersionID (Status example_waiting) = ''cv-1''"
  by (simp_all add: example_waiting_def example_workspace_def)

lemma startRun_waits_witness:
  "startRun example_waiting (\<lambda>h q. Inr (R_ConfigVersion (example_version ''pending''))) [] example_client =
    Some (Ok example_waiting, example_client,
    [(ConfigVersions (ConfigVersion_Read (st_ConfigVersionID (Status example_waiting))),
      Inr (R_ConfigVersion (example_version ''pending'')))])"
  by (rule startRun_waits) (simp_all add: validStringID_def id_char_def example_version_def)

definition example_accepting :: env where
  "example_accepting = script [Inr (R_ConfigVersion (example_version ''uploaded'')), Inr (R_Resource (example_known '''')),
     Inr (R_Run example_destroyed), Inr (R_Resource example_started)]"

lemma startRun_drops_configuration_witness:
  "\<exists>ev. startRun example_waiting example_accepting [] example_client = Some (Ok example_started, example_client, ev) \<and>
    rco_ConfigurationVersion (run_options example_waiting) = None"
  using startRun_drops_configuration [of example_waiting example_accepting "[]" "example_version ''uploaded''"
      "example_known ''''" example_destroyed example_started example_client]
  by (simp add: example_accepting_def script_def validStringID_def id_char_def example_version_def)

end
