(* ===== verification/Reconcile_Lifecycle.thy ===== *)
theory Reconcile_Lifecycle
  imports Reconcile_Examples
begin

text \<open>
  The life of the status of a Workspace: a state machine whose steps are the status updates a
  reconcile may send, and the proof that every reconcile of every object follows it.
\<close>

section \<open>The state machine\<close>

text \<open>
  The steps: the workspace is created or found again under another ID; a run that was started
  elsewhere is adopted; a pending run is polled; the outputs of a finished run change; the
  configuration is uploaded, and forgotten when it is accepted; a run is started. The last four
  need a run that is not pending.
\<close>

inductive status_step :: "WorkspaceStatus \<Rightarrow> WorkspaceStatus \<Rightarrow> bool" where
  bind: "ident \<noteq> st_WorkspaceID s \<Longrightarrow>
    status_step s (s\<lparr>st_WorkspaceID := ident, st_Outputs := Some []\<rparr>)"
| adopt: "st_RunID s \<noteq> '''' \<Longrightarrow> run \<noteq> st_RunID s \<Longrightarrow> status_step s (s\<lparr>st_RunID := run\<rparr>)"
| poll: "isPending (st_RunStatus s) \<Longrightarrow> status \<noteq> st_RunStatus s \<Longrightarrow>
    status_step s (s\<lparr>st_RunStatus := status\<rparr>)"
| outputs: "\<not> isPending (st_RunStatus s) \<Longrightarrow> \<not> isError (st_RunStatus s) \<Longrightarrow> Some os \<noteq> st_Outputs s \<Longrightarrow>
    status_step s (s\<lparr>st_Outputs := Some os\<rparr>)"
| upload: "\<not> isPending (st_RunStatus s) \<Longrightarrow> st_ConfigVersionID s = '''' \<Longrightarrow>
    status_step s (s\<lparr>st_ConfigVersionID := version\<rparr>)"
| accept: "\<not> isPending (st_RunStatus s) \<Longrightarrow> st_ConfigVersionID s \<noteq> '''' \<Longrightarrow>
    status_step s (s\<lparr>st_ConfigVersionID := ''''\<rparr>)"
| start: "\<not> isPending (st_RunStatus s) \<Longrightarrow> status_step s (s\<lparr>st_RunID := run, st_RunStatus := status\<rparr>)"

inductive_cases status_stepE: "status_step s s'"

fun chain :: "('a \<Rightarrow> 'a \<Rightarrow> bool) \<Rightarrow> 'a \<Rightarrow> 'a list \<Rightarrow> bool" where
  "chain R x [] = True"
| "chain R x (y # ys) = (R x y \<and> chain R y ys)"

lemma chain_append: "chain R x (ys @ zs) \<longleftrightarrow> chain R x ys \<and> chain R (last (x # ys)) zs"
  by (induction ys arbitrary: x) auto

section \<open>Following it\<close>

fun status_write :: "request \<Rightarrow> WorkspaceStatus option" where
  "status_write (Kube (UpdateStatus_Workspace w)) = Some (Status w)"
| "status_write q = None"

text \<open>The API server answers a write of an object with the status that was sent or, of a write of the rest, kept.\<close>

definition keeps_status :: "env \<Rightarrow> bool" where
  "keeps_status E \<longleftrightarrow> (\<forall>h w w'. (E h (Kube (UpdateStatus_Workspace w)) = Inr (R_Resource w') \<or>
     E h (Kube (Update_Workspace w)) = Inr (R_Resource w')) \<longrightarrow> Status w' = Status w)"

text \<open>
  \<open>life s Q m\<close>: from status \<open>s\<close>, the statuses \<open>m\<close> sends follow the state machine, and when it
  returns \<open>a\<close> with \<open>s'\<close> the last of them (or \<open>s\<close>), then \<open>Q a s'\<close>.
\<close>

definition life :: "WorkspaceStatus \<Rightarrow> ('a \<Rightarrow> WorkspaceStatus \<Rightarrow> bool) \<Rightarrow> 'a go \<Rightarrow> bool" where
  "life s Q m \<longleftrightarrow> (\<forall>E h t r t' ev. keeps_status E \<longrightarrow> m E h t = Some (r, t', ev) \<longrightarrow>
     chain status_step s (sent status_write ev) \<and>
     (\<forall>a. r = Ok a \<longrightarrow> Q a (last (s # sent status_write ev))))"

named_theorems life_rules \<open>computations that follow the life of a status\<close>

lemma lifeD:
  "life s Q m \<Longrightarrow> keeps_status E \<Longrightarrow> m E h t = Some (r, t', ev) \<Longrightarrow>
   chain status_step s (sent status_write ev) \<and> (\<forall>a. r = Ok a \<longrightarrow> Q a (last (s # sent status_write ev)))"
  unfolding life_def by blast

lemma life_emits: "emits (\<lambda>q. status_write q = None) m \<Longrightarrow> (\<And>a. Q a s) \<Longrightarrow> life s Q m"
  unfolding life_def using sent_none by (metis chain.simps(1) last.simps)

lemma life_ret [life_rules]: "Q a s \<Longrightarrow> life s Q (ret a)"
  and life_fail [life_rules]: "life s Q (fail e)" and life_panic [life_rules]: "life s Q (panic x)"
  by (simp_all add: life_def)

lemma life_andThen:
  assumes m: "life s R m" and k: "\<And>a s'. R a s' \<Longrightarrow> life s' Q (k a)"
  shows "life s Q (andThen m k)"
  unfolding life_def
proof (intro allI impI)
  fix E h t r t' ev
  assume E: "keeps_status E" and "andThen m k E h t = Some (r, t', ev)"
  from this(2) show "chain status_step s (sent status_write ev) \<and>
      (\<forall>a. r = Ok a \<longrightarrow> Q a (last (s # sent status_write ev)))"
  proof (cases rule: andThen_SomeE)
    case (ok a t1 ev1 ev2)
    from lifeD [OF m E ok(1)] have 1: "chain status_step s (sent status_write ev1)"
      "R a (last (s # sent status_write ev1))" by simp_all
    from lifeD [OF k [OF 1(2)] E ok(2)] 1(1) ok(3) show ?thesis
      by (cases "sent status_write ev2") (auto simp: chain_append)
  qed (use lifeD [OF m E] in auto)
qed

lemma life_weaken: "life s R m \<Longrightarrow> (\<And>a s'. R a s' \<Longrightarrow> Q a s') \<Longrightarrow> life s Q m"
  unfolding life_def by blast

lemma life_if [life_rules]:
  "(b \<Longrightarrow> life s Q m) \<Longrightarrow> (\<not> b \<Longrightarrow> life s Q n) \<Longrightarrow> life s Q (if b then m else n)"
  by simp

lemma life_UpdateStatus:
  "status_step s (Status w) \<Longrightarrow> (\<And>w'. Status w' = Status w \<Longrightarrow> Q w' (Status w)) \<Longrightarrow>
   life s Q (kube_UpdateStatus_Workspace w)"
  by (auto simp: life_def kube_UpdateStatus_Workspace_def call_Some keeps_status_def
      split: sum.splits option.splits elim!: as_resource.elims)

lemma life_Update_Workspace:
  "(\<And>w'. Status w' = Status w \<Longrightarrow> Q w' s) \<Longrightarrow> life s Q (kube_Update_Workspace w)"
  by (auto simp: life_def kube_Update_Workspace_def call_Some keeps_status_def
      split: sum.splits option.splits elim!: as_resource.elims)

section \<open>Every step of a reconcile\<close>

abbreviation holds_status :: "Workspace \<Rightarrow> WorkspaceStatus \<Rightarrow> bool" where
  "holds_status w s \<equiv> Status w = s"

abbreviation settled_status :: "Workspace \<Rightarrow> WorkspaceStatus \<Rightarrow> bool" where
  "settled_status w s \<equiv> Status w = s \<and> \<not> isPending (st_RunStatus s)"

lemma no_status_write [simp]:
  "workspace_sync_request q \<Longrightarrow> status_write q = None" "is_Notifications q \<Longrightarrow> status_write q = None"
  "is_StateVersions q \<Longrightarrow> status_write q = None" "template_request q \<Longrightarrow> status_write q = None"
  "variables_request q \<Longrightarrow> status_write q = None" "triggers_request q \<Longrightarrow> status_write q = None"
  "initialize_request nn q \<Longrightarrow> status_write q = None" "finalize_request i q \<Longrightarrow> status_write q = None"
  by (cases q rule: status_write.cases; auto)+

text \<open>A part that sends no status leaves the state where it was.\<close>

lemma life_skip:
  "emits (\<lambda>q. status_write q = None) m \<Longrightarrow> (\<And>a. life s Q (k a)) \<Longrightarrow> life s Q (andThen m k)"
  by (rule life_andThen [where R = "\<lambda>_ s'. s' = s"]) (auto intro: life_emits)

lemma life_recordWorkspaceID: "life (Status w) holds_status (recordWorkspaceID ws w)"
  unfolding recordWorkspaceID_def
  by (intro life_if life_ret life_UpdateStatus) (auto intro: status_step.bind [of "tw_ID ws"])

lemma life_adoptRun: "life (Status w) holds_status (adoptRun ws w)"
proof (cases "tw_CurrentRun ws")
  case None
  then show ?thesis by (simp add: adoptRun_def life_ret)
next
  case (Some run)
  have "life (Status w) holds_status (andThen (kube_UpdateStatus_Workspace (set_status (\<lambda>s. s\<lparr>st_RunID := run_ID run\<rparr>) w))
      (\<lambda>w. andThen (record_event w ''Normal'' ''WorkspaceEvent'' msg) (\<lambda>_. ret w)))"
    if "st_RunID (Status w) \<noteq> ''''" "st_RunID (Status w) \<noteq> run_ID run" for msg
    by (rule life_andThen [where R = holds_status])
      (use that in \<open>auto intro!: life_UpdateStatus status_step.adopt life_skip life_ret emits_rules\<close>)
  with Some show ?thesis by (auto simp: adoptRun_def intro: life_ret)
qed

lemma life_finish_workspace:
  "life (Status w) holds_status
     (if \<not> contains (om_Finalizers (Meta w)) workspaceFinalizer then addFinalizer w else ret w)"
  unfolding addFinalizer_def
  by (intro life_if life_ret life_Update_Workspace) (simp_all add: set_finalizers_def)

lemma life_reconcileWorkspace: "life (Status w) holds_status (reconcileWorkspace w)"
  unfolding reconcileWorkspace_def
proof (rule life_skip)
  show "emits (\<lambda>q. status_write q = None) (CheckWorkspace (workspace_name w) w)" by (intro emits_rules) simp
next
  fix ws
  show "life (Status w) holds_status (andThen (recordWorkspaceID ws w) (\<lambda>w. andThen (adoptRun ws w) (\<lambda>w.
     if \<not> contains (om_Finalizers (Meta w)) workspaceFinalizer then addFinalizer w else ret w)))"
    by (rule life_andThen [OF life_recordWorkspaceID], erule subst, rule life_andThen [OF life_adoptRun],
        erule subst, rule life_finish_workspace)
qed

lemma life_runInProgress:
  "life (Status w) (\<lambda>x s. Status (snd x) = s \<and> (\<not> fst x \<longrightarrow> \<not> isPending (st_RunStatus s))) (runInProgress w)"
proof (cases "isPending (st_RunStatus (Status w))")
  case False
  then show ?thesis by (simp add: runInProgress_def life_ret)
next
  case True
  then have "life (Status w) holds_status (if st_RunStatus (Status w) \<noteq> status
      then kube_UpdateStatus_Workspace (set_status (\<lambda>s. s\<lparr>st_RunStatus := status\<rparr>) w) else ret w)" for status
    by (intro life_if life_ret life_UpdateStatus) (auto intro: status_step.poll)
  note step = life_andThen [OF this]
  from True show ?thesis
    by (simp only: runInProgress_def not_True_eq_False if_False)
      (rule life_skip [OF _ step], auto intro!: emits_rules life_ret)
qed

lemma life_processFinishedRun:
  assumes "\<not> isPending (st_RunStatus (Status w))"
  shows "life (Status w) settled_status (processFinishedRun C w)"
proof (cases "isError (st_RunStatus (Status w))")
  case True
  with assms show ?thesis
    by (simp only: processFinishedRun_def if_True) (rule life_skip, auto intro!: emits_rules life_ret)
next
  case False
  have announce: "life s settled_status (andThen (record_event w ''Normal'' ''WorkspaceEvent'' msg) (\<lambda>_. ret w))"
    if "settled_status w s" for s w msg
    by (rule life_skip) (use that in \<open>auto intro!: emits_rules life_ret\<close>)
  have "life (Status w) settled_status (if Some os \<noteq> st_Outputs (Status w) then
        andThen (kube_UpdateStatus_Workspace (set_status (\<lambda>s. s\<lparr>st_Outputs := Some os\<rparr>) w)) (\<lambda>w.
        andThen (record_event w ''Normal'' ''WorkspaceEvent''
          (''Updated outputs for run '' @ st_RunID (Status w))) (\<lambda>_. ret w))
      else ret w)" for os
    using assms False
    by (intro life_if life_ret life_andThen [where R = settled_status] life_UpdateStatus announce)
      (auto intro: status_step.outputs)
  note step = life_andThen [OF this]
  from False show ?thesis
    by (simp only: processFinishedRun_def if_False)
      (rule life_skip [OF _ step], auto intro!: emits_rules life_ret life_skip)
qed

lemma life_updateVariables:
  "\<not> isPending (st_RunStatus (Status w)) \<Longrightarrow>
   life (Status w) (\<lambda>x s. Status (snd x) = s \<and> \<not> isPending (st_RunStatus s)) (updateVariables w)"
  unfolding updateVariables_def resolveVariable_def
  by (intro life_skip life_ret emits_rules) (auto simp: set_variables_def variable_sync_request_def is_Variables_def)

lemma life_uploaded:
  assumes "\<not> isPending (st_RunStatus (Status w))"
  shows "life (Status w) (\<lambda>x s. settled_status (snd x) s)
    (andThen (ConfigurationVersions_Read (st_ConfigVersionID (Status w))) (\<lambda>configVersion.
     if cv_Status configVersion \<noteq> ''uploaded'' then ret (True, w)
     else
       andThen (kube_UpdateStatus_Workspace (set_status (\<lambda>s. s\<lparr>st_ConfigVersionID := ''''\<rparr>) w)) (\<lambda>w.
       ret (False, w))))"
proof (cases "st_ConfigVersionID (Status w) = ''''")
  case True
  then show ?thesis by (simp add: ConfigurationVersions_Read_def life_fail)
next
  case False
  have "life (Status w) settled_status (kube_UpdateStatus_Workspace (set_status (\<lambda>s. s\<lparr>st_ConfigVersionID := ''''\<rparr>) w))"
    using assms False by (intro life_UpdateStatus) (auto intro: status_step.accept)
  note step = life_andThen [OF this]
  from assms show ?thesis
    by (intro life_skip life_if life_ret step) (auto intro!: emits_rules)
qed

lemma life_prepareModuleRun:
  assumes "\<not> isPending (st_RunStatus (Status w))"
  shows "life (Status w) (\<lambda>x s. settled_status (snd x) s) (prepareModuleRun w options)"
proof -
  have up: "life (Status w) settled_status
      (kube_UpdateStatus_Workspace (set_status (\<lambda>s. s\<lparr>st_ConfigVersionID := ident\<rparr>) w))"
    if "st_ConfigVersionID (Status w) = ''''" for ident
    using assms that by (intro life_UpdateStatus) (auto intro: status_step.upload)
  have one: "life (Status w) settled_status
       (if st_ConfigVersionID (Status w) = '''' then
          andThen (kube_Get_ConfigMap \<lparr>nn_Namespace = ws_Namespace w, nn_Name = ws_Name w\<rparr>) (\<lambda>cfgMap.
          let tf = (case lookup_map (cm_Data cfgMap) TerraformConfigMap of None \<Rightarrow> '''' | Some s \<Rightarrow> s) in
          andThen (CreateConfigurationVersion (st_WorkspaceID (Status w))) (\<lambda>configVersion.
          andThen (attempt (call (Host (Stat moduleDirectory)) as_fileinfo)) (\<lambda>res.
          andThen (case res of
                     Inl err \<Rightarrow> if os_IsNotExist err then perform (Host (Mkdir moduleDirectory)) else ret ()
                   | Inr _ \<Rightarrow> ret ()) (\<lambda>_.
          andThen (perform (Host (WriteFile configurationFilePath tf))) (\<lambda>_.
          andThen (UploadConfigurationFile (cv_UploadURL configVersion)) (\<lambda>_.
          kube_UpdateStatus_Workspace (set_status (\<lambda>s. s\<lparr>st_ConfigVersionID := cv_ID configVersion\<rparr>) w)))))))
        else ret w)"
    unfolding Let_def
    by (intro life_if life_skip up life_ret emits_rules) (use assms in simp_all)
  note step = life_andThen [OF one]
  show ?thesis
    unfolding prepareModuleRun_def Let_def
    by (rule step [unfolded Let_def]) (auto intro: life_uploaded)
qed

lemma life_startRun:
  assumes "\<not> isPending (st_RunStatus (Status w))"
  shows "life (Status w) holds_status (startRun w)"
proof -
  let ?o = "run_options w"
  have "emits (\<lambda>q. status_write q = None) (prepareVCSRun w)"
    unfolding prepareVCSRun_def by (intro emits_rules) simp_all
  then have "life (Status w) (\<lambda>x s. settled_status (snd x) s)
     (if sp_VCS (Spec w) \<noteq> None then andThen (prepareVCSRun w) (\<lambda>requeue. ret (requeue, w))
      else if sp_Module (Spec w) \<noteq> None then prepareModuleRun w ?o else ret (False, w))"
    by (intro life_if life_skip life_prepareModuleRun life_ret) (use assms in auto)
  note step = life_andThen [OF this]
  have "life (Status w) holds_status (andThen (Runs_Create ?o) (\<lambda>runResult.
        kube_UpdateStatus_Workspace
          (set_status (\<lambda>s. s\<lparr>st_RunID := run_ID runResult, st_RunStatus := run_Status runResult\<rparr>) w)))"
    if "\<not> isPending (st_RunStatus (Status w))" for w
    by (intro life_skip life_UpdateStatus) (use that in \<open>auto intro!: emits_rules status_step.start\<close>)
  then show ?thesis
    unfolding startRun_def Let_def
    by (intro step) (auto intro: life_ret)
qed

lemma life_reconcileFinished:
  assumes "\<not> isPending (st_RunStatus (Status w))"
  shows "life (Status w) (\<lambda>_ _. True) (reconcileFinished C w)"
proof -
  have announce: "life (Status w) (\<lambda>_ _. True) (andThen (startRun w) (\<lambda>w.
      andThen (record_event w ''Normal'' ''WorkspaceEvent'' (msg w)) (\<lambda>_. ret res)))"
    if "\<not> isPending (st_RunStatus (Status w))" for w msg and res :: Result
    by (rule life_andThen [OF life_startRun [OF that]], rule life_skip) (auto intro!: emits_rules life_ret)
  have rest: "life (Status w) (\<lambda>_ _. True) (andThen (updateTerraformTemplate w) (\<lambda>a.
      andThen (updateVariables w) (\<lambda>(b, w). andThen (updateRunTriggers w) (\<lambda>c.
       if a \<or> b \<or> c \<or> st_RunID (Status w) = '''' \<or> st_ConfigVersionID (Status w) \<noteq> ''''
       then andThen (startRun w) (\<lambda>w. andThen (record_event w ''Normal'' ''WorkspaceEvent'' (msg w)) (\<lambda>_.
         ret (no_requeue\<lparr>Requeue := True\<rparr>)))
       else ret (no_requeue\<lparr>RequeueAfter := requeueInterval\<rparr>)))))"
    if w: "\<not> isPending (st_RunStatus (Status w))" for w and msg :: "Workspace \<Rightarrow> string"
  proof (rule life_skip)
    show "emits (\<lambda>q. status_write q = None) (updateTerraformTemplate w)" by (intro emits_rules) simp
    fix a
    note step = life_andThen [OF life_updateVariables [OF w]]
    show "life (Status w) (\<lambda>_ _. True) (andThen (updateVariables w) (\<lambda>(b, w). andThen (updateRunTriggers w) (\<lambda>c.
       if a \<or> b \<or> c \<or> st_RunID (Status w) = '''' \<or> st_ConfigVersionID (Status w) \<noteq> ''''
       then andThen (startRun w) (\<lambda>w. andThen (record_event w ''Normal'' ''WorkspaceEvent'' (msg w)) (\<lambda>_.
         ret (no_requeue\<lparr>Requeue := True\<rparr>)))
       else ret (no_requeue\<lparr>RequeueAfter := requeueInterval\<rparr>))))"
      by (rule step) (auto simp: split_def intro!: life_skip life_if life_ret announce emits_rules)
  qed
  show ?thesis
    unfolding reconcileFinished_def
    by (rule life_andThen [OF life_processFinishedRun [OF assms]], elim conjE, hypsubst,
        rule rest [where msg = "\<lambda>w. ''Started new Terraform job with id '' @ st_RunID (Status w)"])
      simp
qed

lemma life_reconcileLive: "life (Status w) (\<lambda>_ _. True) (reconcileLive C w)"
proof -
  have last: "life (Status w) (\<lambda>_ _. True) (andThen (runInProgress w) (\<lambda>(shouldRequeue, w).
     if shouldRequeue then ret (no_requeue\<lparr>Requeue := True\<rparr>) else reconcileFinished C w))" for w
    by (rule life_andThen [OF life_runInProgress])
      (auto simp: split_def intro!: life_if life_ret life_reconcileFinished)
  show ?thesis
    unfolding reconcileLive_def
    by (rule life_andThen [OF life_reconcileWorkspace], erule subst, rule life_skip)
      (auto intro!: emits_rules last)
qed

section \<open>Every reconcile\<close>

lemma no_status_before:
  assumes "initializeReconciliation nn E h t = Some (r, t', ev)"
  shows "sent status_write ev = []"
proof -
  have "emits (\<lambda>q. status_write q = None) (initializeReconciliation nn)"
    by (intro emits_rules) simp
  from sent_none [OF this assms] show ?thesis .
qed

lemma no_status_deleting:
  assumes "condDeleteWorkspace w E h t = Some (r, t', ev)"
  shows "sent status_write ev = []"
proof -
  have "emits (\<lambda>q. status_write q = None) (condDeleteWorkspace w)"
    by (intro emits_rules) simp_all
  from sent_none [OF this assms] show ?thesis .
qed

end
