(* ===== verification/Reconcile_Guarded.thy ===== *)
theory Reconcile_Guarded
  imports Reconcile_Examples
begin

text \<open>
  The finalizer as a guard: no run is started for an object that the operator could lose without
  destroying its resources.
\<close>

text \<open>The API server answers a write of the status with the metadata that was sent.\<close>

definition keeps_metadata :: "env \<Rightarrow> bool" where
  "keeps_metadata E \<longleftrightarrow>
     (\<forall>h w w'. E h (Kube (UpdateStatus_Workspace w)) = Inr (R_Resource w') \<longrightarrow> Meta w' = Meta w)"

definition has_finalizer :: "Workspace \<Rightarrow> bool" where
  "has_finalizer w \<longleftrightarrow> workspaceFinalizer \<in> set (om_Finalizers (Meta w))"

lemma recordWorkspaceID_meta:
  assumes "recordWorkspaceID ws w E h t = Some (Ok w', t', ev)" and "keeps_metadata E"
  shows "Meta w' = Meta w"
  using assms by (auto simp: recordWorkspaceID_def kube_Ok keeps_metadata_def split: if_splits)

lemma adoptRun_meta:
  assumes "adoptRun ws w E h t = Some (Ok w', t', ev)" and "keeps_metadata E"
  shows "Meta w' = Meta w"
  using assms
  by (auto simp: adoptRun_def kube_Ok keeps_metadata_def split: option.splits if_splits elim!: andThen_OkE)

text \<open>After \<open>reconcileWorkspace\<close> the object has the finalizer: it had it, or it was added and saved.\<close>

lemma reconcileWorkspace_guards:
  assumes "reconcileWorkspace w E h t = Some (Ok w', t', ev)" and "keeps_metadata E"
  shows "has_finalizer w \<or>
    (\<exists>s s'. (Kube (Update_Workspace s), Inr (R_Resource s')) \<in> set ev \<and> has_finalizer s)"
proof -
  from assms(1) obtain ws t1 ev1 r1 where
    rest: "andThen (recordWorkspaceID ws w) (\<lambda>w. andThen (adoptRun ws w) (\<lambda>w.
      if \<not> contains (om_Finalizers (Meta w)) workspaceFinalizer then addFinalizer w else ret w))
      E (h @ ev1) t1 = Some (Ok w', t', r1)" and ev: "ev = ev1 @ r1"
    unfolding reconcileWorkspace_def by (rule andThen_OkE)
  from rest obtain w1 t2 ev2 r2 where bind: "recordWorkspaceID ws w E (h @ ev1) t1 = Some (Ok w1, t2, ev2)"
    and rest: "andThen (adoptRun ws w1) (\<lambda>w.
      if \<not> contains (om_Finalizers (Meta w)) workspaceFinalizer then addFinalizer w else ret w)
      E ((h @ ev1) @ ev2) t2 = Some (Ok w', t', r2)" and r1: "r1 = ev2 @ r2"
    by (rule andThen_OkE)
  from rest obtain w2 t3 ev3 r3 where adopt: "adoptRun ws w1 E ((h @ ev1) @ ev2) t2 = Some (Ok w2, t3, ev3)"
    and final: "(if \<not> contains (om_Finalizers (Meta w2)) workspaceFinalizer then addFinalizer w2 else ret w2)
      E (((h @ ev1) @ ev2) @ ev3) t3 = Some (Ok w', t', r3)" and r2: "r2 = ev3 @ r3"
    by (rule andThen_OkE)
  from recordWorkspaceID_meta [OF bind assms(2)] adoptRun_meta [OF adopt assms(2)]
  have meta: "Meta w2 = Meta w" by simp
  show ?thesis
  proof (cases "has_finalizer w2")
    case True
    with meta show ?thesis by (simp add: has_finalizer_def)
  next
    case False
    let ?s = "set_finalizers (om_Finalizers (Meta w2) @ [workspaceFinalizer]) w2"
    from False final have "(Kube (Update_Workspace ?s), Inr (R_Resource w')) \<in> set r3"
      by (simp add: has_finalizer_def addFinalizer_def kube_Ok)
    moreover have "has_finalizer ?s" by (simp add: has_finalizer_def set_finalizers_def)
    ultimately show ?thesis using ev r1 r2 by auto
  qed
qed

lemma no_runs_before:
  "emits (\<lambda>q. \<not> is_Runs q) (initializeReconciliation nn)" "emits (\<lambda>q. \<not> is_Runs q) (reconcileWorkspace w)"
  by (intro emits_rules; auto elim: initialize_request.elims reconcile_workspace_request.elims)+

text \<open>
  C5. A reconcile creates, reads or cancels a run for an object that is not being deleted only once
  the finalizer is on the object: the object was read with it, or the write that added it was
  acknowledged before.
\<close>
theorem Reconcile_guards_runs:
  assumes "keeps_metadata E"
    and "Reconcile C nn E h t = Some (r, t', ev)"
    and "E h (Kube (Get_Workspace nn)) = Inr (R_Resource w)" and "om_DeletionTimestamp (Meta w) = None"
    and "(q, a) \<in> set ev" and "is_Runs q"
  shows "\<exists>pre post. ev = pre @ post \<and> (q, a) \<in> set post \<and> list_all (\<lambda>e. \<not> is_Runs (fst e)) pre \<and>
    (has_finalizer w \<or>
     (\<exists>s s'. (Kube (Update_Workspace s), Inr (R_Resource s')) \<in> set pre \<and> has_finalizer s))"
  using assms(2)
proof (cases rule: Reconcile_courses)
  case (stopped r0)
  note no = emits_event [OF no_runs_before(1) stopped(1)]
  from no [OF assms(5)] assms(6) show ?thesis by simp
next
  case (marked w' t1 ev1 ev2 r1)
  with initialize_answer [OF marked(1) assms(3)] assms(4) show ?thesis by simp
next
  case (live w' t1 ev1 ev2)
  from initialize_answer [OF live(1) assms(3)] have w': "w' = w" by simp
  note no1 = emitsD [OF no_runs_before(1) live(1)]
  with assms(5,6) live(4) have "(q, a) \<in> set ev2" by fastforce
  note split = andThen_requestE [OF live(3) [unfolded reconcileLive_def] no_runs_before(2) this assms(6)]
  obtain w1 t2 e1 e2 where ok: "reconcileWorkspace w' E (h @ ev1) t1 = Some (Ok w1, t2, e1)"
    and ev2: "ev2 = e1 @ e2" "(q, a) \<in> set e2" by (rule split) blast
  note no2 = emitsD [OF no_runs_before(2) ok]
  from reconcileWorkspace_guards [OF ok assms(1)] have "has_finalizer w \<or>
     (\<exists>s s'. (Kube (Update_Workspace s), Inr (R_Resource s')) \<in> set (ev1 @ e1) \<and> has_finalizer s)"
    by (auto simp: w')
  moreover from no1 no2 have "list_all (\<lambda>e. \<not> is_Runs (fst e)) (ev1 @ e1)" by (auto simp: list_all_iff)
  moreover from ev2(1) live(4) have "ev = (ev1 @ e1) @ e2" by simp
  ultimately show ?thesis using ev2(2) by blast
qed

lemma Reconcile_guards_runs_witness:
  "\<exists>pre post. example_before_run @ (Runs (Run_Create (run_options (example_vcs '''' ''''))), Inr (R_Run example_destroyed))
       # example_start = pre @ post \<and> list_all (\<lambda>e. \<not> is_Runs (fst e)) pre \<and>
     (has_finalizer (example_vcs '''' '''') \<or>
      (\<exists>s s'. (Kube (Update_Workspace s), Inr (R_Resource s')) \<in> set pre \<and> has_finalizer s))"
proof -
  have "keeps_metadata (example_world (example_vcs '''' ''''))" by (simp add: keeps_metadata_def)
  from Reconcile_guards_runs [OF this example_start_run, of "example_vcs '''' ''''"
      "Runs (Run_Create (run_options (example_vcs '''' '''')))" "Inr (R_Run example_destroyed)"]
  show ?thesis by simp blast
qed

end
