(* ===== verification/Work_Queue.thy ===== *)
theory Work_Queue
  imports Prelude
begin

text \<open>
  The queue between the watches and the reconciler: \<open>workqueue.Type\<close> of \<open>client-go\<close>, which the
  controller-runtime library makes for the controller of \<open>workspace_controller.go\<close>. Each operation
  runs under the lock of the queue, so an interleaving of workers and watches is a sequence of
  operations. What the controller relies on is stated as two locales, and the queue interprets both.
\<close>

section \<open>The queue\<close>

text \<open>
  \<open>queue\<close> holds what a worker may take, in order; \<open>dirty\<close> what needs a reconcile; \<open>processing\<close> what
  a worker is at. An item that is added while it is processed is dirty without being in the queue.
\<close>

record 'a work_queue =
  wq_queue :: "'a list"
  wq_dirty :: "'a set"
  wq_processing :: "'a set"
  wq_shuttingDown :: bool

definition newQueue :: "'a work_queue" where
  "newQueue = \<lparr>wq_queue = [], wq_dirty = {}, wq_processing = {}, wq_shuttingDown = False\<rparr>"

definition Queue_Add :: "'a \<Rightarrow> 'a work_queue \<Rightarrow> 'a work_queue" where
  "Queue_Add item q =
     (if wq_shuttingDown q then q
      else if item \<in> wq_dirty q then q
      else
        let q = q\<lparr>wq_dirty := insert item (wq_dirty q)\<rparr> in
        if item \<in> wq_processing q then q
        else q\<lparr>wq_queue := wq_queue q @ [item]\<rparr>)"

text \<open>
  The result of \<open>Get\<close>: an item, or the end of the worker. A call on an empty queue that is not shut
  down waits; it has no result.
\<close>

datatype 'a got = Waits | Ends | Item 'a

definition Queue_Get :: "'a work_queue \<Rightarrow> 'a got \<times> 'a work_queue" where
  "Queue_Get q = (case wq_queue q of
     [] \<Rightarrow> (if wq_shuttingDown q then Ends else Waits, q)
   | item # rest \<Rightarrow>
       (Item item, q\<lparr>wq_queue := rest, wq_processing := insert item (wq_processing q),
          wq_dirty := wq_dirty q - {item}\<rparr>))"

definition Queue_Done :: "'a \<Rightarrow> 'a work_queue \<Rightarrow> 'a work_queue" where
  "Queue_Done item q =
     (let q = q\<lparr>wq_processing := wq_processing q - {item}\<rparr> in
      if item \<in> wq_dirty q then q\<lparr>wq_queue := wq_queue q @ [item]\<rparr> else q)"

definition Queue_ShutDown :: "'a work_queue \<Rightarrow> 'a work_queue" where
  "Queue_ShutDown q = q\<lparr>wq_shuttingDown := True\<rparr>"

lemmas queue_defs = Queue_Add_def Queue_Get_def Queue_Done_def Queue_ShutDown_def Let_def

text \<open>What the comments of the record promise, and that a dirty item waits for a worker.\<close>

definition queue_ok :: "'a work_queue \<Rightarrow> bool" where
  "queue_ok q \<longleftrightarrow> distinct (wq_queue q) \<and> set (wq_queue q) = wq_dirty q - wq_processing q"

section \<open>What the controller relies on\<close>

locale work_queue =
  fixes invar :: "'q \<Rightarrow> bool"
    and add :: "'a \<Rightarrow> 'q \<Rightarrow> 'q"
    and get :: "'q \<Rightarrow> 'a got \<times> 'q"
    and finish :: "'a \<Rightarrow> 'q \<Rightarrow> 'q"
    and pending :: "'q \<Rightarrow> 'a set"
    and active :: "'q \<Rightarrow> 'a set"
    and closed :: "'q \<Rightarrow> bool"
  assumes invar_add: "invar q \<Longrightarrow> invar (add x q)"
    and invar_get: "invar q \<Longrightarrow> get q = (g, q') \<Longrightarrow> invar q'"
    and invar_finish: "invar q \<Longrightarrow> x \<in> active q \<Longrightarrow> invar (finish x q)"
    and pending_add: "pending (add x q) = (if closed q then pending q else insert x (pending q))"
    and active_add: "active (add x q) = active q"
    and get_item: "invar q \<Longrightarrow> get q = (Item x, q') \<Longrightarrow>
      x \<in> pending q - active q \<and> pending q' = pending q - {x} \<and> active q' = insert x (active q)"
    and get_none: "invar q \<Longrightarrow> get q = (g, q') \<Longrightarrow> \<nexists>x. g = Item x \<Longrightarrow> q' = q \<and> pending q \<subseteq> active q"
    and pending_finish: "pending (finish x q) = pending q"
    and active_finish: "active (finish x q) = active q - {x}"
begin

text \<open>An item that is being processed is given to no second worker.\<close>

lemma get_fresh: "invar q \<Longrightarrow> get q = (Item x, q') \<Longrightarrow> x \<notin> active q"
  by (drule (1) get_item) simp

text \<open>Nothing that is pending or processed is lost by an operation other than finishing it.\<close>

lemma add_keeps: "pending q \<union> active q \<subseteq> pending (add x q) \<union> active (add x q)"
  by (auto simp: pending_add active_add)

lemma get_keeps:
  assumes "invar q" "get q = (g, q')"
  shows "pending q' \<union> active q' = pending q \<union> active q"
proof (cases g)
  case (Item x)
  from get_item [OF assms(1) assms(2) [unfolded Item]] show ?thesis by auto
qed (use get_none [OF assms] in auto)

lemma finish_keeps: "pending q \<union> active q - {x} \<subseteq> pending (finish x q) \<union> active (finish x q)"
  by (auto simp: pending_finish active_finish)

text \<open>An item that is added while it is processed is pending when it is finished.\<close>

lemma added_while_active: "\<not> closed q \<Longrightarrow> x \<in> pending (finish y (add x q))"
  by (simp add: pending_finish pending_add)

lemma get_active: "invar q \<Longrightarrow> get q = (g, q') \<Longrightarrow> active q \<subseteq> active q'"
  using get_item [of q _ q'] get_none [of q g q'] by (cases g) auto

end

text \<open>The order in which the items are served.\<close>

locale fifo_queue = work_queue +
  fixes order :: "'q \<Rightarrow> 'a list"
  assumes order_add: "\<exists>more. order (add x q) = order q @ more"
    and order_get: "get q = (Item x, q') \<Longrightarrow> order q = x # order q'"
    and order_wait: "get q = (g, q') \<Longrightarrow> \<nexists>x. g = Item x \<Longrightarrow> q' = q \<and> order q = []"
    and order_finish: "\<exists>more. order (finish x q) = order q @ more"

text \<open>Operations of any workers and watches, in the order in which they get the lock.\<close>

datatype 'a queue_op = Op_Add 'a | Op_Get | Op_Done 'a

fun run_ops :: "('a \<Rightarrow> 'q \<Rightarrow> 'q) \<Rightarrow> ('q \<Rightarrow> 'a got \<times> 'q) \<Rightarrow> ('a \<Rightarrow> 'q \<Rightarrow> 'q) \<Rightarrow> 'a queue_op list \<Rightarrow> 'q \<Rightarrow> 'a list \<times> 'q" where
  "run_ops add get finish [] q = ([], q)"
| "run_ops add get finish (Op_Add x # ops) q = run_ops add get finish ops (add x q)"
| "run_ops add get finish (Op_Done x # ops) q = run_ops add get finish ops (finish x q)"
| "run_ops add get finish (Op_Get # ops) q =
     (case get q of
        (Item x, q') \<Rightarrow> (let (out, q'') = run_ops add get finish ops q' in (x # out, q''))
      | (_, q') \<Rightarrow> run_ops add get finish ops q')"

context fifo_queue
begin

lemma served_in_order:
  assumes "run_ops add get finish ops q = (out, q')"
  shows "\<exists>more. order q @ more = out @ order q'"
  using assms
proof (induction ops arbitrary: q out)
  case (Cons op ops)
  show ?case
  proof (cases op)
    case (Op_Add x)
    with Cons have "\<exists>more. order (add x q) @ more = out @ order q'" by simp
    with order_add [of x q] show ?thesis by (metis append_assoc)
  next
    case (Op_Done x)
    with Cons have "\<exists>more. order (finish x q) @ more = out @ order q'" by simp
    with order_finish [of x q] show ?thesis by (metis append_assoc)
  next
    case Op_Get
    obtain g q1 where g: "get q = (g, q1)" by fastforce
    show ?thesis
    proof (cases g)
      case (Item x)
      with Cons Op_Get g obtain out' where "run_ops add get finish ops q1 = (out', q')" "out = x # out'"
        by (auto split: prod.splits)
      with Cons.IH order_get g Item show ?thesis by fastforce
    qed (use Cons Op_Get g order_wait [OF g] in auto)
  qed
qed simp

text \<open>Each of the first requests for work is answered, as long as the queue had items.\<close>

lemma served:
  assumes "run_ops add get finish ops q = (out, q')"
  shows "min (length (order q)) (length (filter (\<lambda>op. op = Op_Get) ops)) \<le> length out"
  using assms
proof (induction ops arbitrary: q out)
  case (Cons op ops)
  show ?case
  proof (cases op)
    case (Op_Add x)
    with Cons have "min (length (order (add x q))) (length (filter (\<lambda>op. op = Op_Get) ops)) \<le> length out" by simp
    with order_add [of x q] Op_Add show ?thesis by auto
  next
    case (Op_Done x)
    with Cons have "min (length (order (finish x q))) (length (filter (\<lambda>op. op = Op_Get) ops)) \<le> length out" by simp
    with order_finish [of x q] Op_Done show ?thesis by auto
  next
    case Op_Get
    obtain g q1 where g: "get q = (g, q1)" by fastforce
    show ?thesis
    proof (cases g)
      case (Item x)
      with Cons Op_Get g obtain out' where "run_ops add get finish ops q1 = (out', q')" "out = x # out'"
        by (auto split: prod.splits)
      with Cons.IH order_get g Item Op_Get show ?thesis by fastforce
    qed (use order_wait [OF g] in auto)
  qed
qed simp

lemma first_come_first_served:
  assumes "run_ops add get finish ops q = (out, q')"
    and "n = length (filter (\<lambda>op. op = Op_Get) ops)" "n \<le> length (order q)"
  shows "take n out = take n (order q)"
proof -
  from served_in_order [OF assms(1)] obtain more where "order q @ more = out @ order q'" by blast
  then have "take n (order q @ more) = take n (out @ order q')" by simp
  with served [OF assms(1)] assms(2,3) show ?thesis by simp
qed

end

section \<open>The queue keeps its promises\<close>

lemma queue_ok_new: "queue_ok newQueue"
  by (simp add: queue_ok_def newQueue_def)

lemma Queue_Get_cases:
  assumes "Queue_Get q = (g, q')"
  obtains (item) x rest where "wq_queue q = x # rest" "g = Item x"
      "q' = q\<lparr>wq_queue := rest, wq_processing := insert x (wq_processing q), wq_dirty := wq_dirty q - {x}\<rparr>"
    | (none) "wq_queue q = []" "q' = q" "\<nexists>x. g = Item x"
  using assms by (cases "wq_queue q") (auto simp: Queue_Get_def split: if_splits)

interpretation wq: work_queue queue_ok Queue_Add Queue_Get Queue_Done wq_dirty wq_processing wq_shuttingDown
proof
  fix q q' :: "'a work_queue" and x :: 'a and g
  show "queue_ok q \<Longrightarrow> queue_ok (Queue_Add x q)"
    by (auto simp: queue_ok_def Queue_Add_def Let_def)
  show "queue_ok q \<Longrightarrow> Queue_Get q = (g, q') \<Longrightarrow> queue_ok q'"
    by (auto simp: queue_ok_def elim!: Queue_Get_cases)
  show "queue_ok q \<Longrightarrow> x \<in> wq_processing q \<Longrightarrow> queue_ok (Queue_Done x q)"
    by (auto simp: queue_ok_def Queue_Done_def Let_def)
  show "wq_dirty (Queue_Add x q) = (if wq_shuttingDown q then wq_dirty q else insert x (wq_dirty q))"
    "wq_processing (Queue_Add x q) = wq_processing q" "wq_dirty (Queue_Done x q) = wq_dirty q"
    "wq_processing (Queue_Done x q) = wq_processing q - {x}"
    by (auto simp: Queue_Add_def Queue_Done_def Let_def)
  show "queue_ok q \<Longrightarrow> Queue_Get q = (Item x, q') \<Longrightarrow>
      x \<in> wq_dirty q - wq_processing q \<and> wq_dirty q' = wq_dirty q - {x} \<and>
      wq_processing q' = insert x (wq_processing q)"
    unfolding queue_ok_def by (erule Queue_Get_cases) fastforce+
  show "queue_ok q \<Longrightarrow> Queue_Get q = (g, q') \<Longrightarrow> \<nexists>x. g = Item x \<Longrightarrow> q' = q \<and> wq_dirty q \<subseteq> wq_processing q"
    by (auto simp: queue_ok_def elim!: Queue_Get_cases)
qed

interpretation wq: fifo_queue queue_ok Queue_Add Queue_Get Queue_Done wq_dirty wq_processing wq_shuttingDown wq_queue
proof
  fix q q' :: "'a work_queue" and x :: 'a and g
  have "wq_queue (Queue_Add x q) = wq_queue q \<or> wq_queue (Queue_Add x q) = wq_queue q @ [x]"
    "wq_queue (Queue_Done x q) = wq_queue q \<or> wq_queue (Queue_Done x q) = wq_queue q @ [x]"
    by (simp_all add: Queue_Add_def Queue_Done_def Let_def)
  then show "\<exists>more. wq_queue (Queue_Add x q) = wq_queue q @ more" "\<exists>more. wq_queue (Queue_Done x q) = wq_queue q @ more"
    by (metis append_Nil2)+
  show "Queue_Get q = (Item x, q') \<Longrightarrow> wq_queue q = x # wq_queue q'"
    "Queue_Get q = (g, q') \<Longrightarrow> \<nexists>x. g = Item x \<Longrightarrow> q' = q \<and> wq_queue q = []"
    by (auto elim!: Queue_Get_cases)
qed

lemma shutdown_simps [simp]:
  "wq_dirty (Queue_ShutDown q) = wq_dirty q" "wq_processing (Queue_ShutDown q) = wq_processing q"
  "wq_shuttingDown (Queue_ShutDown q)" "queue_ok (Queue_ShutDown q) = queue_ok q"
  by (simp_all add: queue_defs queue_ok_def)

lemma closed_simps [simp]:
  "wq_shuttingDown (Queue_Add x q) = wq_shuttingDown q" "wq_shuttingDown (Queue_Done x q) = wq_shuttingDown q"
  by (simp_all add: queue_defs)

lemma closed_get: "Queue_Get q = (g, q') \<Longrightarrow> wq_shuttingDown q' = wq_shuttingDown q"
  by (auto elim!: Queue_Get_cases)

end
