(* ===== verification/Go_Url.thy ===== *)
theory Go_Url
  imports Tfe_Client
begin

text \<open>
  What the sources use of Go's package \<open>net/url\<close>: \<open>url.Parse\<close>, with the scheme and the host of
  the result and every error, as of Go 1.16. Errors are their texts. User, path, query and
  fragment are parsed for their errors only.
\<close>

section \<open>Characters\<close>

definition is_alpha :: "char \<Rightarrow> bool" where
  "is_alpha c \<longleftrightarrow> (let n = (of_char c :: nat) in (97 \<le> n \<and> n \<le> 122) \<or> (65 \<le> n \<and> n \<le> 90))"

definition is_digit :: "char \<Rightarrow> bool" where
  "is_digit c \<longleftrightarrow> (let n = (of_char c :: nat) in 48 \<le> n \<and> n \<le> 57)"

definition ishex :: "char \<Rightarrow> bool" where
  "ishex c \<longleftrightarrow> (let n = (of_char c :: nat) in
     (48 \<le> n \<and> n \<le> 57) \<or> (97 \<le> n \<and> n \<le> 102) \<or> (65 \<le> n \<and> n \<le> 70))"

definition unhex :: "char \<Rightarrow> nat" where
  "unhex c = (let n = (of_char c :: nat) in
     if 48 \<le> n \<and> n \<le> 57 then n - 48 else if 97 \<le> n \<and> n \<le> 102 then n - 87
     else if 65 \<le> n \<and> n \<le> 70 then n - 55 else 0)"

text \<open>\<open>shouldEscape\<close> for the modes \<open>encodeHost\<close> and \<open>encodeZone\<close>, which agree.\<close>

definition shouldEscape :: "char \<Rightarrow> bool" where
  "shouldEscape c \<longleftrightarrow> \<not> (is_alpha c \<or> is_digit c \<or>
     c \<in> set (CHR 0x27 # CHR 0x22 # ''!$&()*+,;=:[]<>'') \<or> c \<in> set ''-_.~'')"

definition stringContainsCTLByte :: "string \<Rightarrow> bool" where
  "stringContainsCTLByte s \<longleftrightarrow> list_ex (\<lambda>c. (of_char c :: nat) < 32 \<or> (of_char c :: nat) = 127) s"

section \<open>Splitting\<close>

text \<open>Before and after the first or the last occurrence of a character; \<open>None\<close> if there is none.\<close>

definition cut_first :: "char \<Rightarrow> string \<Rightarrow> (string \<times> string) option" where
  "cut_first c s = (if c \<in> set s then Some (takeWhile (\<lambda>x. x \<noteq> c) s, tl (dropWhile (\<lambda>x. x \<noteq> c) s)) else None)"

definition cut_last :: "char \<Rightarrow> string \<Rightarrow> (string \<times> string) option" where
  "cut_last c s = (case cut_first c (rev s) of None \<Rightarrow> None | Some (a, b) \<Rightarrow> Some (rev b, rev a))"

fun has_prefix :: "string \<Rightarrow> string \<Rightarrow> bool" where
  "has_prefix s [] = True"
| "has_prefix [] (p # ps) = False"
| "has_prefix (c # s) (p # ps) = (c = p \<and> has_prefix s ps)"

text \<open>Before the first occurrence of a string, and from it on.\<close>

fun cut_string :: "string \<Rightarrow> string \<Rightarrow> (string \<times> string) option" where
  "cut_string p [] = (if p = [] then Some ([], []) else None)"
| "cut_string p (c # s) =
     (if has_prefix (c # s) p then Some ([], c # s)
      else case cut_string p s of None \<Rightarrow> None | Some (a, b) \<Rightarrow> Some (c # a, b))"

section \<open>Percent escapes\<close>

datatype encoding = encodeHost | encodeZone | encodeUserPassword | encodePath | encodeFragment

definition EscapeError :: "string \<Rightarrow> string" where
  "EscapeError s = ''invalid URL escape '' @ quote s"

definition InvalidHostError :: "string \<Rightarrow> string" where
  "InvalidHostError s = ''invalid character '' @ quote s @ '' in host name''"

fun unescape :: "encoding \<Rightarrow> string \<Rightarrow> string + string" where
  "unescape mode [] = Inr []"
| "unescape mode (c # s) =
     (if c = CHR ''%'' then
        (if length s < 2 \<or> \<not> ishex (s ! 0) \<or> \<not> ishex (s ! 1) then Inl (EscapeError (take 3 (c # s)))
         else
           let v = char_of (16 * unhex (s ! 0) + unhex (s ! 1)); esc = take 3 (c # s) in
           if mode = encodeHost \<and> unhex (s ! 0) < 8 \<and> esc \<noteq> ''%25'' then Inl (EscapeError esc)
           else if mode = encodeZone \<and> esc \<noteq> ''%25'' \<and> v \<noteq> CHR '' '' \<and> shouldEscape v then Inl (EscapeError esc)
           else (case unescape mode (drop 2 s) of Inl e \<Rightarrow> Inl e | Inr t \<Rightarrow> Inr (v # t)))
      else if (mode = encodeHost \<or> mode = encodeZone) \<and> (of_char c :: nat) < 128 \<and> shouldEscape c then
        Inl (InvalidHostError [c])
      else (case unescape mode s of Inl e \<Rightarrow> Inl e | Inr t \<Rightarrow> Inr (c # t)))"

section \<open>Authority\<close>

definition validOptionalPort :: "string \<Rightarrow> bool" where
  "validOptionalPort port =
     (case port of [] \<Rightarrow> True | c # digits \<Rightarrow> c = CHR '':'' \<and> list_all is_digit digits)"

definition port_error :: "string \<Rightarrow> string" where
  "port_error p = ''invalid port '' @ quote p @ '' after host''"

definition parseHost :: "string \<Rightarrow> string + string" where
  "parseHost host =
     (if has_prefix host ''['' then
        (case cut_last (CHR '']'') host of
           None \<Rightarrow> Inl (''missing '' @ [CHR 0x27] @ '']'' @ [CHR 0x27] @ '' in host'')
         | Some (inside, colonPort) \<Rightarrow>
             if \<not> validOptionalPort colonPort then Inl (port_error colonPort)
             else (case cut_string ''%25'' inside of
                     None \<Rightarrow> unescape encodeHost host
                   | Some (addr, zone) \<Rightarrow>
                       (case unescape encodeHost addr of
                          Inl e \<Rightarrow> Inl e
                        | Inr host1 \<Rightarrow>
                            (case unescape encodeZone zone of
                               Inl e \<Rightarrow> Inl e
                             | Inr host2 \<Rightarrow>
                                 (case unescape encodeHost ('']'' @ colonPort) of
                                    Inl e \<Rightarrow> Inl e
                                  | Inr host3 \<Rightarrow> Inr (host1 @ host2 @ host3))))))
      else
        (case cut_last (CHR '':'') host of
           None \<Rightarrow> unescape encodeHost host
         | Some (_, digits) \<Rightarrow>
             if \<not> validOptionalPort ('':'' @ digits) then Inl (port_error ('':'' @ digits))
             else unescape encodeHost host))"

definition validUserinfo :: "string \<Rightarrow> bool" where
  "validUserinfo s = list_all (\<lambda>c. is_alpha c \<or> is_digit c \<or>
     c \<in> set (CHR 0x27 # ''-._:~!$&()*+,;=%@'')) s"

definition parse_user :: "string \<Rightarrow> string option" where
  "parse_user userinfo =
     (if \<not> validUserinfo userinfo then Some ''net/url: invalid userinfo''
      else case cut_first (CHR '':'') userinfo of
        None \<Rightarrow> (case unescape encodeUserPassword userinfo of Inl e \<Rightarrow> Some e | Inr _ \<Rightarrow> None)
      | Some (username, password) \<Rightarrow>
          (case unescape encodeUserPassword username of
             Inl e \<Rightarrow> Some e
           | Inr _ \<Rightarrow> (case unescape encodeUserPassword password of Inl e \<Rightarrow> Some e | Inr _ \<Rightarrow> None)))"

definition parseAuthority :: "string \<Rightarrow> string + string" where
  "parseAuthority authority =
     (case cut_last (CHR ''@'') authority of
        None \<Rightarrow> parseHost authority
      | Some (userinfo, rest) \<Rightarrow>
          (case parseHost rest of
             Inl e \<Rightarrow> Inl e
           | Inr host \<Rightarrow> (case parse_user userinfo of Some e \<Rightarrow> Inl e | None \<Rightarrow> Inr host)))"

section \<open>Parse\<close>

record url =
  url_Scheme :: string
  url_Host :: string

text \<open>The loop of \<open>getscheme\<close>; \<open>seen\<close> is what it has passed.\<close>

fun getscheme :: "string \<Rightarrow> string \<Rightarrow> string + (string \<times> string)" where
  "getscheme seen [] = Inr ([], seen)"
| "getscheme seen (c # s) =
     (if is_alpha c then getscheme (seen @ [c]) s
      else if is_digit c \<or> c = CHR ''+'' \<or> c = CHR ''-'' \<or> c = CHR ''.'' then
        (if seen = [] then Inr ([], c # s) else getscheme (seen @ [c]) s)
      else if c = CHR '':'' then
        (if seen = [] then Inl ''missing protocol scheme'' else Inr (seen, s))
      else Inr ([], seen @ c # s))"

definition parse :: "string \<Rightarrow> string + url" where
  "parse rawurl =
     (if stringContainsCTLByte rawurl then Inl ''net/url: invalid control character in URL''
      else if rawurl = ''*'' then Inr \<lparr>url_Scheme = '''', url_Host = ''''\<rparr>
      else case getscheme [] rawurl of
        Inl e \<Rightarrow> Inl e
      | Inr (scheme0, rest0) \<Rightarrow>
          (let scheme = ToLower scheme0; rest = takeWhile (\<lambda>c. c \<noteq> CHR ''?'') rest0 in
           if \<not> has_prefix rest ''/'' \<and> scheme \<noteq> '''' then Inr \<lparr>url_Scheme = scheme, url_Host = ''''\<rparr>
           else if \<not> has_prefix rest ''/'' \<and>
             CHR '':'' \<in> set (takeWhile (\<lambda>c. c \<noteq> CHR ''/'') rest)
           then Inl ''first path segment in URL cannot contain colon''
           else
             (case (if (scheme \<noteq> '''' \<or> \<not> has_prefix rest ''///'') \<and> has_prefix rest ''//'' then
                      (let r = drop 2 rest in
                       case parseAuthority (takeWhile (\<lambda>c. c \<noteq> CHR ''/'') r) of
                         Inl e \<Rightarrow> Inl e
                       | Inr host \<Rightarrow> Inr (host, dropWhile (\<lambda>c. c \<noteq> CHR ''/'') r))
                    else Inr ('''', rest)) of
                Inl e \<Rightarrow> Inl e
              | Inr (host, path) \<Rightarrow>
                  (case unescape encodePath path of
                     Inl e \<Rightarrow> Inl e
                   | Inr _ \<Rightarrow> Inr \<lparr>url_Scheme = scheme, url_Host = host\<rparr>))))"

definition url_error :: "string \<Rightarrow> string \<Rightarrow> string" where
  "url_error u e = ''parse '' @ quote u @ '': '' @ e"

definition url_Parse :: "string \<Rightarrow> string + url" where
  "url_Parse rawurl =
     (let u = takeWhile (\<lambda>c. c \<noteq> CHR ''#'') rawurl;
          frag = tl (dropWhile (\<lambda>c. c \<noteq> CHR ''#'') rawurl) in
      case parse u of
        Inl e \<Rightarrow> Inl (url_error u e)
      | Inr url \<Rightarrow>
          if frag = '''' then Inr url
          else (case unescape encodeFragment frag of
                  Inl e \<Rightarrow> Inl (url_error rawurl e)
                | Inr _ \<Rightarrow> Inr url))"

end
