(* ===== verification/Build_Version.thy ===== *)
theory Build_Version
  imports Prelude
begin

text \<open>
  The version of the operator, \<open>version/version.go\<close>: the package variables, some of which the
  linker fills in, as a record, and the text shown to humans.
\<close>

record version_info =
  GitCommit :: string
  GitDescribe :: string
  Version :: string
  VersionPrerelease :: string

text \<open>The values in the source, with nothing filled in.\<close>

definition source_version :: version_info where
  "source_version = \<lparr>GitCommit = '''', GitDescribe = '''', Version = ''0.1.4-alpha'',
     VersionPrerelease = ''dev''\<rparr>"

text \<open>\<open>strings.Replace(s, old, new, -1)\<close> for a non-empty \<open>old\<close>.\<close>

fun strings_Replace :: "string \<Rightarrow> string \<Rightarrow> string \<Rightarrow> string" where
  "strings_Replace [] old new = []"
| "strings_Replace (c # s) old new =
     (if old \<noteq> [] \<and> take (length old) (c # s) = old
      then new @ strings_Replace (drop (length old - 1) s) old new
      else c # strings_Replace s old new)"

abbreviation apostrophe :: char where "apostrophe \<equiv> CHR 0x27"

definition GetHumanVersion :: "version_info \<Rightarrow> string" where
  "GetHumanVersion b =
     (let version = (if GitDescribe b \<noteq> '''' then GitDescribe b else Version b);
          release = VersionPrerelease b;
          release = (if GitDescribe b = '''' \<and> release = '''' then ''dev'' else release);
          version =
            (if release \<noteq> '''' then
               (let version = (if \<not> HasSuffix version (''-'' @ release) then version @ ''-'' @ release
                               else version)
                in if GitCommit b \<noteq> '''' then version @ '' ('' @ GitCommit b @ '')'' else version)
             else version)
      in strings_Replace version [apostrophe] '''')"

lemma drop_quotes: "strings_Replace s [apostrophe] '''' = filter (\<lambda>c. c \<noteq> apostrophe) s"
  by (induction s) auto

lemma source_human_version: "GetHumanVersion source_version = ''0.1.4-alpha-dev''"
  by (simp add: GetHumanVersion_def source_version_def HasSuffix_def drop_quotes)

section \<open>Reading the commit back\<close>

definition final_release :: "version_info \<Rightarrow> bool" where
  "final_release b \<longleftrightarrow> GitDescribe b \<noteq> '''' \<and> VersionPrerelease b = ''''"

definition commit_of :: "string \<Rightarrow> string" where
  "commit_of s = (if s \<noteq> [] \<and> last s = CHR '')''
     then rev (takeWhile (\<lambda>c. c \<noteq> CHR ''('') (tl (rev s))) else '''')"

definition plain :: "string \<Rightarrow> bool" where
  "plain s \<longleftrightarrow> apostrophe \<notin> set s \<and> CHR ''('' \<notin> set s \<and> CHR '')'' \<notin> set s"

lemma commit_of_none: "CHR '')'' \<notin> set s \<Longrightarrow> commit_of s = ''''"
  unfolding commit_of_def using last_in_set by fastforce

lemma commit_of_tag: "CHR ''('' \<notin> set c \<Longrightarrow> commit_of (s @ '' ('' @ c @ '')'') = c"
  unfolding commit_of_def by simp (subst takeWhile_append2; auto)

lemma plain_simps [simp]:
  "plain (s @ t) \<longleftrightarrow> plain s \<and> plain t"
  "plain s \<Longrightarrow> filter (\<lambda>c. c \<noteq> apostrophe) s = s"
  "plain s \<Longrightarrow> commit_of s = ''''"
  by (auto simp: plain_def filter_id_conv intro: commit_of_none)

text \<open>
  The version shown to humans tells the commit the operator was built from, in parentheses at
  its end, except for a final release, which shows the tag alone.
\<close>
lemma human_version_commit:
  assumes "plain (GitCommit b)" "plain (GitDescribe b)" "plain (Version b)" "plain (VersionPrerelease b)"
  shows "commit_of (GetHumanVersion b) = (if final_release b then '''' else GitCommit b) \<and>
    (final_release b \<longrightarrow> GetHumanVersion b = GitDescribe b)"
proof
  have dev: "plain ''-''" "plain ''dev''" by (simp_all add: plain_def)
  with plain_simps(1) [of "''-''"] have p: "plain (CHR ''-'' # s) \<longleftrightarrow> plain s" for s by simp
  from assms(1) have c: "CHR ''('' \<notin> set (GitCommit b)" by (simp add: plain_def)
  note step = commit_of_tag [OF c, simplified]
  show "commit_of (GetHumanVersion b) = (if final_release b then '''' else GitCommit b)"
    using assms dev p by (auto simp: GetHumanVersion_def drop_quotes final_release_def step Let_def)
  show "final_release b \<longrightarrow> GetHumanVersion b = GitDescribe b"
    using assms by (simp add: GetHumanVersion_def drop_quotes final_release_def)
qed

lemma human_version_commit_witness:
  "commit_of (GetHumanVersion (source_version\<lparr>GitCommit := ''0f3c''\<rparr>)) = ''0f3c'' \<and>
   GetHumanVersion (source_version\<lparr>GitDescribe := ''v1.0'', VersionPrerelease := ''''\<rparr>) = ''v1.0''"
  using human_version_commit [of "source_version\<lparr>GitCommit := ''0f3c''\<rparr>"]
    human_version_commit [of "source_version\<lparr>GitDescribe := ''v1.0'', VersionPrerelease := ''''\<rparr>"]
  by (simp add: plain_def source_version_def final_release_def)

end
