(* ===== verification/Client_Config.thy ===== *)
theory Client_Config
  imports Go_Url Build_Version
begin

text \<open>
  How the operator gets its Terraform Cloud client: \<open>createTerraformConfig\<close> and \<open>GetClient\<close> of
  \<open>workspacehelper/tfc_org.go\<close>, \<open>NewClient\<close> of the vendored \<open>go-tfe\<close>, and the start of
  \<open>NewWorkspaceHelper\<close>. The environment variables of the process, the result of
  \<open>cliconfig.LoadConfig\<close> and the answer of the first ping are parameters.
\<close>

section \<open>Configuration\<close>

text \<open>A value of Go's type \<open>interface{}\<close>: nil, a string, or another value given by what \<open>%v\<close> prints of it.\<close>

datatype any = Nil_value | Str_value string | Other_value string

fun show_any :: "any \<Rightarrow> string" where
  "show_any Nil_value = ''<nil>''"
| "show_any (Str_value s) = s"
| "show_any (Other_value s) = s"

type_synonym credentials = "any gomap gomap"
type_synonym getenv = "string \<Rightarrow> string"

record tfc_Config =
  cfg_Address :: string
  cfg_Token :: string
  cfg_UserAgent :: string
  cfg_InsecureSkipVerify :: bool

definition DefaultAddress :: string where
  "DefaultAddress = ''https://app.terraform.io''"

text \<open>Reading a map that is nil or has no such key gives the zero value.\<close>

definition host_credentials :: "credentials \<Rightarrow> string \<Rightarrow> any gomap" where
  "host_credentials creds host = (case lookup_map creds host of None \<Rightarrow> None | Some m \<Rightarrow> m)"

definition credential :: "any gomap \<Rightarrow> string \<Rightarrow> any" where
  "credential m k = (case lookup_map m k of None \<Rightarrow> Nil_value | Some v \<Rightarrow> v)"

text \<open>
  The transport of a fresh \<open>DefaultConfig\<close> has no TLS configuration, so only \<open>TF_INSECURE\<close>
  decides whether certificates are checked.
\<close>

definition createTerraformConfig ::
  "version_info \<Rightarrow> getenv \<Rightarrow> string \<Rightarrow> credentials \<Rightarrow> go_error + tfc_Config" where
  "createTerraformConfig v env addr creds =
     (let address = (if length addr = 0 then DefaultAddress else addr) in
      case url_Parse address of
        Inl err \<Rightarrow> Inl (ErrorString (''Not a valid Terraform Cloud or Enterprise URL, '' @ err))
      | Inr u \<Rightarrow>
          if url_Scheme u = '''' then
            Inl (ErrorString ''Invalid Terraform Cloud or Enterprise URL. Please specify a scheme (http:// or https://)'')
          else
            (let host = url_Host u in
             if host = '''' then
               Inl (ErrorString (''Terraform Cloud or Enterprise URL hostname is ''
                 @ [CHR 0x27, CHR 0x27] @ ''. Invalid hostname''))
             else if length (elems (host_credentials creds host)) = 0 then
               Inl (ErrorString (''Define token for '' @ host))
             else
               (let skipTLS = env ''TF_INSECURE'' in
                Inr \<lparr>cfg_Address = address,
                  cfg_Token = show_any (credential (host_credentials creds host) ''token''),
                  cfg_UserAgent = ''terraform-k8s/'' @ Version v,
                  cfg_InsecureSkipVerify = (skipTLS \<noteq> '''' \<and> ToLower skipTLS \<noteq> ''false'')\<rparr>)))"

section \<open>The client\<close>

text \<open>What the client keeps of its configuration, blank values replaced by those of \<open>DefaultConfig\<close>.\<close>

definition NewClient ::
  "getenv \<Rightarrow> (tfc_Config \<Rightarrow> go_error option) \<Rightarrow> tfc_Config \<Rightarrow> go_error + tfc_Config" where
  "NewClient env ping cfg =
     (let config = cfg\<lparr>cfg_Address := (if cfg_Address cfg \<noteq> '''' then cfg_Address cfg
                         else if env ''TFE_ADDRESS'' = '''' then DefaultAddress else env ''TFE_ADDRESS''),
                       cfg_Token := (if cfg_Token cfg \<noteq> '''' then cfg_Token cfg else env ''TFE_TOKEN'')\<rparr> in
      case url_Parse (cfg_Address config) of
        Inl err \<Rightarrow> Inl (ErrorString (''invalid address: '' @ err))
      | Inr _ \<Rightarrow>
          if cfg_Token config = '''' then Inl (ErrorString ''missing API token'')
          else (case ping config of Some err \<Rightarrow> Inl err | None \<Rightarrow> Inr config))"

definition GetClient ::
  "version_info \<Rightarrow> getenv \<Rightarrow> (tfc_Config \<Rightarrow> go_error option) \<Rightarrow> go_error + credentials \<Rightarrow> string \<Rightarrow>
   go_error + tfc_Config" where
  "GetClient v env ping loaded tfEndpoint =
     (case loaded of
        Inl err \<Rightarrow> Inl err
      | Inr creds \<Rightarrow>
          (case createTerraformConfig v env tfEndpoint creds of
             Inl err \<Rightarrow> Inl err
           | Inr config \<Rightarrow> NewClient env ping config))"

text \<open>The operator exits with status 1 or has a client.\<close>

definition NewWorkspaceHelper ::
  "version_info \<Rightarrow> getenv \<Rightarrow> (tfc_Config \<Rightarrow> go_error option) \<Rightarrow> go_error + credentials \<Rightarrow> nat + tfc_Config" where
  "NewWorkspaceHelper v env ping loaded =
     (case GetClient v env ping loaded (env ''TF_URL'') of Inl err \<Rightarrow> Inl 1 | Inr client \<Rightarrow> Inr client)"

section \<open>Parsing a plain address\<close>

text \<open>The parts of an address that consists of a scheme, a host name, a port and a path.\<close>

definition plain_scheme :: "string \<Rightarrow> bool" where
  "plain_scheme s \<longleftrightarrow> s \<noteq> '''' \<and> is_alpha (hd s) \<and>
     list_all (\<lambda>c. is_alpha c \<or> is_digit c \<or> c \<in> set ''+-.'') s"

definition plain_port :: "string \<Rightarrow> bool" where
  "plain_port p \<longleftrightarrow> p = '''' \<or> (hd p = CHR '':'' \<and> list_all is_digit (tl p))"

definition plain_path :: "string \<Rightarrow> bool" where
  "plain_path p \<longleftrightarrow> p = '''' \<or> (hd p = CHR ''/'' \<and> list_all (\<lambda>c. id_char c \<or> c = CHR ''/'') p)"

lemma getscheme_plain:
  assumes "list_all (\<lambda>c. is_alpha c \<or> is_digit c \<or> c \<in> set ''+-.'') s"
    and "seen \<noteq> [] \<or> is_alpha (hd s)" and "seen @ s \<noteq> []"
  shows "getscheme seen (s @ CHR '':'' # rest) = Inr (seen @ s, rest)"
  using assms
proof (induction s arbitrary: seen)
  case Nil
  then show ?case by (simp add: is_alpha_def is_digit_def)
next
  case (Cons c s)
  then have "getscheme (seen @ [c]) (s @ CHR '':'' # rest) = Inr ((seen @ [c]) @ s, rest)"
    by (intro Cons.IH) auto
  with Cons.prems show ?case by auto
qed

lemma unescape_plain:
  "list_all (\<lambda>c. c \<noteq> CHR ''%'' \<and> (mode = encodeHost \<longrightarrow> \<not> shouldEscape c) \<and> mode \<noteq> encodeZone) s \<Longrightarrow>
   unescape mode s = Inr s"
  by (induction s) auto

lemma id_char_plain: "id_char c \<Longrightarrow> c \<notin> set ''%:@[]/?#*'' \<and> \<not> shouldEscape c"
  by (auto simp: id_char_def shouldEscape_def is_alpha_def is_digit_def Let_def)

definition plain_address :: "string \<Rightarrow> string \<Rightarrow> string \<Rightarrow> string \<Rightarrow> bool" where
  "plain_address scheme name port path \<longleftrightarrow>
     plain_scheme scheme \<and> list_all id_char name \<and> plain_port port \<and> plain_path path"

definition address_of :: "string \<Rightarrow> string \<Rightarrow> string \<Rightarrow> string \<Rightarrow> string" where
  "address_of scheme name port path = scheme @ ''://'' @ name @ port @ path"

lemma digit_id: "is_digit c \<Longrightarrow> id_char c" and alpha_id: "is_alpha c \<Longrightarrow> id_char c"
  by (auto simp: is_digit_def is_alpha_def id_char_def Let_def)

lemma plain_address_chars:
  assumes "plain_address scheme name port path" and "c \<in> set (address_of scheme name port path)"
  shows "id_char c \<or> c \<in> set ''+:/''"
  using assms digit_id alpha_id
  by (cases port; cases path)
    (auto simp: plain_address_def address_of_def plain_scheme_def plain_port_def plain_path_def list_all_iff id_char_def)

lemma plain_char: "id_char c \<or> c \<in> set ''+:/'' \<Longrightarrow>
  32 \<le> (of_char c :: nat) \<and> (of_char c :: nat) \<noteq> 127 \<and> c \<notin> set ''#?*''"
  by (auto simp: id_char_def Let_def)

lemma plain_authority:
  assumes "list_all id_char name" "plain_port port"
  shows "parseAuthority (name @ port) = Inr (name @ port)"
    and "CHR ''/'' \<notin> set (name @ port)"
proof -
  have port: "c \<in> set port \<Longrightarrow> c = CHR '':'' \<or> id_char c" for c
    using assms(2) digit_id by (cases port) (auto simp: plain_port_def list_all_iff)
  then have chars: "c \<in> set (name @ port) \<Longrightarrow> id_char c \<or> c = CHR '':''" for c
    using assms(1) by (auto simp: list_all_iff)
  note no = id_char_plain
  show "CHR ''/'' \<notin> set (name @ port)" using chars no by fastforce
  have at: "cut_last (CHR ''@'') (name @ port) = None"
    using chars no by (fastforce simp: cut_last_def cut_first_def)
  have bracket: "\<not> has_prefix (name @ port) ''[''"
    using chars [of "hd (name @ port)"] no by (cases "name @ port") auto
  have "\<not> shouldEscape (CHR '':'')" by (simp add: shouldEscape_def)
  with chars no have un: "unescape encodeHost (name @ port) = Inr (name @ port)"
    by (intro unescape_plain) (fastforce simp: list_all_iff)
  have "parseHost (name @ port) = Inr (name @ port)"
  proof (cases port)
    case Nil
    with assms(1) no have "cut_last (CHR '':'') (name @ port) = None"
      by (fastforce simp: cut_last_def cut_first_def list_all_iff)
    with bracket un show ?thesis by (simp add: parseHost_def)
  next
    case (Cons c digits)
    with assms(2) have c: "c = CHR '':''" "list_all is_digit digits" by (simp_all add: plain_port_def)
    with digit_id no have "CHR '':'' \<notin> set digits" by (fastforce simp: list_all_iff)
    then have "cut_last (CHR '':'') (name @ port) = Some (name, digits)"
      by (simp add: cut_last_def cut_first_def Cons c(1) takeWhile_append dropWhile_append)
    with bracket un c Cons show ?thesis by (simp add: parseHost_def validOptionalPort_def)
  qed
  with at show "parseAuthority (name @ port) = Inr (name @ port)" by (simp add: parseAuthority_def)
qed

lemma plain_path_parts:
  assumes "plain_path path" and "CHR ''/'' \<notin> set a"
  shows "takeWhile (\<lambda>c. c \<noteq> CHR ''/'') (a @ path) = a" and "dropWhile (\<lambda>c. c \<noteq> CHR ''/'') (a @ path) = path"
    and "unescape encodePath path = Inr path"
proof -
  show "takeWhile (\<lambda>c. c \<noteq> CHR ''/'') (a @ path) = a" "dropWhile (\<lambda>c. c \<noteq> CHR ''/'') (a @ path) = path"
    using assms by (cases path; auto simp: plain_path_def takeWhile_append dropWhile_append)+
  have "CHR ''%'' \<notin> set path"
    using assms(1) id_char_plain by (fastforce simp: plain_path_def list_all_iff)
  then show "unescape encodePath path = Inr path" by (intro unescape_plain) (auto simp: list_all_iff)
qed

lemma url_Parse_plain:
  assumes "plain_address scheme name port path"
  shows "url_Parse (address_of scheme name port path) =
    Inr \<lparr>url_Scheme = ToLower scheme, url_Host = name @ port\<rparr>"
proof -
  let ?a = "address_of scheme name port path" and ?rest = "''//'' @ name @ port @ path"
  from plain_address_chars [OF assms] plain_char
  have ctl: "\<not> stringContainsCTLByte ?a" and hash: "CHR ''#'' \<notin> set ?a" and mark: "CHR ''?'' \<notin> set ?a"
    and star: "CHR ''*'' \<notin> set ?a"
    by (fastforce simp: stringContainsCTLByte_def list_ex_iff)+
  from star have star': "?a \<noteq> ''*''" by auto
  have all: "takeWhile (\<lambda>x. x \<noteq> c) xs = xs" "dropWhile (\<lambda>x. x \<noteq> c) xs = []" if "c \<notin> set xs" for c and xs :: string
    using that by (auto simp: takeWhile_eq_all_conv)
  from assms have p: "plain_scheme scheme" "list_all id_char name" "plain_port port" "plain_path path"
    by (simp_all add: plain_address_def)
  from p(1) have s: "getscheme [] ?a = Inr (scheme, ?rest)" and ne: "ToLower scheme \<noteq> ''''"
    using getscheme_plain [of scheme "[]" ?rest] by (simp_all add: plain_scheme_def address_of_def ToLower_def)
  from mark have rest: "takeWhile (\<lambda>c. c \<noteq> CHR ''?'') ((name @ port) @ path) = (name @ port) @ path" by (intro all) (auto simp: address_of_def)
  note auth = plain_authority [OF p(2,3)]
  note path = plain_path_parts [OF p(4) auth(2)]
  have "parse ?a = Inr \<lparr>url_Scheme = ToLower scheme, url_Host = name @ port\<rparr>"
    using path unfolding parse_def by (simp add: ctl star' s ne rest Let_def auth del: append_assoc flip: append_assoc)
  with hash show ?thesis by (simp add: url_Parse_def all)
qed

section \<open>The client of the operator\<close>

lemma createTerraformConfig_Inr:
  assumes "createTerraformConfig v env addr creds = Inr cfg"
  obtains u where "url_Parse (cfg_Address cfg) = Inr u" "cfg_Address cfg \<noteq> ''''"
    "url_Scheme u \<noteq> ''''" "url_Host u \<noteq> ''''" "elems (host_credentials creds (url_Host u)) \<noteq> []"
    "cfg_Token cfg = show_any (credential (host_credentials creds (url_Host u)) ''token'')"
  using assms that
  by (auto simp: createTerraformConfig_def Let_def DefaultAddress_def split: sum.splits if_splits)

text \<open>
  C35. The token of the client belongs to the host it talks to, whatever \<open>TF_URL\<close> is: when the
  operator starts, the address of its client parses to a scheme and a host, there are credentials
  for exactly this host, port included, and the token is the one among them or, if that is blank,
  \<open>TFE_TOKEN\<close>.
\<close>
theorem client_token_of_host:
  assumes "NewWorkspaceHelper v env ping loaded = Inr client"
  shows "\<exists>creds u. loaded = Inr creds \<and> url_Parse (cfg_Address client) = Inr u \<and>
    url_Scheme u \<noteq> '''' \<and> url_Host u \<noteq> '''' \<and> elems (host_credentials creds (url_Host u)) \<noteq> [] \<and>
    cfg_Token client = (let t = show_any (credential (host_credentials creds (url_Host u)) ''token'')
      in if t \<noteq> '''' then t else env ''TFE_TOKEN'') \<and> cfg_Token client \<noteq> ''''"
proof -
  from assms obtain creds cfg where loaded: "loaded = Inr creds"
    and cfg: "createTerraformConfig v env (env ''TF_URL'') creds = Inr cfg"
    and client: "NewClient env ping cfg = Inr client"
    by (auto simp: NewWorkspaceHelper_def GetClient_def split: sum.splits)
  from cfg obtain u where u: "url_Parse (cfg_Address cfg) = Inr u" "cfg_Address cfg \<noteq> ''''"
    "url_Scheme u \<noteq> ''''" "url_Host u \<noteq> ''''" "elems (host_credentials creds (url_Host u)) \<noteq> []"
    "cfg_Token cfg = show_any (credential (host_credentials creds (url_Host u)) ''token'')"
    by (rule createTerraformConfig_Inr)
  from client u(2) have "cfg_Address client = cfg_Address cfg" "cfg_Token client \<noteq> ''''"
    "cfg_Token client = (if cfg_Token cfg \<noteq> '''' then cfg_Token cfg else env ''TFE_TOKEN'')"
    by (auto simp: NewClient_def Let_def split: sum.splits if_splits option.splits)
  with loaded u show ?thesis by (simp add: Let_def)
qed

text \<open>
  With a plain address \<open>scheme://name[:port][/path]\<close> in \<open>TF_URL\<close> and a configuration that
  loads, the operator starts exactly when the host is not empty, there are credentials for it and
  the first ping succeeds; credentials without a token give the token \<open><nil>\<close>.
\<close>
lemma helper_starts_iff:
  assumes "plain_address scheme name port path"
    and "env ''TF_URL'' = address_of scheme name port path"
    and "credential (host_credentials creds (name @ port)) ''token'' \<noteq> Str_value ''''"
    and "credential (host_credentials creds (name @ port)) ''token'' \<noteq> Other_value ''''"
  shows "NewWorkspaceHelper v env ping (Inr creds) =
    (let config = \<lparr>cfg_Address = address_of scheme name port path,
           cfg_Token = (case credential (host_credentials creds (name @ port)) ''token'' of
             Nil_value \<Rightarrow> ''<nil>'' | Str_value s \<Rightarrow> s | Other_value s \<Rightarrow> s),
           cfg_UserAgent = ''terraform-k8s/'' @ Version v,
           cfg_InsecureSkipVerify = (env ''TF_INSECURE'' \<noteq> '''' \<and> ToLower (env ''TF_INSECURE'') \<noteq> ''false'')\<rparr>
     in if name @ port \<noteq> '''' \<and> elems (host_credentials creds (name @ port)) \<noteq> [] \<and> ping config = None
        then Inr config else Inl 1)"
proof -
  let ?c = "credential (host_credentials creds (name @ port)) ''token''"
  have ne: "address_of scheme name port path \<noteq> ''''" "ToLower scheme \<noteq> ''''"
    using assms(1) by (auto simp: address_of_def plain_address_def plain_scheme_def ToLower_def)
  note parsed = url_Parse_plain [OF assms(1)]
  have "show_any ?c \<noteq> ''''" and "show_any ?c = (case ?c of Nil_value \<Rightarrow> ''<nil>'' | Str_value s \<Rightarrow> s | Other_value s \<Rightarrow> s)"
    using assms(3,4) by (cases ?c; simp)+
  with ne parsed assms(2) show ?thesis
    by (simp add: NewWorkspaceHelper_def GetClient_def createTerraformConfig_def NewClient_def Let_def
        split: option.split)
qed

text \<open>An address without a colon is refused.\<close>

lemma getscheme_none: "CHR '':'' \<notin> set s \<Longrightarrow> getscheme seen s = Inr x \<Longrightarrow> fst x = ''''"
  by (induction seen s rule: getscheme.induct) (auto split: if_splits)

lemma parse_scheme:
  assumes "parse s = Inr u" and "CHR '':'' \<notin> set s"
  shows "url_Scheme u = ''''"
proof (cases "getscheme [] s")
  case (Inl e)
  with assms(1) show ?thesis by (auto simp: parse_def split: if_splits)
next
  case (Inr x)
  with getscheme_none [OF assms(2)] obtain rest where "getscheme [] s = Inr ('''', rest)" by (cases x) force
  with assms(1) show ?thesis
    by (auto simp: parse_def Let_def ToLower_def split: if_splits sum.splits)
qed

lemma client_needs_scheme:
  assumes "CHR '':'' \<notin> set addr" and "addr \<noteq> ''''"
  shows "\<exists>e. createTerraformConfig v env addr creds = Inl e"
proof -
  from assms(1) have no: "CHR '':'' \<notin> set (takeWhile (\<lambda>c. c \<noteq> CHR ''#'') addr)" by (auto dest: set_takeWhileD)
  have "url_Scheme u = ''''" if "url_Parse addr = Inr u" for u
    using that parse_scheme [OF _ no] by (auto simp: url_Parse_def Let_def split: sum.splits if_splits)
  with assms(2) show ?thesis
    by (cases "url_Parse addr") (simp_all add: createTerraformConfig_def Let_def)
qed

section \<open>Examples\<close>

definition example_credentials :: credentials where
  "example_credentials = Some [(''tfe.example.com:8443'', Some [(''token'', Str_value ''s3cret'')]),
     (''app.terraform.io'', Some [(''user'', Str_value ''me'')])]"

definition example_getenv :: getenv where
  "example_getenv k = (if k = ''TF_URL'' then ''https://tfe.example.com:8443/path'' else '''')"

definition example_config :: tfc_Config where
  "example_config = \<lparr>cfg_Address = ''https://tfe.example.com:8443/path'', cfg_Token = ''s3cret'',
     cfg_UserAgent = ''terraform-k8s/0.1.4-alpha'', cfg_InsecureSkipVerify = False\<rparr>"

lemma example_plain: "plain_address ''https'' ''tfe.example.com'' '':8443'' ''/path''"
  by (simp add: plain_address_def plain_scheme_def plain_port_def plain_path_def id_char_def is_alpha_def is_digit_def)

lemma example_start:
  "NewWorkspaceHelper source_version example_getenv (\<lambda>_. None) (Inr example_credentials) = Inr example_config"
  by (simp add: NewWorkspaceHelper_def GetClient_def createTerraformConfig_def NewClient_def
      example_getenv_def example_config_def example_credentials_def host_credentials_def credential_def lookup_map_def
      url_Parse_plain [OF example_plain, unfolded address_of_def, simplified] ToLower_def source_version_def)

lemma client_token_of_host_witness:
  "\<exists>u. url_Parse (cfg_Address example_config) = Inr u \<and> url_Host u \<noteq> ''''"
  using client_token_of_host [OF example_start] by blast

lemma helper_starts_iff_witness:
  "NewWorkspaceHelper source_version example_getenv (\<lambda>_. Some ErrUnauthorized) (Inr example_credentials) = Inl 1"
proof -
  have "example_getenv ''TF_URL'' = address_of ''https'' ''tfe.example.com'' '':8443'' ''/path''"
    by (simp add: example_getenv_def address_of_def)
  from helper_starts_iff [of "''https''" "''tfe.example.com''" "'':8443''" "''/path''" example_getenv example_credentials,
      OF example_plain this, of source_version "\<lambda>_. Some ErrUnauthorized"]
  show ?thesis
    by (simp add: host_credentials_def credential_def example_credentials_def lookup_map_def)
qed

end
