(* ===== verification/Controller_Watch.thy ===== *)
theory Controller_Watch
  imports Reconcile_Effects Client_Config
begin

text \<open>
  \<open>controllers/workspace_controller.go\<close> and the end of \<open>main.go\<close>: which objects the controller
  watches and, through the event handlers of the controller-runtime library, which reconciles a
  change of an object asks for. Making a manager and a controller, registering a watch and running
  the manager are the library's: their errors are parameters.
\<close>

section \<open>Events and handlers\<close>

datatype kind = Kind_Workspace | Kind_ConfigMap | Kind_Secret

text \<open>An event of the API server, with the metadata of the object before and after it.\<close>

datatype object_event =
    CreateEvent ObjectMeta
  | UpdateEvent ObjectMeta ObjectMeta
  | DeleteEvent ObjectMeta

text \<open>\<open>EnqueueRequestForOwner\<close> has the fields \<open>IsController\<close> and the group and kind of \<open>OwnerType\<close>.\<close>

datatype event_handler =
    EnqueueRequestForObject
  | EnqueueRequestForOwner bool string string

text \<open>The REST mapper of the API server: whether a kind is cluster-scoped, or an error.\<close>

type_synonym rest_mapper = "string \<Rightarrow> string \<Rightarrow> string \<Rightarrow> go_error + bool"

definition name_of :: "ObjectMeta \<Rightarrow> NamespacedName" where
  "name_of m = \<lparr>nn_Namespace = om_Namespace m, nn_Name = om_Name m\<rparr>"

definition GetControllerOf :: "ObjectMeta \<Rightarrow> OwnerReference option" where
  "GetControllerOf m = List.find or_Controller (om_OwnerReferences m)"

definition getOwnersReferences :: "bool \<Rightarrow> ObjectMeta \<Rightarrow> OwnerReference list" where
  "getOwnersReferences isController m =
     (if \<not> isController then om_OwnerReferences m
      else case GetControllerOf m of None \<Rightarrow> [] | Some ref \<Rightarrow> [ref])"

text \<open>A reference whose API version or mapping is refused ends the search.\<close>

fun getOwnerReconcileRequest ::
  "rest_mapper \<Rightarrow> string \<Rightarrow> string \<Rightarrow> string \<Rightarrow> OwnerReference list \<Rightarrow> NamespacedName list" where
  "getOwnerReconcileRequest mapper grp kind namespace [] = []"
| "getOwnerReconcileRequest mapper grp kind namespace (ref # refs) =
     (case ParseGroupVersion (or_APIVersion ref) of
        Inl _ \<Rightarrow> []
      | Inr (refGroup, refVersion) \<Rightarrow>
          if or_Kind ref = kind \<and> refGroup = grp then
            (case mapper grp kind refVersion of
               Inl _ \<Rightarrow> []
             | Inr root \<Rightarrow>
                 \<lparr>nn_Namespace = (if \<not> root then namespace else ''''), nn_Name = or_Name ref\<rparr>
                 # getOwnerReconcileRequest mapper grp kind namespace refs)
          else getOwnerReconcileRequest mapper grp kind namespace refs)"

fun event_objects :: "object_event \<Rightarrow> ObjectMeta list" where
  "event_objects (CreateEvent m) = [m]"
| "event_objects (UpdateEvent old new) = [old, new]"
| "event_objects (DeleteEvent m) = [m]"

text \<open>The requests a handler adds to the queue, without the duplicates (the library collects them in a map).\<close>

fun enqueues :: "rest_mapper \<Rightarrow> event_handler \<Rightarrow> object_event \<Rightarrow> NamespacedName list" where
  "enqueues mapper EnqueueRequestForObject e = [name_of (last (event_objects e))]"
| "enqueues mapper (EnqueueRequestForOwner isController grp kind) e =
     remdups (concat (map (\<lambda>m. getOwnerReconcileRequest mapper grp kind (om_Namespace m)
       (getOwnersReferences isController m)) (event_objects e)))"

section \<open>The controller\<close>

type_synonym watches = "(kind \<times> event_handler) list"

definition add ::
  "go_error option \<Rightarrow> (kind \<Rightarrow> event_handler \<Rightarrow> go_error option) \<Rightarrow> go_error option \<times> watches" where
  "add new watch =
     (case new of
        Some err \<Rightarrow> (Some err, [])
      | None \<Rightarrow>
          (let h = EnqueueRequestForObject in
           case watch Kind_Workspace h of
             Some err \<Rightarrow> (Some err, [])
           | None \<Rightarrow>
               (let owner = EnqueueRequestForOwner True ''app.terraform.io'' ''Workspace'' in
                case watch Kind_ConfigMap owner of
                  Some err \<Rightarrow> (Some err, [(Kind_Workspace, h)])
                | None \<Rightarrow> (None, [(Kind_Workspace, h), (Kind_ConfigMap, owner)]))))"

text \<open>\<open>NewWorkspaceReconciler\<close> may end the process with a status; then no controller is added.\<close>

definition Add ::
  "version_info \<Rightarrow> getenv \<Rightarrow> (tfc_Config \<Rightarrow> go_error option) \<Rightarrow> go_error + credentials \<Rightarrow>
   go_error option \<Rightarrow> (kind \<Rightarrow> event_handler \<Rightarrow> go_error option) \<Rightarrow> nat + (go_error option \<times> watches)" where
  "Add v env ping loaded new watch =
     (case NewWorkspaceHelper v env ping loaded of
        Inl status \<Rightarrow> Inl status
      | Inr client \<Rightarrow> Inr (add new watch))"

text \<open>
  \<open>main\<close> from \<open>NewManager\<close> on: the status of the process, and the watches with which the manager
  ran, if it did.
\<close>

definition main_status ::
  "go_error option \<Rightarrow> nat + (go_error option \<times> watches) \<Rightarrow> (watches \<Rightarrow> go_error option) \<Rightarrow> nat \<times> watches option" where
  "main_status newManager added start =
     (case newManager of
        Some err \<Rightarrow> (1, None)
      | None \<Rightarrow>
          (case added of
             Inl status \<Rightarrow> (status, None)
           | Inr (Some err, _) \<Rightarrow> (1, None)
           | Inr (None, ws) \<Rightarrow> (case start ws of Some err \<Rightarrow> (1, Some ws) | None \<Rightarrow> (0, Some ws))))"

text \<open>The reconciles an event of an object of a kind asks for.\<close>

definition woken :: "rest_mapper \<Rightarrow> watches \<Rightarrow> kind \<Rightarrow> object_event \<Rightarrow> NamespacedName list" where
  "woken mapper ws k e = concat (map (\<lambda>(k', h). if k' = k then enqueues mapper h e else []) ws)"

definition WorkspaceReconciler_Reconcile :: "codecs \<Rightarrow> NamespacedName \<Rightarrow> Result go" where
  "WorkspaceReconciler_Reconcile C req = Reconcile C req"

section \<open>What wakes the reconciler\<close>

lemma add_watches:
  "add new watch = (None, ws) \<Longrightarrow>
   ws = [(Kind_Workspace, EnqueueRequestForObject),
         (Kind_ConfigMap, EnqueueRequestForOwner True ''app.terraform.io'' ''Workspace'')]"
  by (auto simp: add_def Let_def split: option.splits)

text \<open>The manager runs only with a client and with both watches.\<close>

lemma main_runs:
  assumes "main_status m (Add v env ping loaded new watch) start = (status, Some ws)"
  shows "add new watch = (None, ws)" and "\<exists>client. NewWorkspaceHelper v env ping loaded = Inr client"
  using assms by (auto simp: main_status_def Add_def split: option.splits sum.splits prod.splits)

text \<open>An object that was made by the operator is controlled by its Workspace alone.\<close>

lemma new_object_owner:
  assumes "SetControllerReference (Meta w) (new_meta name namespace) = Inr m"
  shows "om_OwnerReferences m = [controller_ref (Meta w)]" and "om_Namespace m = namespace"
  using assms by (auto simp: SetControllerReference_def new_meta_def Let_def split: option.splits)

lemma owner_request:
  assumes "\<And>v. mapper ''app.terraform.io'' ''Workspace'' v = Inr False"
    and "om_OwnerReferences m = [controller_ref owner]"
  shows "getOwnerReconcileRequest mapper ''app.terraform.io'' ''Workspace'' (om_Namespace m)
    (getOwnersReferences True m) = [\<lparr>nn_Namespace = om_Namespace m, nn_Name = om_Name owner\<rparr>]"
  using assms by (simp add: getOwnersReferences_def GetControllerOf_def controller_ref_def)

lemma created_configmap:
  assumes "UpsertTerraformConfig w template E h t = Some (r, t', ev)"
    and "(Kube (Create_ConfigMap c), a) \<in> set ev"
  shows "SetControllerReference (Meta w) (new_meta (ws_Name w) (ws_Namespace w)) = Inr (cm_Meta c)"
proof -
  have "emits (\<lambda>q. \<forall>c. q = Kube (Create_ConfigMap c) \<longrightarrow>
      SetControllerReference (Meta w) (new_meta (ws_Name w) (ws_Namespace w)) = Inr (cm_Meta c))
    (UpsertTerraformConfig w template)"
    unfolding UpsertTerraformConfig_def Let_def
    by (intro emits_rules) (auto simp: configMapForTerraform_def)
  from emits_event [OF this assms] show ?thesis by simp
qed

text \<open>
  C40. When the manager runs, any event of a ConfigMap that the operator created for a Workspace,
  with whatever data, asks for exactly one reconcile, that of the Workspace.
\<close>
theorem configmap_wakes_owner:
  assumes "main_status m (Add v env ping loaded new watch) start = (status, Some ws)"
    and "\<And>v. mapper ''app.terraform.io'' ''Workspace'' v = Inr False"
    and "UpsertTerraformConfig w template E h t = Some (r, t', ev)"
    and "(Kube (Create_ConfigMap c), a) \<in> set ev"
    and "\<And>m. m \<in> set (event_objects e) \<Longrightarrow>
      om_OwnerReferences m = om_OwnerReferences (cm_Meta c) \<and> om_Namespace m = om_Namespace (cm_Meta c)"
  shows "woken mapper ws Kind_ConfigMap e = [\<lparr>nn_Namespace = ws_Namespace w, nn_Name = ws_Name w\<rparr>]"
proof -
  note owner = new_object_owner [OF created_configmap [OF assms(3,4)]]
  have "getOwnerReconcileRequest mapper ''app.terraform.io'' ''Workspace'' (om_Namespace m)
      (getOwnersReferences True m) = [\<lparr>nn_Namespace = ws_Namespace w, nn_Name = ws_Name w\<rparr>]"
    if "m \<in> set (event_objects e)" for m
    using owner_request [of mapper m "Meta w", OF assms(2)] assms(5) [OF that] owner by simp
  then show ?thesis
    by (cases e) (simp_all add: woken_def add_watches [OF main_runs(1) [OF assms(1)]])
qed

text \<open>Secrets are not watched: a change of one asks for no reconcile.\<close>

lemma secrets_wake_nobody: "add new watch = (None, ws) \<Longrightarrow> woken mapper ws Kind_Secret e = []"
  by (auto simp: woken_def dest!: add_watches)

section \<open>An example\<close>

definition example_configmap :: ConfigMap where
  "example_configmap = \<lparr>cm_Meta = (new_meta ''hello'' ''prod'')\<lparr>om_OwnerReferences :=
     [controller_ref (Meta example_workspace)]\<rparr>, cm_Data = Some [(TerraformConfigMap, ''new'')]\<rparr>"

fun example_missing :: env where
  "example_missing h (Kube (Get_ConfigMap n)) = Inl (StatusError ''NotFound'' ''no such ConfigMap'')"
| "example_missing h q = Inr R_None"

lemma example_created:
  "UpsertTerraformConfig example_workspace ''new'' example_missing [] t =
     Some (Ok True, t, [(Kube (Get_ConfigMap \<lparr>nn_Namespace = ''prod'', nn_Name = ''hello''\<rparr>),
         Inl (StatusError ''NotFound'' ''no such ConfigMap'')),
       (Kube (Create_ConfigMap example_configmap), Inr R_None)])"
  by (simp add: UpsertTerraformConfig_def kube_Get_ConfigMap_def kube_Create_ConfigMap_def go_defs Let_def
      k8s_IsNotFound_def configMapForTerraform_def SetControllerReference_def validateOwner_def new_meta_def
      example_workspace_def example_configmap_def)

lemma example_main:
  "main_status None (Add source_version example_getenv (\<lambda>_. None) (Inr example_credentials) None (\<lambda>_ _. None)) (\<lambda>_. None) =
     (0, Some (snd (add None (\<lambda>_ _. None))))"
  by (simp add: main_status_def Add_def example_start add_def)

lemma configmap_wakes_owner_witness:
  "woken (\<lambda>_ _ _. Inr False) (snd (add None (\<lambda>_ _. None))) Kind_ConfigMap
     (UpdateEvent (cm_Meta example_configmap) (cm_Meta example_configmap)) =
   [\<lparr>nn_Namespace = ''prod'', nn_Name = ''hello''\<rparr>]"
  using configmap_wakes_owner [OF example_main, of "\<lambda>_ _ _. Inr False", OF refl example_created,
      of example_configmap "Inr R_None" "UpdateEvent (cm_Meta example_configmap) (cm_Meta example_configmap)"]
  by (simp add: example_workspace_def)

end
