(* ===== verification/Controller_Loop.thy ===== *)
theory Controller_Loop
  imports Work_Queue Controller_Watch Reconcile_Safety Reconcile_Runs
begin

text \<open>
  The operator as a system: the workers of the controller that \<open>workspace_controller.go\<close> makes take
  objects from the queue, call \<open>Reconcile\<close> and put them back as its result says, while watches add
  objects and delayed ones become ready. This is \<open>internal/controller/controller.go\<close> of the
  controller-runtime library and the delaying and rate limiting queues of \<open>client-go\<close>, around the
  model of \<open>Reconcile\<close>.
\<close>

section \<open>The state\<close>

text \<open>
  Beside the queue: the channel of \<open>AddAfter\<close>, the heap with the index of its entries, the counter of the item
  rate limiter, the clock in nanoseconds, the fields of the shared client and the history of the
  requests of the reconciles that ended. A panic of a worker ends the process.
\<close>

record controller_state =
  cs_queue :: "NamespacedName work_queue"
  cs_waitingForAdd :: "(NamespacedName \<times> nat) list"
  cs_waiting :: "(NamespacedName \<times> nat) list"
  cs_failures :: "NamespacedName \<Rightarrow> nat"
  cs_now :: nat
  cs_client :: tfclient
  cs_history :: trace
  cs_crashed :: bool

definition controller_start :: "tfclient \<Rightarrow> nat \<Rightarrow> controller_state" where
  "controller_start t now = \<lparr>cs_queue = newQueue, cs_waitingForAdd = [], cs_waiting = [],
     cs_failures = (\<lambda>_. 0), cs_now = now, cs_client = t, cs_history = [], cs_crashed = False\<rparr>"

text \<open>\<open>controller.New\<close> with the options of \<open>add\<close>, which leave \<open>MaxConcurrentReconciles\<close> at 0.\<close>

definition MaxConcurrentReconciles :: "int \<Rightarrow> nat" where
  "MaxConcurrentReconciles n = (if n \<le> 0 then 1 else nat n)"

lemma one_worker: "MaxConcurrentReconciles 0 = 1"
  by (simp add: MaxConcurrentReconciles_def)

section \<open>Rate limiting\<close>

text \<open>
  \<open>ItemExponentialFailureRateLimiter\<close> with the delays of the default limiter, in nanoseconds. The
  code computes the back-off as a \<open>float64\<close>, which holds \<open>5000000 * 2 ^ n\<close> exactly or is infinite.
\<close>

definition baseDelay :: nat where "baseDelay = 5000000"
definition maxDelay :: nat where "maxDelay = 1000000000000"

definition item_delay :: "nat \<Rightarrow> nat" where
  "item_delay n =
     (let backoff = baseDelay * 2 ^ n in
      if backoff > 9223372036854775807 then maxDelay
      else if backoff > maxDelay then maxDelay
      else backoff)"

text \<open>
  The limiter is the maximum of this one and a token bucket over all items, whose delay is a parameter.
\<close>

definition When :: "nat \<Rightarrow> NamespacedName \<Rightarrow> controller_state \<Rightarrow> nat \<times> controller_state" where
  "When bucket item s =
     (max (item_delay (cs_failures s item)) bucket,
      s\<lparr>cs_failures := (cs_failures s)(item := cs_failures s item + 1)\<rparr>)"

definition Forget :: "NamespacedName \<Rightarrow> controller_state \<Rightarrow> controller_state" where
  "Forget item s = s\<lparr>cs_failures := (cs_failures s)(item := 0)\<rparr>"

section \<open>Delays\<close>

text \<open>The channel has room for 1000 entries; a worker that finds it full waits, which is no result.\<close>

definition AddAfter :: "NamespacedName \<Rightarrow> nat \<Rightarrow> controller_state \<Rightarrow> controller_state option" where
  "AddAfter item duration s =
     (if wq_shuttingDown (cs_queue s) then Some s
      else if duration = 0 then Some (s\<lparr>cs_queue := Queue_Add item (cs_queue s)\<rparr>)
      else if length (cs_waitingForAdd s) < 1000 then
        Some (s\<lparr>cs_waitingForAdd := cs_waitingForAdd s @ [(item, cs_now s + duration)]\<rparr>)
      else None)"

definition AddRateLimited :: "nat \<Rightarrow> NamespacedName \<Rightarrow> controller_state \<Rightarrow> controller_state option" where
  "AddRateLimited bucket item s = (let (d, s) = When bucket item s in AddAfter item d s)"

text \<open>An entry of an item that already waits only makes it ready sooner.\<close>

definition insert_entry :: "NamespacedName \<Rightarrow> nat \<Rightarrow> (NamespacedName \<times> nat) list \<Rightarrow> (NamespacedName \<times> nat) list" where
  "insert_entry item readyAt entries =
     (case map_of entries item of
        Some existing \<Rightarrow>
          if existing > readyAt then map (\<lambda>(i, r). (i, if i = item then readyAt else r)) entries else entries
      | None \<Rightarrow> entries @ [(item, readyAt)])"

text \<open>One entry of the channel, as \<open>waitingLoop\<close> receives it.\<close>

definition receive_entry :: "NamespacedName \<Rightarrow> nat \<Rightarrow> controller_state \<Rightarrow> controller_state" where
  "receive_entry item readyAt s =
     (if readyAt > cs_now s then s\<lparr>cs_waiting := insert_entry item readyAt (cs_waiting s)\<rparr>
      else s\<lparr>cs_queue := Queue_Add item (cs_queue s)\<rparr>)"

text \<open>An entry that \<open>waitingLoop\<close> may pop: ready, and none is ready before it.\<close>

definition ready_entry :: "NamespacedName \<Rightarrow> nat \<Rightarrow> controller_state \<Rightarrow> bool" where
  "ready_entry item readyAt s \<longleftrightarrow> (item, readyAt) \<in> set (cs_waiting s) \<and> readyAt \<le> cs_now s \<and>
     (\<forall>(i, r) \<in> set (cs_waiting s). readyAt \<le> r)"

definition pop_entry :: "NamespacedName \<Rightarrow> nat \<Rightarrow> controller_state \<Rightarrow> controller_state" where
  "pop_entry item readyAt s = s\<lparr>cs_waiting := remove1 (item, readyAt) (cs_waiting s),
     cs_queue := Queue_Add item (cs_queue s)\<rparr>"

section \<open>A worker\<close>

text \<open>
  \<open>RequeueAfter\<close> is in seconds here and in nanoseconds there. The result \<open>None\<close> is a reconcile that does not return: there
  is no step for it, its worker stays busy, and what it sends meanwhile (the polls of a destroy run that never stops)
  is not recorded.
\<close>

definition reconcileHandler ::
    "codecs \<Rightarrow> env \<Rightarrow> nat \<Rightarrow> NamespacedName \<Rightarrow> controller_state \<Rightarrow> controller_state option" where
  "reconcileHandler C E bucket req s =
     (case WorkspaceReconciler_Reconcile C req E (cs_history s) (cs_client s) of
        None \<Rightarrow> None
      | Some (r, t, ev) \<Rightarrow>
          (let s = s\<lparr>cs_client := t, cs_history := cs_history s @ ev\<rparr> in
           case r of
             Panic _ \<Rightarrow> Some (s\<lparr>cs_crashed := True\<rparr>)
           | Err _ \<Rightarrow> AddRateLimited bucket req s
           | Ok result \<Rightarrow>
               if RequeueAfter result > 0 then
                 AddAfter req (RequeueAfter result * 1000000000) (Forget req s)
               else if Requeue result then AddRateLimited bucket req s
               else Some (Forget req s)))"

text \<open>
  The rest of \<open>processNextWorkItem\<close> after \<open>Get\<close>: the deferred \<open>Done\<close>, unless the process is gone.
\<close>

definition processWorkItem ::
    "codecs \<Rightarrow> env \<Rightarrow> nat \<Rightarrow> NamespacedName \<Rightarrow> controller_state \<Rightarrow> controller_state option" where
  "processWorkItem C E bucket req s = map_option
     (\<lambda>s. if cs_crashed s then s else s\<lparr>cs_queue := Queue_Done req (cs_queue s)\<rparr>)
     (reconcileHandler C E bucket req s)"

section \<open>The system\<close>

text \<open>
  The steps of the system: an event of the API server wakes objects, an idle one of \<open>n\<close> workers takes an item, a
  worker handles the item it took, the channel is received from, a delay ends, time passes, the
  process is asked to stop. A busy worker is an element of \<open>processing\<close>. A reconcile is one step, which is exact
  for the one worker the operator has, since nothing else uses the client or sends requests; with more of them the requests of two
  reconciles could alternate, so what is claimed of the system is claimed for one worker.
\<close>

inductive controller_step ::
    "codecs \<Rightarrow> env \<Rightarrow> rest_mapper \<Rightarrow> watches \<Rightarrow> nat \<Rightarrow> controller_state \<Rightarrow> controller_state \<Rightarrow> bool"
  for C E mapper ws n where
  event: "\<not> cs_crashed s \<Longrightarrow>
    controller_step C E mapper ws n s (s\<lparr>cs_queue := fold Queue_Add (woken mapper ws k e) (cs_queue s)\<rparr>)"
| take: "\<not> cs_crashed s \<Longrightarrow> card (wq_processing (cs_queue s)) < n \<Longrightarrow> Queue_Get (cs_queue s) = (Item nn, q) \<Longrightarrow>
    controller_step C E mapper ws n s (s\<lparr>cs_queue := q\<rparr>)"
| handle: "\<not> cs_crashed s \<Longrightarrow> nn \<in> wq_processing (cs_queue s) \<Longrightarrow> processWorkItem C E bucket nn s = Some s' \<Longrightarrow>
    controller_step C E mapper ws n s s'"
| receive: "\<not> cs_crashed s \<Longrightarrow> cs_waitingForAdd s = (nn, r) # rest \<Longrightarrow>
    controller_step C E mapper ws n s (receive_entry nn r (s\<lparr>cs_waitingForAdd := rest\<rparr>))"
| ready: "\<not> cs_crashed s \<Longrightarrow> ready_entry nn r s \<Longrightarrow> controller_step C E mapper ws n s (pop_entry nn r s)"
| tick: "\<not> cs_crashed s \<Longrightarrow> controller_step C E mapper ws n s (s\<lparr>cs_now := cs_now s + d\<rparr>)"
| stop: "\<not> cs_crashed s \<Longrightarrow> controller_step C E mapper ws n s (s\<lparr>cs_queue := Queue_ShutDown (cs_queue s)\<rparr>)"

abbreviation controller_steps where
  "controller_steps C E mapper ws n \<equiv> (controller_step C E mapper ws n)\<^sup>*\<^sup>*"

text \<open>An object that will be reconciled: in the queue or with a worker, or delayed.\<close>

definition scheduled :: "NamespacedName \<Rightarrow> controller_state \<Rightarrow> bool" where
  "scheduled nn s \<longleftrightarrow> nn \<in> wq_dirty (cs_queue s) \<union> wq_processing (cs_queue s) \<union>
     fst ` set (cs_waitingForAdd s) \<union> fst ` set (cs_waiting s)"

section \<open>When an object is left alone\<close>

text \<open>
  What a reconcile has seen when it asks for no repetition: the object is gone, or it was marked
  for deletion and the write that removed the finalizer was acknowledged.
\<close>

definition released :: "NamespacedName \<Rightarrow> trace \<Rightarrow> bool" where
  "released nn evs \<longleftrightarrow>
     (\<exists>e. (Kube (Get_Workspace nn), Inl e) \<in> set evs \<and> k8s_IsNotFound e) \<or>
     (\<exists>w fs a. (Kube (Get_Workspace nn), Inr (R_Resource w)) \<in> set evs \<and> om_DeletionTimestamp (Meta w) \<noteq> None \<and>
        remove (om_Finalizers (Meta w)) workspaceFinalizer = Some fs \<and>
        (Kube (Update_Workspace (set_finalizers fs w)), Inr a) \<in> set evs)"

lemma released_append [simp]: "released nn evs \<Longrightarrow> released nn (pre @ evs)" "released nn evs \<Longrightarrow> released nn (evs @ post)"
  by (auto simp: released_def)

text \<open>A reconcile of a live object that succeeds asks to be repeated.\<close>

lemma live_repeats: "yields (\<lambda>res. Requeue res \<or> 0 < RequeueAfter res) (reconcileLive C w)"
  unfolding reconcileLive_def reconcileFinished_def
  by (intro yields_rules) (simp_all add: no_requeue_def requeueInterval_def)

lemma Reconcile_rests:
  assumes "Reconcile C nn E h t = Some (Ok res, t', ev)" and "\<not> Requeue res" "RequeueAfter res = 0"
  shows "released nn ev"
  using assms(1)
proof (cases rule: Reconcile_courses)
  case (stopped r0)
  from stopped(3) obtain x where "r0 = Ok x" by auto
  with stopped(2) have "r0 = Ok None" by (cases x) auto
  with initialize_None stopped(1) show ?thesis by (fastforce simp: released_def)
next
  case (marked w t1 ev1 ev2 r1)
  from marked(1) obtain rest where "ev1 = (Kube (Get_Workspace nn), Inr (R_Resource w)) # rest"
    by (rule initialize_Ok)
  with marked(5) have get: "(Kube (Get_Workspace nn), Inr (R_Resource w)) \<in> set ev" by simp
  from marked(4) obtain b where "r1 = Ok b" by auto
  with marked(3,2) show ?thesis
  proof (cases rule: condDelete_Some)
    case (released rd ev3 ev4 fs)
    from released(5) \<open>r1 = Ok b\<close> obtain a where "(Kube (Update_Workspace (set_finalizers fs w)), Inr a) \<in> set ev4"
      by (auto simp: kube_Ok elim!: andThen_OkE)
    with released(2,4) marked(2,5) get show ?thesis unfolding released_def by auto
  qed (use \<open>r1 = Ok b\<close> in auto)
next
  case (live w t1 ev1 ev2)
  from yieldsD [OF live_repeats live(3)] assms(2,3) show ?thesis by simp
qed

section \<open>What the steps keep\<close>

lemma fold_Queue_Add:
  "queue_ok q \<Longrightarrow> queue_ok (fold Queue_Add xs q)"
  "wq_processing (fold Queue_Add xs q) = wq_processing q"
  "wq_shuttingDown (fold Queue_Add xs q) = wq_shuttingDown q"
  "wq_dirty (fold Queue_Add xs q) = (if wq_shuttingDown q then wq_dirty q else set xs \<union> wq_dirty q)"
  by (induction xs arbitrary: q) (auto simp: wq.invar_add wq.pending_add wq.active_add)

lemma AddAfter_Some:
  assumes "AddAfter item d s = Some s'"
  obtains (closed) "wq_shuttingDown (cs_queue s)" "s' = s"
    | (now) "\<not> wq_shuttingDown (cs_queue s)" "d = 0" "s' = s\<lparr>cs_queue := Queue_Add item (cs_queue s)\<rparr>"
    | (later) "\<not> wq_shuttingDown (cs_queue s)" "0 < d" "length (cs_waitingForAdd s) < 1000"
      "s' = s\<lparr>cs_waitingForAdd := cs_waitingForAdd s @ [(item, cs_now s + d)]\<rparr>"
  using assms by (auto simp: AddAfter_def split: if_splits)

text \<open>How a handled object and the rest of the state go on.\<close>

definition handled :: "NamespacedName \<Rightarrow> trace \<Rightarrow> controller_state \<Rightarrow> controller_state \<Rightarrow> bool" where
  "handled nn ev s s' \<longleftrightarrow>
     (cs_queue s' = cs_queue s \<or> cs_queue s' = Queue_Add nn (cs_queue s)) \<and>
     cs_waiting s' = cs_waiting s \<and> set (cs_waitingForAdd s) \<subseteq> set (cs_waitingForAdd s') \<and>
     cs_history s' = cs_history s @ ev \<and>
     (cs_crashed s' \<or> wq_shuttingDown (cs_queue s') \<or> released nn ev \<or>
      nn \<in> wq_dirty (cs_queue s') \<or> nn \<in> fst ` set (cs_waitingForAdd s'))"

lemma handled_AddAfter:
  assumes "AddAfter nn d s = Some s'" "cs_queue s = cs_queue s0" "cs_waiting s = cs_waiting s0"
    "cs_waitingForAdd s = cs_waitingForAdd s0" "cs_history s = cs_history s0 @ ev"
  shows "handled nn ev s0 s'"
  using assms(1)
  by (cases rule: AddAfter_Some) (auto simp: handled_def assms(2-) wq.pending_add)

lemma reconcileHandler_handles:
  assumes "reconcileHandler C E bucket nn s = Some s'"
  shows "\<exists>ev. handled nn ev s s'"
proof -
  from assms obtain r t ev where run: "Reconcile C nn E (cs_history s) (cs_client s) = Some (r, t, ev)"
    and cont: "(let s = s\<lparr>cs_client := t, cs_history := cs_history s @ ev\<rparr> in
           case r of
             Panic _ \<Rightarrow> Some (s\<lparr>cs_crashed := True\<rparr>)
           | Err _ \<Rightarrow> AddRateLimited bucket nn s
           | Ok result \<Rightarrow>
               if RequeueAfter result > 0 then
                 AddAfter nn (RequeueAfter result * 1000000000) (Forget nn s)
               else if Requeue result then AddRateLimited bucket nn s
               else Some (Forget nn s)) = Some s'"
    by (auto simp: reconcileHandler_def WorkspaceReconciler_Reconcile_def split: option.splits prod.splits)
  show ?thesis
  proof (cases r)
    case (Ok res)
    show ?thesis
    proof (cases "0 < RequeueAfter res \<or> Requeue res")
      case True
      with cont Ok show ?thesis
        by (auto simp: AddRateLimited_def When_def Forget_def Let_def split: if_splits elim!: handled_AddAfter)
    next
      case False
      with run Ok have "released nn ev" by (intro Reconcile_rests) auto
      with cont Ok False show ?thesis by (auto simp: handled_def Forget_def Let_def)
    qed
  next
    case (Err e)
    with cont show ?thesis by (auto simp: AddRateLimited_def When_def Let_def elim!: handled_AddAfter)
  next
    case (Panic x)
    with cont show ?thesis by (auto simp: handled_def Let_def)
  qed
qed

lemma handled_ok:
  assumes "handled nn ev s s'" "queue_ok (cs_queue s)"
  shows "queue_ok (cs_queue s')" "wq_processing (cs_queue s') = wq_processing (cs_queue s)"
    "wq_dirty (cs_queue s) \<subseteq> wq_dirty (cs_queue s')" "wq_shuttingDown (cs_queue s') = wq_shuttingDown (cs_queue s)"
  using assms by (auto simp: handled_def wq.invar_add wq.active_add wq.pending_add)

lemma processWorkItem_Some:
  assumes "processWorkItem C E bucket nn s = Some s'"
  obtains (crash) ev where "handled nn ev s s'" "cs_crashed s'"
    | (finished) s1 ev where "handled nn ev s s1" "s' = s1\<lparr>cs_queue := Queue_Done nn (cs_queue s1)\<rparr>"
proof -
  from assms obtain s1 where s1: "reconcileHandler C E bucket nn s = Some s1"
    "s' = (if cs_crashed s1 then s1 else s1\<lparr>cs_queue := Queue_Done nn (cs_queue s1)\<rparr>)"
    by (auto simp: processWorkItem_def)
  from reconcileHandler_handles [OF s1(1)] obtain ev where "handled nn ev s s1" by blast
  with s1(2) that show thesis by (cases "cs_crashed s1") auto
qed

text \<open>The invariant of the queue, and the number of busy workers.\<close>

definition controller_ok :: "nat \<Rightarrow> controller_state \<Rightarrow> bool" where
  "controller_ok n s \<longleftrightarrow> queue_ok (cs_queue s) \<and> finite (wq_processing (cs_queue s)) \<and>
     card (wq_processing (cs_queue s)) \<le> n"

lemma receive_simps [simp]:
  "wq_processing (cs_queue (receive_entry nn r s)) = wq_processing (cs_queue s)"
  "wq_shuttingDown (cs_queue (receive_entry nn r s)) = wq_shuttingDown (cs_queue s)"
  "queue_ok (cs_queue s) \<Longrightarrow> queue_ok (cs_queue (receive_entry nn r s))"
  "cs_history (receive_entry nn r s) = cs_history s" "cs_crashed (receive_entry nn r s) = cs_crashed s"
  "cs_client (receive_entry nn r s) = cs_client s"
  "wq_processing (cs_queue (pop_entry nn r s)) = wq_processing (cs_queue s)"
  "wq_shuttingDown (cs_queue (pop_entry nn r s)) = wq_shuttingDown (cs_queue s)"
  "queue_ok (cs_queue s) \<Longrightarrow> queue_ok (cs_queue (pop_entry nn r s))"
  "cs_history (pop_entry nn r s) = cs_history s" "cs_crashed (pop_entry nn r s) = cs_crashed s"
  "cs_client (pop_entry nn r s) = cs_client s"
  by (simp_all add: receive_entry_def pop_entry_def wq.invar_add wq.active_add)

lemma controller_step_ok:
  assumes "controller_step C E mapper ws n s s'" "controller_ok n s"
  shows "controller_ok n s'"
  using assms
proof cases
  case (take nn q)
  from wq.get_item [OF _ take(4)] wq.invar_get [OF _ take(4)] assms(2) take(1,3) show ?thesis
    by (auto simp: controller_ok_def)
next
  case (handle nn bucket)
  from handle(3) show ?thesis
  proof (cases rule: processWorkItem_Some)
    case (crash ev)
    with handled_ok assms(2) show ?thesis by (auto simp: controller_ok_def)
  next
    case (finished s1 ev)
    have "nn \<in> wq_processing (cs_queue s1)" "queue_ok (cs_queue s1)"
      using handled_ok [OF finished(1)] assms(2) handle(2) by (auto simp: controller_ok_def)
    with finished handled_ok [OF finished(1)] assms(2) card_Diff1_le [of "wq_processing (cs_queue s)" nn] show ?thesis
      by (auto simp: controller_ok_def wq.invar_finish wq.active_finish)
  qed
qed (auto simp: controller_ok_def fold_Queue_Add)

lemma controller_steps_ok:
  "controller_steps C E mapper ws n s s' \<Longrightarrow> controller_ok n s \<Longrightarrow> controller_ok n s'"
  by (induction rule: rtranclp_induct) (auto intro: controller_step_ok)

lemma start_ok: "controller_ok n (controller_start t now)"
  by (simp add: controller_ok_def controller_start_def queue_ok_new) (simp add: newQueue_def)

section \<open>Objects stay scheduled\<close>

lemma insert_entry_items [simp]: "fst ` set (insert_entry nn r es) = insert nn (fst ` set es)"
proof (cases "map_of es nn")
  case None
  then show ?thesis by (auto simp: insert_entry_def)
next
  case (Some r')
  then have "nn \<in> fst ` set es" by (metis map_of_SomeD fst_conv image_eqI)
  with Some show ?thesis by (force simp: insert_entry_def)
qed

lemma receive_scheduled:
  assumes "scheduled x s" "cs_waitingForAdd s = (nn, r) # rest" "\<not> wq_shuttingDown (cs_queue s)"
  shows "scheduled x (receive_entry nn r (s\<lparr>cs_waitingForAdd := rest\<rparr>))"
  using assms by (auto simp: scheduled_def receive_entry_def wq.pending_add wq.active_add)

lemma pop_scheduled:
  assumes "scheduled x s" "\<not> wq_shuttingDown (cs_queue s)"
  shows "scheduled x (pop_entry nn r s)"
proof -
  have "fst ` set es \<subseteq> insert nn (fst ` set (remove1 (nn, r) es))" for es
    by (induction es) auto
  with assms show ?thesis by (auto simp: scheduled_def pop_entry_def wq.pending_add wq.active_add)
qed

lemma processWorkItem_scheduled:
  assumes "processWorkItem C E bucket nn s = Some s'" "scheduled x s" "controller_ok n s"
  shows "cs_crashed s' \<or> wq_shuttingDown (cs_queue s') \<or> scheduled x s' \<or>
    (\<exists>ev. cs_history s' = cs_history s @ ev \<and> released x ev)"
  using assms(1)
proof (cases rule: processWorkItem_Some)
  case (finished s1 ev)
  note q = handled_ok [OF finished(1)]
  show ?thesis
  proof (cases "x = nn")
    case True
    with finished show ?thesis by (auto simp: handled_def scheduled_def wq.pending_finish)
  next
    case False
    with finished q assms(2,3) show ?thesis
      by (auto simp: handled_def scheduled_def controller_ok_def wq.pending_finish wq.active_finish)
  qed
qed simp

lemma controller_step_scheduled:
  assumes "controller_step C E mapper ws n s s'" "scheduled x s" "controller_ok n s"
    "\<not> wq_shuttingDown (cs_queue s)"
  shows "cs_crashed s' \<or> wq_shuttingDown (cs_queue s') \<or> scheduled x s' \<or>
    (\<exists>ev. cs_history s' = cs_history s @ ev \<and> released x ev)"
  using assms(1)
proof cases
  case (take nn q)
  from wq.get_item [OF _ take(4)] assms(2,3) take(1) show ?thesis
    by (auto simp: controller_ok_def scheduled_def)
next
  case (handle nn bucket)
  from processWorkItem_scheduled [OF handle(3) assms(2,3)] show ?thesis .
next
  case (receive nn r rest)
  with receive_scheduled [OF assms(2) receive(3) assms(4)] show ?thesis by simp
next
  case (ready nn r)
  with pop_scheduled [OF assms(2,4)] show ?thesis by simp
qed (use assms(2) in \<open>auto simp: scheduled_def fold_Queue_Add\<close>)

lemma controller_step_stays:
  assumes "controller_step C E mapper ws n s s'"
  shows "\<not> cs_crashed s" "wq_shuttingDown (cs_queue s) \<Longrightarrow> wq_shuttingDown (cs_queue s')"
    "\<exists>ev. cs_history s' = cs_history s @ ev"
proof -
  show "\<not> cs_crashed s" using assms by cases
  have "(wq_shuttingDown (cs_queue s) \<longrightarrow> wq_shuttingDown (cs_queue s')) \<and> (\<exists>ev. cs_history s' = cs_history s @ ev)"
    using assms
  proof cases
    case (handle nn bucket)
    from handle(3) show ?thesis
      by (cases rule: processWorkItem_Some) (auto simp: handled_def)
  qed (auto simp: fold_Queue_Add closed_get)
  then show "wq_shuttingDown (cs_queue s) \<Longrightarrow> wq_shuttingDown (cs_queue s')" "\<exists>ev. cs_history s' = cs_history s @ ev"
    by simp_all
qed

text \<open>
  C10. An object that is scheduled stays scheduled, in the queue, with a worker or delayed, through whatever
  happens: unless the process panics or is asked to stop, it can only leave by a later
  reconcile that found it gone, or found it marked for deletion and got the removal of the finalizer acknowledged.
\<close>
theorem objects_stay_scheduled:
  assumes "controller_steps C E mapper ws (MaxConcurrentReconciles 0) (controller_start t now) s"
    and "controller_steps C E mapper ws (MaxConcurrentReconciles 0) s s'" and "scheduled nn s"
  shows "cs_crashed s' \<or> wq_shuttingDown (cs_queue s') \<or> scheduled nn s' \<or>
    (\<exists>ev. cs_history s' = cs_history s @ ev \<and> released nn ev)"
  using assms(2)
proof (induction rule: rtranclp_induct)
  case base
  with assms(3) show ?case by simp
next
  case (step s1 s2)
  have ok: "controller_ok (MaxConcurrentReconciles 0) s1"
    using controller_steps_ok [OF assms(1) start_ok] controller_steps_ok [OF step(1)] by blast
  from controller_step_stays(3) [OF step(2)] obtain ev2 where ev2: "cs_history s2 = cs_history s1 @ ev2" by blast
  from step.IH controller_step_stays(1) [OF step(2)] consider
    (closed) "wq_shuttingDown (cs_queue s1)" | (kept) "scheduled nn s1" "\<not> wq_shuttingDown (cs_queue s1)"
    | (gone) ev where "cs_history s1 = cs_history s @ ev" "released nn ev" by blast
  then show ?case
  proof cases
    case closed
    with controller_step_stays(2) [OF step(2)] show ?thesis by simp
  next
    case kept
    have "\<exists>ev. cs_history s1 = cs_history s @ ev"
      using step(1) by (induction rule: rtranclp_induct) (auto dest: controller_step_stays(3))
    with controller_step_scheduled [OF step(2) kept(1) ok kept(2)] show ?thesis by fastforce
  next
    case gone
    with ev2 show ?thesis by fastforce
  qed
qed

text \<open>
  C19. With the options the operator gives its controller, one reconcile runs at a time, and the queue
  holds every waiting object once and never the one that is being reconciled.
\<close>
theorem one_reconcile_at_a_time:
  assumes "controller_steps C E mapper ws (MaxConcurrentReconciles 0) (controller_start t now) s"
  shows "card (wq_processing (cs_queue s)) \<le> 1 \<and> distinct (wq_queue (cs_queue s)) \<and>
    set (wq_queue (cs_queue s)) \<inter> wq_processing (cs_queue s) = {}"
  using controller_steps_ok [OF assms start_ok]
  by (auto simp: controller_ok_def queue_ok_def one_worker)

end
