(* ===== verification/Controller_Timing.thy ===== *)
theory Controller_Timing
  imports Controller_Loop
begin

text \<open>
  When the controller of \<open>Controller_Loop\<close> looks at an object again: how long it waits after a
  reconcile, in which order the queue serves objects, and what a reconcile that never returns does to all others.
\<close>

section \<open>The delay after a reconcile\<close>

lemma item_delay_eq: "item_delay n = min (5000000 * 2 ^ n) 1000000000000"
  by (simp add: item_delay_def Let_def baseDelay_def maxDelay_def min_def)

lemma item_delay_pos: "0 < item_delay n"
  by (simp add: item_delay_eq)

text \<open>After 18 reconciles that asked to be repeated at once, the limiter is at its maximum.\<close>

lemma item_delay_max: "18 \<le> n \<Longrightarrow> item_delay n = 1000000000000"
proof -
  assume "18 \<le> n"
  then have "(2::nat) ^ 18 \<le> 2 ^ n" by (rule power_increasing) simp
  then show ?thesis by (simp add: item_delay_eq)
qed

lemma live_results: "yields (\<lambda>res. RequeueAfter res = (if Requeue res then 0 else requeueInterval)) (reconcileLive C w)"
  unfolding reconcileLive_def reconcileFinished_def
  by (intro yields_rules) (simp_all add: no_requeue_def)

lemma Reconcile_live_result:
  assumes "Reconcile C nn E h t = Some (Ok res, t', ev)"
    and "E h (Kube (Get_Workspace nn)) = Inr (R_Resource w)" "om_DeletionTimestamp (Meta w) = None"
  shows "RequeueAfter res = (if Requeue res then 0 else requeueInterval)"
  using assms
proof (cases rule: reads_object)
  case (live t1 ev1 ev2)
  from yieldsD [OF live_results live(2)] show ?thesis .
qed auto

text \<open>What a worker does with the result of a reconcile.\<close>

lemma processWorkItem_Ok:
  assumes "Reconcile C nn E (cs_history s) (cs_client s) = Some (Ok res, t, ev)"
    and "processWorkItem C E bucket nn s = Some s'" "\<not> cs_crashed s" "\<not> wq_shuttingDown (cs_queue s)"
  shows "0 < RequeueAfter res \<Longrightarrow>
      cs_waitingForAdd s' = cs_waitingForAdd s @ [(nn, cs_now s + RequeueAfter res * 1000000000)] \<and> cs_failures s' nn = 0"
    and "RequeueAfter res = 0 \<Longrightarrow> Requeue res \<Longrightarrow>
      cs_waitingForAdd s' = cs_waitingForAdd s @ [(nn, cs_now s + max (item_delay (cs_failures s nn)) bucket)] \<and>
      cs_failures s' nn = cs_failures s nn + 1"
  using assms item_delay_pos [of "cs_failures s nn"]
  by (auto simp: processWorkItem_def reconcileHandler_def WorkspaceReconciler_Reconcile_def Let_def Forget_def
      AddRateLimited_def When_def AddAfter_def split: if_splits)

text \<open>
  C18. A live object comes back after every successful reconcile: after one minute, with its counter
  reset, when it has nothing to do; but while its run is pending, every poll counts as a
  failure, so the next one is put off by 5 milliseconds times two to the number of polls so far, up to 1000
  seconds, which it is from the 18th poll on.
\<close>
theorem pending_run_backs_off:
  assumes "Reconcile C nn E (cs_history s) (cs_client s) = Some (Ok res, t, ev)"
    and "E (cs_history s) (Kube (Get_Workspace nn)) = Inr (R_Resource w)" "om_DeletionTimestamp (Meta w) = None"
    and "processWorkItem C E bucket nn s = Some s'" "\<not> cs_crashed s" "\<not> wq_shuttingDown (cs_queue s)"
  shows "\<exists>d. cs_waitingForAdd s' = cs_waitingForAdd s @ [(nn, cs_now s + d)] \<and>
    (if Requeue res
     then d = max (min (5000000 * 2 ^ cs_failures s nn) 1000000000000) bucket \<and> cs_failures s' nn = cs_failures s nn + 1
     else d = 60000000000 \<and> cs_failures s' nn = 0) \<and>
    ((Runs (Run_Read i), a) \<in> set ev \<longrightarrow> Requeue res \<and> (18 \<le> cs_failures s nn \<longrightarrow> 1000000000000 \<le> d))"
proof -
  note item_delay_max [of "cs_failures s nn"]
  moreover have "Requeue res" if "(Runs (Run_Read i), a) \<in> set ev"
    using polling_reconcile [OF assms(1,2,3) that] by simp
  ultimately show ?thesis
    using Reconcile_live_result [OF assms(1,2,3)] processWorkItem_Ok [OF assms(1,4,5,6)]
    by (cases "Requeue res") (auto simp: requeueInterval_def item_delay_eq)
qed

section \<open>The order of the queue\<close>

text \<open>
  Objects are served in the order in which they became ready: whatever adds and finishes come between,
  the first calls of \<open>Get\<close> hand out exactly the objects that were in the queue, in order, so none
  is overtaken and none waits for more reconciles than there were objects before it.
\<close>
lemma queue_first_come_first_served:
  assumes "run_ops Queue_Add Queue_Get Queue_Done ops q = (out, q')"
    and "n = length (filter (\<lambda>op. op = Op_Get) ops)" "n \<le> length (wq_queue q)"
  shows "take n out = take n (wq_queue q)"
  by (rule wq.first_come_first_served [OF assms])

section \<open>A reconcile that never returns\<close>

text \<open>
  There is one worker, so while a reconcile does not return no other object is taken from the queue. (What
  such a reconcile sends meanwhile, like the polling of a run that never stops, is not in the history, which has the
  requests of the reconciles that ended.)
\<close>
lemma endless_reconcile_holds_worker:
  assumes "controller_steps C E mapper ws (MaxConcurrentReconciles 0) (controller_start t now) s"
    and "nn \<in> wq_processing (cs_queue s)" and "Reconcile C nn E (cs_history s) (cs_client s) = None"
    and "controller_steps C E mapper ws (MaxConcurrentReconciles 0) s s'"
  shows "wq_processing (cs_queue s') = {nn}"
proof -
  note one = one_worker
  from controller_steps_ok [OF assms(1) start_ok] assms(2) have "wq_processing (cs_queue s) = {nn}"
    unfolding one by (auto simp: controller_ok_def card_le_Suc0_iff_eq)
  from assms(4) this assms(3)
  have "wq_processing (cs_queue s') = {nn} \<and> cs_history s' = cs_history s \<and> cs_client s' = cs_client s"
  proof (induction rule: rtranclp_induct)
    case (step s1 s2)
    then have s1: "wq_processing (cs_queue s1) = {nn}" "cs_history s1 = cs_history s" "cs_client s1 = cs_client s"
      by simp_all
    from step(2) show ?case
    proof cases
      case (handle nn' bucket)
      with s1 step.prems have "processWorkItem C E bucket nn s1 = Some s2" by simp
      with s1 step.prems show ?thesis
        by (simp add: processWorkItem_def reconcileHandler_def WorkspaceReconciler_Reconcile_def)
    qed (use s1 one in \<open>simp_all add: fold_Queue_Add wq.active_add Queue_ShutDown_def\<close>)
  qed simp
  then show ?thesis by simp
qed

section \<open>The history of requests\<close>

lemma processWorkItem_run:
  assumes "processWorkItem C E bucket nn s = Some s'"
  shows "\<exists>r t ev. Reconcile C nn E (cs_history s) (cs_client s) = Some (r, t, ev) \<and>
    cs_history s' = cs_history s @ ev \<and> (cs_crashed s' \<longleftrightarrow> cs_crashed s \<or> (\<exists>x. r = Panic x))"
  using assms
  by (auto simp: processWorkItem_def reconcileHandler_def WorkspaceReconciler_Reconcile_def AddRateLimited_def
      AddAfter_def When_def Forget_def Let_def split: option.splits outcome.splits if_splits)

text \<open>The history has the requests of the reconciles that ended, one after the other.\<close>

lemma controller_history:
  assumes "controller_steps C E mapper ws n (controller_start t now) s"
    and "\<And>nn h t r t' ev. Reconcile C nn E h t = Some (r, t', ev) \<Longrightarrow> I h False \<Longrightarrow> I (h @ ev) (\<exists>x. r = Panic x)"
    and "I [] False"
  shows "I (cs_history s) (cs_crashed s)"
  using assms(1)
proof (induction rule: rtranclp_induct)
  case base
  with assms(3) show ?case by (simp add: controller_start_def)
next
  case (step s1 s2)
  from step(2) show ?case
  proof cases
    case (handle nn bucket)
    from processWorkItem_run [OF handle(3)] obtain r t ev where
      "Reconcile C nn E (cs_history s1) (cs_client s1) = Some (r, t, ev)"
      "cs_history s2 = cs_history s1 @ ev" "cs_crashed s2 = (cs_crashed s1 \<or> (\<exists>x. r = Panic x))" by blast
    with assms(2) step.IH handle(1) show ?thesis by simp
  qed (use step.IH in simp_all)
qed

section \<open>Examples\<close>

definition example_watches :: watches where
  "example_watches = snd (add None (\<lambda>_ _. None))"

definition example_awake :: controller_state where
  "example_awake = (controller_start example_client 0)\<lparr>cs_queue := newQueue
     \<lparr>wq_queue := [example_name], wq_dirty := {example_name}\<rparr>\<rparr>"

definition example_busy :: controller_state where
  "example_busy = (controller_start example_client 0)\<lparr>cs_queue := newQueue
     \<lparr>wq_processing := {example_name}\<rparr>\<rparr>"

lemma example_event:
  "controller_step C E (\<lambda>_ _ _. Inr False) example_watches n (controller_start example_client 0) example_awake"
  using controller_step.event [of "controller_start example_client 0" C E "\<lambda>_ _ _. Inr False" example_watches n
      Kind_Workspace "CreateEvent (Meta (example_known ''planning''))"]
  by (simp add: woken_def example_watches_def add_def name_of_def controller_start_def newQueue_def Queue_Add_def
      example_awake_def example_name_def)

lemma example_take:
  "0 < n \<Longrightarrow> controller_step C E mapper ws n example_awake example_busy"
  using controller_step.take [of example_awake n example_name "cs_queue example_busy" C E mapper ws]
  by (simp add: example_awake_def example_busy_def controller_start_def newQueue_def Queue_Get_def)

lemma example_path:
  assumes "0 < n"
  shows "controller_steps C E (\<lambda>_ _ _. Inr False) example_watches n (controller_start example_client 0) example_busy"
  using example_event example_take [OF assms] by (meson converse_rtranclp_into_rtranclp rtranclp.rtrancl_refl)

definition example_polled :: controller_state where
  "example_polled = (controller_start example_bound_client 0)\<lparr>cs_waitingForAdd := [(example_name, 5000000)],
     cs_failures := (\<lambda>_. 0)(example_name := 1), cs_history := example_polling\<rparr>"

lemma example_work:
  "processWorkItem C (example_world (example_known ''planning'')) 0 example_name example_busy = Some example_polled"
  using example_polling_run [of C]
  by (simp add: processWorkItem_def reconcileHandler_def WorkspaceReconciler_Reconcile_def example_busy_def
      controller_start_def newQueue_def no_requeue_def AddRateLimited_def When_def AddAfter_def item_delay_eq
      Queue_Done_def Let_def example_polled_def)

lemma example_polls:
  "controller_step no_codecs (example_world (example_known ''planning'')) (\<lambda>_ _ _. Inr False) example_watches
     (MaxConcurrentReconciles 0) example_busy example_polled"
  by (rule controller_step.handle [OF _ _ example_work]) (simp_all add: example_busy_def controller_start_def)

lemma example_polled_path:
  "controller_steps no_codecs (example_world (example_known ''planning'')) (\<lambda>_ _ _. Inr False) example_watches
     (MaxConcurrentReconciles 0) (controller_start example_client 0) example_polled"
proof -
  have "controller_steps no_codecs (example_world (example_known ''planning'')) (\<lambda>_ _ _. Inr False) example_watches
      (MaxConcurrentReconciles 0) (controller_start example_client 0) example_busy"
    by (rule example_path) (simp add: one_worker)
  with example_polls show ?thesis by simp
qed

lemma pending_run_backs_off_witness:
  "\<exists>d. cs_waitingForAdd example_polled = [(example_name, d)] \<and> d = 5000000"
proof -
  let ?s = example_busy
  have run: "Reconcile no_codecs example_name (example_world (example_known ''planning'')) (cs_history ?s) (cs_client ?s) =
      Some (Ok (no_requeue\<lparr>Requeue := True\<rparr>), example_bound_client, example_polling)"
    by (simp add: example_busy_def controller_start_def example_polling_run)
  have state: "cs_waitingForAdd ?s = []" "cs_now ?s = 0" "cs_failures ?s = (\<lambda>_. 0)" "\<not> cs_crashed ?s"
    "\<not> wq_shuttingDown (cs_queue ?s)" by (simp_all add: example_busy_def controller_start_def newQueue_def)
  from pending_run_backs_off [OF run _ _ example_work state(4,5), of "example_known ''planning''"] state
  show ?thesis by (simp add: no_requeue_def)
qed

lemma objects_stay_scheduled_witness:
  "wq_shuttingDown (cs_queue example_polled) \<or> scheduled example_name example_polled \<or> released example_name example_polling"
proof -
  let ?w = "example_known ''planning''"
  let ?steps = "controller_steps no_codecs (example_world ?w) (\<lambda>_ _ _. Inr False) example_watches (MaxConcurrentReconciles 0)"
  have up: "?steps (controller_start example_client 0) example_busy" by (rule example_path) (simp add: one_worker)
  have busy: "scheduled example_name example_busy"
    by (simp add: scheduled_def example_busy_def)
  from example_polls have "?steps example_busy example_polled" by simp
  from objects_stay_scheduled [OF up this busy] show ?thesis
    by (simp add: example_polled_def example_busy_def controller_start_def)
qed

lemma one_reconcile_at_a_time_witness:
  "card (wq_processing (cs_queue example_busy)) \<le> 1"
proof -
  have "controller_steps no_codecs (example_world example_doomed) (\<lambda>_ _ _. Inr False) example_watches
    (MaxConcurrentReconciles 0) (controller_start example_client 0) example_busy"
    by (rule example_path) (simp_all add: MaxConcurrentReconciles_def)
  from one_reconcile_at_a_time [OF this] show ?thesis by simp
qed

lemma queue_first_come_first_served_witness:
  "take 1 (fst (run_ops Queue_Add Queue_Get Queue_Done [Op_Add 3, Op_Get, Op_Done 1] (newQueue\<lparr>wq_queue := [1::nat, 2]\<rparr>))) = [1]"
  using queue_first_come_first_served [of "[Op_Add 3, Op_Get, Op_Done 1]" "newQueue\<lparr>wq_queue := [1::nat, 2]\<rparr>" _ _ 1]
  by (cases "run_ops Queue_Add Queue_Get Queue_Done [Op_Add 3, Op_Get, Op_Done 1] (newQueue\<lparr>wq_queue := [1::nat, 2]\<rparr>)")
    (simp add: newQueue_def)

text \<open>A destroy run that stays pending.\<close>

definition example_stuck :: env where
  "example_stuck h q = (case q of
     Runs (Run_Read i) \<Rightarrow> Inr (R_Run \<lparr>run_ID = i, run_Status = ''planning''\<rparr>)
   | _ \<Rightarrow> example_world example_doomed h q)"

lemma example_stuck_poll: "poll ''run-2'' example_stuck h t = None"
proof -
  have "\<not> settled (example_stuck h' (Runs (Run_Read ''run-2'')))" for h'
    by (simp add: example_stuck_def isPending_iff)
  with poll_returns_iff [of "''run-2''" example_stuck h t] show ?thesis
    by (cases "poll ''run-2'' example_stuck h t") (auto simp: validStringID_def id_char_def)
qed

lemma example_stuck_run: "Reconcile C example_name example_stuck [] t = None"
proof -
  have "initializeReconciliation example_name example_stuck [] t =
      Some (Ok (Some example_doomed), example_bound_client, example_entry example_doomed)"
    by (rule example_initialize) (simp_all add: example_workspace_def example_stuck_def)
  moreover have "condDeleteWorkspace example_doomed example_stuck h t' = None" for h t'
    by (simp add: condDeleteWorkspace_def finalizeWorkspace_def run_defs workspace_defs example_stuck_def
        Workspaces_ReadByID_def Runs_List_def Runs_Create_def destroy_options_def go_defs Let_def
        validStringID_def id_char_def example_destroyed_def example_stuck_poll)
  ultimately show ?thesis by (simp add: Reconcile_live andThen_def)
qed

lemma endless_reconcile_holds_worker_witness:
  "wq_processing (cs_queue (example_busy\<lparr>cs_now := 60\<rparr>)) = {example_name}"
proof -
  let ?steps = "controller_steps no_codecs example_stuck (\<lambda>_ _ _. Inr False) example_watches (MaxConcurrentReconciles 0)"
  have up: "?steps (controller_start example_client 0) example_busy"
    by (rule example_path) (simp_all add: MaxConcurrentReconciles_def)
  have "controller_step no_codecs example_stuck (\<lambda>_ _ _. Inr False) example_watches (MaxConcurrentReconciles 0)
      example_busy (example_busy\<lparr>cs_now := 60\<rparr>)"
    using controller_step.tick [of example_busy no_codecs example_stuck _ _ _ 60]
    by (simp add: example_busy_def controller_start_def)
  then have "?steps example_busy (example_busy\<lparr>cs_now := 60\<rparr>)" by simp
  from endless_reconcile_holds_worker [OF up _ _ this, of example_name] show ?thesis
    by (simp add: example_busy_def controller_start_def example_stuck_run)
qed

end
