(* ===== verification/Controller_Progress.thy ===== *)
theory Controller_Progress
  imports Controller_Timing
begin

text \<open>
  The controller has no dead ends: whatever state it is in, an object that is scheduled can still be brought to
  a worker, as long as no reconcile panics or runs forever.
\<close>

section \<open>Steps that lose nothing\<close>

definition running :: "nat \<Rightarrow> controller_state \<Rightarrow> bool" where
  "running n s \<longleftrightarrow> controller_ok n s \<and> \<not> cs_crashed s \<and> \<not> wq_shuttingDown (cs_queue s)"

text \<open>The queue only grows at its end, and nothing else that is scheduled gets lost.\<close>

definition advances :: "nat \<Rightarrow> controller_state \<Rightarrow> controller_state \<Rightarrow> bool" where
  "advances n s s' \<longleftrightarrow> running n s' \<and> (\<exists>more. wq_queue (cs_queue s') = wq_queue (cs_queue s) @ more) \<and>
     (\<forall>nn. scheduled nn s \<longrightarrow> scheduled nn s')"

lemma advances_refl: "running n s \<Longrightarrow> advances n s s"
  by (simp add: advances_def)

lemma advances_trans: "advances n s1 s2 \<Longrightarrow> advances n s2 s3 \<Longrightarrow> advances n s1 s3"
  unfolding advances_def by (metis append_assoc)

text \<open>An object that is scheduled and not delayed is with a worker or in the queue.\<close>

lemma scheduled_where:
  assumes "running n s" "scheduled nn s"
  obtains "nn \<in> wq_processing (cs_queue s)" | "nn \<in> set (wq_queue (cs_queue s))"
    | "nn \<in> fst ` set (cs_waitingForAdd s)" | "nn \<in> fst ` set (cs_waiting s)"
  using assms by (auto simp: running_def controller_ok_def queue_ok_def scheduled_def)

lemma receive_advances:
  assumes "running n s" "cs_waitingForAdd s = (nn, r) # rest"
  defines "s' \<equiv> receive_entry nn r (s\<lparr>cs_waitingForAdd := rest\<rparr>)"
  shows "advances n s s'" "controller_step C E mapper ws n s s'"
    "wq_processing (cs_queue s') = wq_processing (cs_queue s)" "cs_waitingForAdd s' = rest"
proof -
  from assms(1) have run: "\<not> cs_crashed s" "\<not> wq_shuttingDown (cs_queue s)" by (simp_all add: running_def)
  show step: "controller_step C E mapper ws n s s'" for C E mapper ws
    unfolding s'_def using run(1) assms(2) by (rule controller_step.receive)
  from wq.order_add [of nn "cs_queue s"] have "\<exists>more. wq_queue (cs_queue s') = wq_queue (cs_queue s) @ more"
    by (auto simp: s'_def receive_entry_def)
  moreover have "running n s'"
    using controller_step_ok [OF step] assms(1) by (auto simp: running_def s'_def)
  ultimately show "advances n s s'"
    using receive_scheduled [OF _ assms(2) run(2)] by (auto simp: advances_def s'_def)
  show "wq_processing (cs_queue s') = wq_processing (cs_queue s)" "cs_waitingForAdd s' = rest"
    by (simp_all add: s'_def) (simp add: receive_entry_def)
qed

lemma drain:
  assumes "running n s"
  shows "\<exists>s'. controller_steps C E mapper ws n s s' \<and> advances n s s' \<and> cs_waitingForAdd s' = [] \<and>
    wq_processing (cs_queue s') = wq_processing (cs_queue s)"
  using assms
proof (induction "cs_waitingForAdd s" arbitrary: s)
  case Nil
  then show ?case using advances_refl by (intro exI [of _ s]) simp
next
  case (Cons e rest)
  obtain nn r where e: "e = (nn, r)" by (cases e)
  let ?s = "receive_entry nn r (s\<lparr>cs_waitingForAdd := rest\<rparr>)"
  note receive = receive_advances [OF Cons.prems Cons.hyps(2) [symmetric, unfolded e]]
  from Cons.hyps(1) [of ?s] receive(1,4) obtain s' where s': "controller_steps C E mapper ws n ?s s'" "advances n ?s s'"
    "cs_waitingForAdd s' = []" "wq_processing (cs_queue s') = wq_processing (cs_queue ?s)"
    by (auto simp: advances_def)
  from receive(2) s'(1) have "controller_steps C E mapper ws n s s'" by (rule converse_rtranclp_into_rtranclp)
  with s' advances_trans [OF receive(1) s'(2)] receive(3) show ?case by auto
qed

section \<open>A worker becomes free\<close>

lemma handle_advances:
  assumes "running n s" "nn \<in> wq_processing (cs_queue s)" "cs_waitingForAdd s = []"
    and "Reconcile C nn E (cs_history s) (cs_client s) = Some (r, t, ev)" "\<And>x. r \<noteq> Panic x"
  shows "\<exists>s'. controller_step C E mapper ws n s s' \<and> running n s' \<and>
    (\<exists>more. wq_queue (cs_queue s') = wq_queue (cs_queue s) @ more) \<and>
    wq_processing (cs_queue s') = wq_processing (cs_queue s) - {nn}"
proof -
  from assms(1) have run: "\<not> cs_crashed s" "\<not> wq_shuttingDown (cs_queue s)" by (simp_all add: running_def)
  have "\<exists>s1. reconcileHandler C E 0 nn s = Some s1 \<and> \<not> cs_crashed s1 \<and> cs_queue s1 = cs_queue s"
    using assms(3-5) run item_delay_pos [of "cs_failures s nn"]
    by (cases r) (auto simp: reconcileHandler_def WorkspaceReconciler_Reconcile_def AddRateLimited_def When_def
        AddAfter_def Forget_def Let_def)
  then obtain s1 where s1: "processWorkItem C E 0 nn s = Some (s1\<lparr>cs_queue := Queue_Done nn (cs_queue s)\<rparr>)"
    "\<not> cs_crashed s1" by (auto simp: processWorkItem_def)
  from controller_step.handle [OF run(1) assms(2) s1(1)]
  have step: "controller_step C E mapper ws n s (s1\<lparr>cs_queue := Queue_Done nn (cs_queue s)\<rparr>)" .
  with controller_step_ok [OF step] assms(1) s1(2) run(2) wq.order_finish [of nn "cs_queue s"] show ?thesis
    by (intro exI [of _ "s1\<lparr>cs_queue := Queue_Done nn (cs_queue s)\<rparr>"]) (auto simp: running_def wq.active_finish)
qed

lemma free_worker:
  assumes "running n s" "0 < n"
    and ends: "\<And>nn h t. \<exists>r t' ev. Reconcile C nn E h t = Some (r, t', ev) \<and> (\<forall>x. r \<noteq> Panic x)"
  shows "\<exists>s'. controller_steps C E mapper ws n s s' \<and> running n s' \<and>
    (\<exists>more. wq_queue (cs_queue s') = wq_queue (cs_queue s) @ more) \<and> card (wq_processing (cs_queue s')) < n"
proof (cases "card (wq_processing (cs_queue s)) < n")
  case True
  with assms(1) show ?thesis by auto
next
  case False
  from assms(1) have fin: "finite (wq_processing (cs_queue s))" "card (wq_processing (cs_queue s)) \<le> n"
    by (auto simp: running_def controller_ok_def)
  with False assms(2) obtain nn where nn: "nn \<in> wq_processing (cs_queue s)" by fastforce
  from drain [OF assms(1)] obtain s1 where s1: "controller_steps C E mapper ws n s s1" "advances n s s1"
    "cs_waitingForAdd s1 = []" "wq_processing (cs_queue s1) = wq_processing (cs_queue s)" by blast
  from ends obtain r t ev where "Reconcile C nn E (cs_history s1) (cs_client s1) = Some (r, t, ev)" "\<And>x. r \<noteq> Panic x"
    by blast
  from handle_advances [OF _ _ s1(3) this, of n mapper ws] s1(2,4) nn obtain s2 where s2: "controller_step C E mapper ws n s1 s2"
    "running n s2" "\<exists>more. wq_queue (cs_queue s2) = wq_queue (cs_queue s1) @ more"
    "wq_processing (cs_queue s2) = wq_processing (cs_queue s1) - {nn}" by (auto simp: advances_def)
  from s1(1) s2(1) have "controller_steps C E mapper ws n s s2" by (rule rtranclp.rtrancl_into_rtrancl)
  moreover have "card (wq_processing (cs_queue s2)) < n"
    using s2(4) s1(4) nn fin card_Diff1_less [OF fin(1) nn] by simp
  moreover have "\<exists>more. wq_queue (cs_queue s2) = wq_queue (cs_queue s) @ more"
    using s1(2) s2(3) by (auto simp: advances_def)
  ultimately show ?thesis using s2(2) by blast
qed

section \<open>From the queue to a worker\<close>

lemma queued_reaches_worker:
  assumes "running n s" "0 < n" "wq_queue (cs_queue s) = before @ nn # behind"
    and ends: "\<And>nn h t. \<exists>r t' ev. Reconcile C nn E h t = Some (r, t', ev) \<and> (\<forall>x. r \<noteq> Panic x)"
  shows "\<exists>s'. controller_steps C E mapper ws n s s' \<and> nn \<in> wq_processing (cs_queue s')"
  using assms(1,3)
proof (induction before arbitrary: s behind)
  case Nil
  from free_worker [where mapper = mapper and ws = ws, OF Nil(1) assms(2) ends] Nil(2) obtain s1 more where s1: "controller_steps C E mapper ws n s s1"
    "running n s1" "wq_queue (cs_queue s1) = nn # behind @ more" "card (wq_processing (cs_queue s1)) < n" by auto
  then obtain q where "Queue_Get (cs_queue s1) = (Item nn, q)" "nn \<in> wq_processing q"
    by (auto simp: Queue_Get_def)
  with s1 controller_step.take [of s1 n nn q] show ?case
    by (intro exI [of _ "s1\<lparr>cs_queue := q\<rparr>"]) (auto simp: running_def intro: rtranclp.rtrancl_into_rtrancl)
next
  case (Cons x before)
  from free_worker [where mapper = mapper and ws = ws, OF Cons(2) assms(2) ends] Cons(3) obtain s1 more where s1: "controller_steps C E mapper ws n s s1"
    "running n s1" "wq_queue (cs_queue s1) = x # before @ nn # behind @ more" "card (wq_processing (cs_queue s1)) < n"
    by auto
  then obtain q where q: "Queue_Get (cs_queue s1) = (Item x, q)" "wq_queue q = before @ nn # behind @ more"
    by (auto simp: Queue_Get_def)
  from s1(2,4) q have step: "controller_step C E mapper ws n s1 (s1\<lparr>cs_queue := q\<rparr>)"
    by (intro controller_step.take) (simp_all add: running_def)
  from controller_step_ok [OF step] s1(2) q closed_get [OF q(1)] have "running n (s1\<lparr>cs_queue := q\<rparr>)"
    by (simp add: running_def)
  from Cons.IH [OF this] q(2) obtain s2 where "controller_steps C E mapper ws n (s1\<lparr>cs_queue := q\<rparr>) s2"
    "nn \<in> wq_processing (cs_queue s2)" by auto
  with s1(1) step show ?case by (meson converse_rtranclp_into_rtranclp rtranclp_trans)
qed

section \<open>Delays end\<close>

lemma earliest_entry:
  fixes es :: "('a \<times> nat) list"
  assumes "es \<noteq> []"
  obtains nn r where "(nn, r) \<in> set es" "\<forall>(i, r') \<in> set es. r \<le> r'"
proof -
  have "arg_min_list snd es \<in> set es" "\<forall>e \<in> set es. snd (arg_min_list snd es) \<le> snd e"
    using assms by (simp_all add: arg_min_list_in f_arg_min_list_f)
  with that [of "fst (arg_min_list snd es)" "snd (arg_min_list snd es)"] show thesis
    by (simp add: case_prod_beta)
qed

text \<open>Once enough time has passed, all delayed objects get into the queue.\<close>

lemma delays_end:
  assumes "running n s" "\<And>i r. (i, r) \<in> set (cs_waiting s) \<Longrightarrow> r \<le> cs_now s"
  shows "\<exists>s'. controller_steps C E mapper ws n s s' \<and> advances n s s' \<and> cs_waiting s' = [] \<and>
    cs_waitingForAdd s' = cs_waitingForAdd s"
  using assms
proof (induction "length (cs_waiting s)" arbitrary: s)
  case 0
  then show ?case using advances_refl by (intro exI [of _ s]) simp
next
  case (Suc k)
  then have "cs_waiting s \<noteq> []" by auto
  then obtain nn r where e: "(nn, r) \<in> set (cs_waiting s)" "\<forall>(i, r') \<in> set (cs_waiting s). r \<le> r'"
    by (rule earliest_entry)
  let ?s = "pop_entry nn r s"
  from Suc.prems have run: "\<not> cs_crashed s" "\<not> wq_shuttingDown (cs_queue s)" by (simp_all add: running_def)
  from e Suc.prems(2) run have step: "controller_step C E mapper ws n s ?s"
    by (intro controller_step.ready) (auto simp: ready_entry_def)
  have "advances n s ?s"
    using controller_step_ok [OF step] Suc.prems(1) pop_scheduled [OF _ run(2)] wq.order_add [of nn "cs_queue s"]
    by (auto simp: advances_def running_def pop_entry_def)
  moreover have "k = length (cs_waiting ?s)" "\<And>i r. (i, r) \<in> set (cs_waiting ?s) \<Longrightarrow> r \<le> cs_now ?s"
    using Suc.hyps(2) Suc.prems(2) e(1) by (auto simp: pop_entry_def length_remove1 dest: notin_set_remove1)
  ultimately obtain s' where "controller_steps C E mapper ws n ?s s'" "advances n ?s s'" "cs_waiting s' = []"
    "cs_waitingForAdd s' = cs_waitingForAdd ?s"
    using Suc.hyps(1) [of ?s] by (auto simp: advances_def)
  with step \<open>advances n s ?s\<close> advances_trans show ?case
    by (intro exI [of _ s']) (auto simp: pop_entry_def intro: converse_rtranclp_into_rtranclp)
qed

text \<open>All delayed objects can be brought into the queue.\<close>

lemma ripen:
  assumes "running n s"
  shows "\<exists>s'. controller_steps C E mapper ws n s s' \<and> advances n s s' \<and> cs_waiting s' = [] \<and> cs_waitingForAdd s' = []"
proof -
  from drain [OF assms] obtain s1 where s1: "controller_steps C E mapper ws n s s1" "advances n s s1" "cs_waitingForAdd s1 = []"
    by blast
  let ?s = "s1\<lparr>cs_now := cs_now s1 + Max (insert 0 (snd ` set (cs_waiting s1)))\<rparr>"
  from s1(2) have run: "running n s1" by (simp add: advances_def)
  then have step: "controller_step C E mapper ws n s1 ?s" by (intro controller_step.tick) (simp add: running_def)
  have "advances n s1 ?s" using run by (simp add: advances_def running_def controller_ok_def scheduled_def)
  moreover have "r \<le> cs_now ?s" if "(i, r) \<in> set (cs_waiting ?s)" for i r
    using that by (force intro!: trans_le_add2 Max_ge)
  ultimately obtain s2 where s2: "controller_steps C E mapper ws n ?s s2" "advances n ?s s2" "cs_waiting s2 = []"
    "cs_waitingForAdd s2 = []"
    using delays_end [of n ?s C E mapper ws] s1(3) by (auto simp: advances_def)
  have "controller_steps C E mapper ws n s s2"
    using s1(1) step s2(1) by (meson converse_rtranclp_into_rtranclp rtranclp_trans)
  with s2 advances_trans [OF advances_trans [OF s1(2) \<open>advances n s1 ?s\<close>] s2(2)] show ?thesis by blast
qed

text \<open>
  C11. The controller never gets stuck: from every state it can reach, unless the process panicked or was asked to
  stop, an object that is scheduled can still reach a worker, provided that reconciles neither
  panic nor run forever.
\<close>
theorem scheduled_reaches_worker:
  assumes "controller_steps C E mapper ws (MaxConcurrentReconciles 0) (controller_start t now) s"
    and "\<not> cs_crashed s" "\<not> wq_shuttingDown (cs_queue s)" "scheduled nn s"
    and "\<And>nn h t. \<exists>r t' ev. Reconcile C nn E h t = Some (r, t', ev) \<and> (\<forall>x. r \<noteq> Panic x)"
  shows "\<exists>s'. controller_steps C E mapper ws (MaxConcurrentReconciles 0) s s' \<and> nn \<in> wq_processing (cs_queue s')"
proof -
  from controller_steps_ok [OF assms(1) start_ok] assms(2,3) have "running (MaxConcurrentReconciles 0) s" by (simp add: running_def)
  from ripen [OF this] obtain s1 where s1: "controller_steps C E mapper ws (MaxConcurrentReconciles 0) s s1" "advances (MaxConcurrentReconciles 0) s s1"
    "cs_waiting s1 = []" "cs_waitingForAdd s1 = []" by blast
  with assms(4) have run: "running (MaxConcurrentReconciles 0) s1" and sched: "scheduled nn s1" by (auto simp: advances_def)
  from run sched show ?thesis
  proof (cases rule: scheduled_where)
    case 2
    then obtain before behind where "wq_queue (cs_queue s1) = before @ nn # behind" by (meson split_list)
    from queued_reaches_worker [OF run _ this assms(5)] obtain s' where
      "controller_steps C E mapper ws (MaxConcurrentReconciles 0) s1 s'" "nn \<in> wq_processing (cs_queue s')"
      by (auto simp: one_worker)
    with s1(1) show ?thesis by (meson rtranclp_trans)
  qed (use s1 in auto)
qed

lemma scheduled_reaches_worker_witness:
  "\<exists>s'. controller_steps no_codecs (\<lambda>_ _. Inl (ErrorString ''down'')) (\<lambda>_ _ _. Inr False) example_watches (MaxConcurrentReconciles 0)
       example_awake s' \<and>
     example_name \<in> wq_processing (cs_queue s')"
proof (rule scheduled_reaches_worker)
  show "controller_steps no_codecs (\<lambda>_ _. Inl (ErrorString ''down'')) (\<lambda>_ _ _. Inr False) example_watches (MaxConcurrentReconciles 0)
      (controller_start example_client 0) example_awake"
    using example_event by (rule r_into_rtranclp)
  show "\<exists>r t' ev. Reconcile no_codecs nn (\<lambda>_ _. Inl (ErrorString ''down'')) h t = Some (r, t', ev) \<and> (\<forall>x. r \<noteq> Panic x)"
    for nn h t
    by (simp add: Reconcile_def initializeReconciliation_def kube_Get_Workspace_def go_defs k8s_IsNotFound_def)
qed (simp_all add: example_awake_def controller_start_def newQueue_def scheduled_def)

end
