(* ===== verification/Read_Only.thy ===== *)
theory Read_Only
  imports Reconciler
begin

text \<open>
  A Hoare logic over computations whose triples say that a computation sends only reads, does not
  panic, and what holds of the client's fields and of its value or error; and the answers of an environment that
  does not change.
\<close>

section \<open>Reads\<close>

fun is_read :: "request \<Rightarrow> bool" where
  "is_read (Organizations q) = True"
| "is_read (Workspaces (Workspace_Read x n)) = True"
| "is_read (Workspaces (Workspace_ReadByID i)) = True"
| "is_read (Variables (Variable_List i n)) = True"
| "is_read (Runs (Run_List i)) = True"
| "is_read (Runs (Run_Read i)) = True"
| "is_read (RunTriggers (RunTrigger_List i x)) = True"
| "is_read (ConfigVersions (ConfigVersion_List i)) = True"
| "is_read (ConfigVersions (ConfigVersion_Read i)) = True"
| "is_read (Notifications (Notification_List i)) = True"
| "is_read (StateVersions q) = True"
| "is_read (Kube (Get_Workspace n)) = True"
| "is_read (Kube (Get_ConfigMap n)) = True"
| "is_read (Kube (Get_Secret n)) = True"
| "is_read (Host (Stat f)) = True"
| "is_read (Host (ReadFile f)) = True"
| "is_read q = False"

section \<open>Triples\<close>

fun fits :: "('a \<Rightarrow> tfclient \<Rightarrow> bool) \<Rightarrow> (go_error \<Rightarrow> tfclient \<Rightarrow> bool) \<Rightarrow> 'a outcome \<Rightarrow> tfclient \<Rightarrow> bool" where
  "fits Q R (Ok a) t = Q a t"
| "fits Q R (Err e) t = R e t"
| "fits Q R (Panic s) t = False"

definition rests ::
  "env \<Rightarrow> (tfclient \<Rightarrow> bool) \<Rightarrow> 'a go \<Rightarrow> ('a \<Rightarrow> tfclient \<Rightarrow> bool) \<Rightarrow> (go_error \<Rightarrow> tfclient \<Rightarrow> bool) \<Rightarrow> bool" where
  "rests E P m Q R \<longleftrightarrow> (\<forall>h t r t' ev. P t \<longrightarrow> m E h t = Some (r, t', ev) \<longrightarrow>
     (\<forall>e \<in> set ev. is_read (fst e)) \<and> fits Q R r t')"

lemma restsI:
  "(\<And>h t r t' ev. P t \<Longrightarrow> m E h t = Some (r, t', ev) \<Longrightarrow> (\<forall>e \<in> set ev. is_read (fst e)) \<and> fits Q R r t') \<Longrightarrow>
   rests E P m Q R"
  unfolding rests_def by blast

lemma restsD:
  "rests E P m Q R \<Longrightarrow> P t \<Longrightarrow> m E h t = Some (r, t', ev) \<Longrightarrow> (\<forall>e \<in> set ev. is_read (fst e)) \<and> fits Q R r t'"
  unfolding rests_def by blast

named_theorems rests_rules \<open>triples of computations\<close>

lemma rests_ret [rests_rules]: "(\<And>t. P t \<Longrightarrow> Q a t) \<Longrightarrow> rests E P (ret a) Q R"
  by (simp add: rests_def)

lemma rests_fail [rests_rules]: "(\<And>t. P t \<Longrightarrow> R e t) \<Longrightarrow> rests E P (fail e) Q R"
  by (simp add: rests_def)

lemma rests_set_client [rests_rules]: "(\<And>t. P t \<Longrightarrow> Q () (f t)) \<Longrightarrow> rests E P (set_client f) Q R"
  by (auto simp: rests_def)

lemma rests_get_client [rests_rules]:
  "(\<And>t. P t \<Longrightarrow> rests E (\<lambda>t'. t' = t) (k t) Q R) \<Longrightarrow> rests E P (andThen get_client k) Q R"
  unfolding rests_def andThen_get_client by blast

lemma rests_andThen:
  assumes "rests E P m Q' R" and "\<And>a. rests E (Q' a) (k a) Q R"
  shows "rests E P (andThen m k) Q R"
proof (rule restsI)
  fix h t r t' ev
  assume "P t" "andThen m k E h t = Some (r, t', ev)"
  from this(2) show "(\<forall>e \<in> set ev. is_read (fst e)) \<and> fits Q R r t'"
  proof (cases rule: andThen_SomeE)
    case (ok a t1 ev1 ev2)
    from restsD [OF assms(1) \<open>P t\<close> ok(1)] have "\<forall>e \<in> set ev1. is_read (fst e)" "Q' a t1" by simp_all
    with restsD [OF assms(2) _ ok(2)] show ?thesis by (auto simp: ok(3))
  qed (use restsD [OF assms(1) \<open>P t\<close>] in fastforce)+
qed

lemma rests_attempt [rests_rules]:
  assumes "rests E P m (\<lambda>a. Q (Inr a)) (\<lambda>e. Q (Inl e))"
  shows "rests E P (attempt m) Q R"
proof (rule restsI)
  fix h t r t' ev
  assume "P t" "attempt m E h t = Some (r, t', ev)"
  then show "(\<forall>e \<in> set ev. is_read (fst e)) \<and> fits Q R r t'"
    using restsD [OF assms \<open>P t\<close>] by (fastforce simp: attempt_Some)
qed

lemma rests_if [rests_rules]:
  "(b \<Longrightarrow> rests E P m Q R) \<Longrightarrow> (\<not> b \<Longrightarrow> rests E P n Q R) \<Longrightarrow> rests E P (if b then m else n) Q R"
  by simp

lemma rests_sum [rests_rules]:
  "(\<And>e. x = Inl e \<Longrightarrow> rests E P (m e) Q R) \<Longrightarrow> (\<And>y. x = Inr y \<Longrightarrow> rests E P (n y) Q R) \<Longrightarrow>
   rests E P (case x of Inl e \<Rightarrow> m e | Inr y \<Rightarrow> n y) Q R"
  by (cases x) auto

lemma rests_require [rests_rules]:
  "(b \<Longrightarrow> rests E P m Q R) \<Longrightarrow> (\<And>t. P t \<Longrightarrow> R e t) \<Longrightarrow> rests E P (require b e m) Q R"
  by (simp add: require_def rests_fail)

lemma rests_pre: "(\<And>t. P t \<Longrightarrow> b) \<Longrightarrow> (b \<Longrightarrow> rests E P m Q R) \<Longrightarrow> rests E P m Q R"
  unfolding rests_def by blast

lemma fits_mono: "fits Q' R' r t \<Longrightarrow> (\<And>a. Q' a t \<Longrightarrow> Q a t) \<Longrightarrow> (\<And>e. R' e t \<Longrightarrow> R e t) \<Longrightarrow> fits Q R r t"
  by (cases r) auto

lemma rests_post:
  assumes "rests E P' m Q' R'" "\<And>t. P t \<Longrightarrow> P' t" "\<And>a t. Q' a t \<Longrightarrow> Q a t" "\<And>e t. R' e t \<Longrightarrow> R e t"
  shows "rests E P m Q R"
proof (rule restsI)
  fix h t r t' ev
  assume "P t" "m E h t = Some (r, t', ev)"
  from restsD [OF assms(1) assms(2) [OF this(1)] this(2)]
  show "(\<forall>e \<in> set ev. is_read (fst e)) \<and> fits Q R r t'" using fits_mono assms(3,4) by blast
qed

text \<open>A request that is a read, whatever is answered.\<close>

lemma rests_call:
  "is_read q \<Longrightarrow> (\<And>a t. P t \<Longrightarrow> Q a t) \<Longrightarrow> (\<And>e t. P t \<Longrightarrow> R e t) \<Longrightarrow> rests E P (call q dec) Q R"
  by (auto simp: rests_def call_Some split: sum.splits option.splits)

lemma rests_perform:
  "is_read q \<Longrightarrow> (\<And>t. P t \<Longrightarrow> Q () t) \<Longrightarrow> (\<And>e t. P t \<Longrightarrow> R e t) \<Longrightarrow> rests E P (perform q) Q R"
  by (simp add: perform_def rests_call)

text \<open>
  An answer the environment sticks to: it may fail at any time, but it never says that the thing does not exist.
\<close>

definition present :: "go_error \<Rightarrow> bool" where
  "present e \<longleftrightarrow> e \<noteq> ErrResourceNotFound \<and> \<not> k8s_IsNotFound e"

definition answers :: "env \<Rightarrow> request \<Rightarrow> response \<Rightarrow> bool" where
  "answers E q x \<longleftrightarrow> (\<forall>h. case E h q of Inl e \<Rightarrow> present e | Inr y \<Rightarrow> y = x)"

lemma rests_answer:
  assumes "answers E q x" "is_read q" "dec x = Some a"
    and "\<And>t. P t \<Longrightarrow> Q a t" "\<And>e t. P t \<Longrightarrow> present e \<Longrightarrow> R e t"
  shows "rests E P (call q dec) Q R"
  unfolding rests_def
proof (intro allI impI)
  fix h t r t' ev
  assume "P t" "call q dec E h t = Some (r, t', ev)"
  moreover from assms(1) have "case E h q of Inl e \<Rightarrow> present e | Inr y \<Rightarrow> y = x" by (simp add: answers_def)
  ultimately show "(\<forall>e \<in> set ev. is_read (fst e)) \<and> fits Q R r t'"
    using assms(2-5) by (auto simp: call_Some split: sum.splits)
qed

text \<open>The client, once it is set up for the organization of an object.\<close>

definition bound :: "Workspace \<Rightarrow> tfclient \<Rightarrow> bool" where
  "bound w t \<longleftrightarrow> tf_Organization t = sp_Organization (Spec w)"

definition resting :: "env \<Rightarrow> Workspace \<Rightarrow> 'a go \<Rightarrow> ('a \<Rightarrow> bool) \<Rightarrow> bool" where
  "resting E w m Q \<longleftrightarrow> rests E (bound w) m (\<lambda>a t. Q a \<and> bound w t) (\<lambda>e t. bound w t)"

text \<open>Sequencing where the values between are known.\<close>

lemma resting_seq:
  assumes "resting E w m Q'" and "\<And>a. Q' a \<Longrightarrow> resting E w (k a) Q"
  shows "resting E w (andThen m k) Q"
  unfolding resting_def
proof (rule rests_andThen [OF assms(1) [unfolded resting_def]])
  show "rests E (\<lambda>t. Q' a \<and> bound w t) (k a) (\<lambda>a t. Q a \<and> bound w t) (\<lambda>e t. bound w t)" for a
    by (rule rests_pre [of _ "Q' a"], simp, rule rests_post [OF assms(2) [unfolded resting_def]]) auto
qed

lemma resting_attempt: "resting E w m Q \<Longrightarrow> resting E w (attempt m) (\<lambda>res. case res of Inl e \<Rightarrow> True | Inr a \<Rightarrow> Q a)"
  unfolding resting_def by (intro rests_attempt) simp

lemma resting_ret [simp, intro]: "Q a \<Longrightarrow> resting E w (ret a) Q"
  by (simp add: resting_def rests_ret)

lemma resting_fail [simp]: "resting E w (fail e) Q"
  by (simp add: resting_def rests_fail)

lemma resting_client:
  "(\<And>t. bound w t \<Longrightarrow> resting E w (k t) Q) \<Longrightarrow> resting E w (andThen get_client k) Q"
  unfolding resting_def rests_def andThen_get_client by blast

text \<open>A request whose answer is there, and what follows an attempt at it.\<close>

lemma resting_answer:
  "answers E q x \<Longrightarrow> is_read q \<Longrightarrow> dec x = Some a \<Longrightarrow> resting E w (call q dec) (\<lambda>b. b = a)"
  unfolding resting_def by (rule rests_answer) simp_all

lemma resting_require: "resting E w m Q \<Longrightarrow> resting E w (require b e m) Q"
  unfolding resting_def by (rule rests_require) simp_all

definition got_present :: "'a \<Rightarrow> go_error + 'a \<Rightarrow> bool" where
  "got_present a res \<longleftrightarrow> (case res of Inl e \<Rightarrow> present e | Inr b \<Rightarrow> b = a)"

lemma resting_attempted_answer:
  "answers E q x \<Longrightarrow> is_read q \<Longrightarrow> dec x = Some a \<Longrightarrow> resting E w (attempt (call q dec)) (got_present a)"
  unfolding resting_def by (intro rests_attempt rests_answer) (simp_all add: got_present_def)

end
