(* ===== verification/Steady_State.thy ===== *)
theory Steady_State
  imports Read_Only Variables_Converge Controller_Timing
begin

text \<open>
  The operator at rest: an object whose remote workspace is as its spec says is read again and again, but
  nothing is written for it; and while all objects are like this, the operator as a whole writes nothing.
\<close>

section \<open>Workspaces\<close>

text \<open>
  A remote workspace of which nothing differs from the spec. The spec has no SSH key: one that it names is assigned at
  every reconcile, whatever the workspace has.
\<close>

definition workspace_settled :: "Workspace \<Rightarrow> tfc_Workspace \<Rightarrow> bool" where
  "workspace_settled w ws \<longleftrightarrow> tw_ID ws = st_WorkspaceID (Status w) \<and>
     sp_SSHKeyID (Spec w) = '''' \<and> tw_SSHKey ws = None \<and>
     sp_TerraformVersion (Spec w) = tw_TerraformVersion ws \<and> sp_AgentPoolID (Spec w) = tw_AgentPoolID ws \<and>
     (\<forall>run. tw_CurrentRun ws = Some run \<longrightarrow> st_RunID (Status w) \<in> {'''', run_ID run})"

lemma resting_read:
  assumes "answers E (Workspaces (Workspace_Read (sp_Organization (Spec w)) n)) (R_Workspace ws)" "bound w t"
  shows "resting E w (Workspaces_Read (tf_Organization t) n) (\<lambda>b. b = ws)"
  unfolding Workspaces_Read_def assms(2) [unfolded bound_def]
  by (intro resting_require resting_answer [OF assms(1)]) simp_all

lemma resting_attempted_read:
  assumes "answers E (Workspaces (Workspace_Read (sp_Organization (Spec w)) n)) (R_Workspace ws)" "bound w t"
  shows "resting E w (attempt (Workspaces_Read (tf_Organization t) n))
    (\<lambda>res. case res of Inl e \<Rightarrow> e \<noteq> ErrResourceNotFound | Inr x \<Rightarrow> x = ws)"
  unfolding Workspaces_Read_def resting_def assms(2) [unfolded bound_def]
  by (intro rests_attempt rests_require rests_answer [OF assms(1)]) (simp_all add: present_def)

lemma resting_CheckWorkspace:
  assumes "answers E (Workspaces (Workspace_Read (sp_Organization (Spec w)) n)) (R_Workspace ws)"
    and "workspace_settled w ws"
  shows "resting E w (CheckWorkspace n w) (\<lambda>b. b = ws)"
  unfolding CheckWorkspace_def
  by (intro resting_client resting_seq [OF resting_attempted_read [OF assms(1)]])
    (use assms(2) in \<open>auto simp: workspace_settled_def sync_ssh_key_def sync_version_def sync_agent_pool_def
      split: sum.splits\<close>)

lemma resting_reconcileWorkspace:
  assumes "answers E (Workspaces (Workspace_Read (sp_Organization (Spec w)) (workspace_name w))) (R_Workspace ws)"
    and "workspace_settled w ws" "contains (om_Finalizers (Meta w)) workspaceFinalizer"
  shows "resting E w (reconcileWorkspace w) (\<lambda>b. b = w)"
  unfolding reconcileWorkspace_def using assms(2,3)
  by (intro resting_seq [OF resting_CheckWorkspace [OF assms(1,2)]])
    (auto simp: workspace_settled_def recordWorkspaceID_def adoptRun_def split: option.split)

section \<open>Notifications, variables and run triggers\<close>

definition notifications_settled :: "Notification list \<Rightarrow> NotificationConfiguration list \<Rightarrow> bool" where
  "notifications_settled spec ns \<longleftrightarrow> (\<forall>n \<in> set ns. \<exists>s \<in> set spec. compareNotifications n s) \<and>
     n_Name ` set spec \<subseteq> nc_Name ` set ns"

lemma resting_CheckNotifications:
  assumes "answers E (Notifications (Notification_List (st_WorkspaceID (Status w)))) (R_Notifications ns)"
    and "notifications_settled (sp_Notifications (Spec w)) ns"
  shows "resting E w (CheckNotifications w) (\<lambda>_. True)"
proof -
  from assms(2) have plans: "toRemove (sp_Notifications (Spec w)) ns = []" "toAdd (sp_Notifications (Spec w)) ns = []"
    unfolding notifications_settled_def plans_eq filter_empty_conv by blast+
  have list: "resting E w (NotificationConfigurations_List (st_WorkspaceID (Status w))) (\<lambda>b. b = ns)"
    unfolding NotificationConfigurations_List_def using assms(1) by (auto intro!: resting_require resting_answer)
  show ?thesis unfolding CheckNotifications_def Let_def
    by (rule resting_seq [OF list]) (use plans in \<open>auto intro!: resting_seq [OF list]\<close>)
qed

text \<open>Where the value of a variable of the spec comes from.\<close>

definition resolves_to :: "env \<Rightarrow> string \<Rightarrow> Variable \<Rightarrow> Variable \<Rightarrow> bool" where
  "resolves_to E ns v v' \<longleftrightarrow>
     (if v_Sensitive v then
        (case v_ValueFrom v of
           None \<Rightarrow> v' = v
         | Some src \<Rightarrow> \<exists>sel sec b. SecretKeyRef src = Some sel \<and>
             answers E (Kube (Get_Secret \<lparr>nn_Namespace = ns, nn_Name = sel_Name sel\<rparr>)) (R_Secret sec) \<and>
             lookup_map (sec_Data sec) (sel_Key sel) = Some b \<and> v' = v\<lparr>v_Value := elems b\<rparr>)
      else if v_Value v \<noteq> '''' then v' = v
      else \<exists>src sel cm s. v_ValueFrom v = Some src \<and> ConfigMapKeyRef src = Some sel \<and>
             answers E (Kube (Get_ConfigMap \<lparr>nn_Namespace = ns, nn_Name = sel_Name sel\<rparr>)) (R_ConfigMap cm) \<and>
             lookup_map (cm_Data cm) (sel_Key sel) = Some s \<and> v' = v\<lparr>v_Value := s\<rparr>)"

lemma resting_resolveVariable:
  assumes "resolves_to E ns v v'"
  shows "resting E w (resolveVariable ns v) (\<lambda>b. b = v')"
proof (cases "v_Sensitive v")
  case True
  show ?thesis
  proof (cases "v_ValueFrom v")
    case None
    with True assms show ?thesis
      by (simp add: resolves_to_def resolveVariable_def GetConfigMapForVariable_def GetSecretForVariable_def resting_ret)
  next
    case (Some src)
    with True assms obtain sel sec b where sec: "SecretKeyRef src = Some sel"
      "answers E (Kube (Get_Secret \<lparr>nn_Namespace = ns, nn_Name = sel_Name sel\<rparr>)) (R_Secret sec)"
      "lookup_map (sec_Data sec) (sel_Key sel) = Some b" "v' = v\<lparr>v_Value := elems b\<rparr>"
      by (auto simp: resolves_to_def)
    with True Some show ?thesis
      by (auto simp: resolveVariable_def GetConfigMapForVariable_def GetSecretForVariable_def GetSecretData_def
          kube_Get_Secret_def intro!: resting_seq [OF resting_answer [OF sec(2)]] resting_ret)
  qed
next
  case False
  show ?thesis
  proof (cases "v_Value v = ''''")
    case True
    with False assms obtain src sel cm s where cm: "v_ValueFrom v = Some src" "ConfigMapKeyRef src = Some sel"
      "answers E (Kube (Get_ConfigMap \<lparr>nn_Namespace = ns, nn_Name = sel_Name sel\<rparr>)) (R_ConfigMap cm)"
      "lookup_map (cm_Data cm) (sel_Key sel) = Some s" "v' = v\<lparr>v_Value := s\<rparr>"
      by (auto simp: resolves_to_def)
    with True False show ?thesis
      by (auto simp: resolveVariable_def GetConfigMapForVariable_def GetSecretForVariable_def
          kube_Get_ConfigMap_def intro!: resting_seq [OF resting_answer [OF cm(3)]] resting_ret)
  next
    case False
    with \<open>\<not> v_Sensitive v\<close> assms show ?thesis
      by (auto simp: resolves_to_def resolveVariable_def GetConfigMapForVariable_def GetSecretForVariable_def
          intro!: resting_ret split: option.split)
  qed
qed

lemma resting_rewrite_each:
  "list_all2 (resolves_to E ns) vs vs' \<Longrightarrow> resting E w (rewrite_each (resolveVariable ns) vs) (\<lambda>b. b = vs')"
  by (induction rule: list_all2_induct)
    (auto intro!: resting_ret resting_seq [OF resting_resolveVariable] elim!: resting_seq)

lemma settled_no_updates:
  "settled_variables spec' rs \<Longrightarrow> set spec \<subseteq> set spec' \<Longrightarrow> getNonSensitiveVariablesToUpdate spec rs = []"
proof (induction spec)
  case (Cons v spec)
  let ?i = "find rs (tv_Key v)"
  have "tv_Sensitive (rs ! nat ?i) \<or> \<not> checkIfVariableChanged v (rs ! nat ?i)" if "\<not> ?i < 0"
    using Cons.prems that vs.search_bounds vs.search_key by (auto simp: settled_variables_def)
  with Cons show ?case by (auto simp: Let_def)
qed simp

lemma resting_CheckVariables:
  assumes "answers E (Workspaces (Workspace_Read (sp_Organization (Spec w)) n)) (R_Workspace ws)"
    and "answers E (Variables (Variable_List (tw_ID ws) PageSize)) (R_Variables rs)"
    and "settled_variables spec rs"
  shows "resting E w (CheckVariables n spec) (\<lambda>b. \<not> b)"
proof -
  have list: "resting E w (listVariables (tw_ID ws)) (\<lambda>b. b = rs)"
    unfolding listVariables_def Variables_List_def by (intro resting_require resting_answer [OF assms(2)]) simp_all
  from assms(3) have keys: "tv_Key ` set rs = tv_Key ` set spec" by (simp add: settled_variables_def)
  have "filter (\<lambda>v. tv_Key v \<notin> tv_Key ` set spec) rs = []" "filter (\<lambda>v. tv_Key v \<notin> tv_Key ` set rs) spec = []"
    unfolding filter_empty_conv using keys by blast+
  then have "each (\<lambda>v. if find spec (tv_Key v) < 0 then DeleteVariable v else ret ()) rs = ret ()"
    "each (\<lambda>v. if find rs (tv_Key v) < 0 then CreateTerraformVariable ws v else ret ()) spec = ret ()"
    by (simp_all add: each_filter vs.search_neg)
  moreover from settled_no_updates [OF assms(3) order_refl]
  have "generateUpdateVariableList spec rs path = ret []" for path by (simp add: generateUpdateVariableList_def)
  ultimately show ?thesis
    unfolding CheckVariables_def deleteVariablesFromTFC_def createVariablesOnTFC_def
    by (intro resting_client resting_seq [OF resting_read [OF assms(1)]]) (auto intro!: resting_seq [OF list])
qed

lemma resting_updateVariables:
  assumes "answers E (Workspaces (Workspace_Read (sp_Organization (Spec w)) (workspace_name w))) (R_Workspace ws)"
    and "answers E (Variables (Variable_List (tw_ID ws) PageSize)) (R_Variables rs)"
    and "list_all2 (resolves_to E (ws_Namespace w)) (sp_Variables (Spec w)) vs"
    and "settled_variables (MapToTFCVariable vs) rs"
  shows "resting E w (updateVariables w) (\<lambda>b. b = (False, set_variables vs w))"
  unfolding updateVariables_def
  by (intro resting_seq [OF resting_rewrite_each [OF assms(3)]])
    (auto intro!: resting_seq [OF resting_CheckVariables [OF assms(1,2,4)]])

lemma resting_CheckRunTriggers:
  assumes "answers E (Workspaces (Workspace_Read (sp_Organization (Spec w)) n)) (R_Workspace ws)"
    and "answers E (RunTriggers (RunTrigger_List (tw_ID ws) ''inbound'')) (R_RunTriggers ts)"
    and "trt_SourceableName ` set ts = rt_SourceableName ` set spec"
  shows "resting E w (CheckRunTriggers n spec) (\<lambda>b. \<not> b)"
proof -
  have list: "resting E w (listRunTriggers (tw_ID ws)) (\<lambda>b. b = ts)"
    unfolding listRunTriggers_def RunTriggers_List_def valid_RunTriggerListOptions_def
    by (simp add: validString_def) (intro resting_require resting_answer [OF assms(2)]; simp)
  let ?spec = "MapToTFCRunTrigger n spec"
  from assms(3) have names: "trt_SourceableName ` set ?spec = trt_SourceableName ` set ts"
    by (simp add: MapToTFCRunTrigger_def image_image)
  have "filter (\<lambda>rt. trt_SourceableName rt \<notin> trt_SourceableName ` set ?spec) ts = []"
    "filter (\<lambda>rt. trt_SourceableName rt \<notin> trt_SourceableName ` set ts) ?spec = []"
    "\<not> (\<exists>rt \<in> set ?spec. trt_SourceableName rt \<notin> trt_SourceableName ` set ts)"
    unfolding filter_empty_conv using names by blast+
  then have "deleteRunTriggersFromTFC ?spec ts = ret ()" "createRunTriggersOnTFC ws ?spec ts = ret False"
    by (simp_all add: deleteRunTriggersFromTFC_def createRunTriggersOnTFC_def each_filter rts.search_neg list_ex_iff)
  then show ?thesis unfolding CheckRunTriggers_def Let_def
    by (intro resting_client resting_seq [OF resting_read [OF assms(1)]]) (auto intro!: resting_seq [OF list])
qed

section \<open>Outputs and the template\<close>

text \<open>The current state gives the outputs that the status has.\<close>

definition outputs_settled :: "codecs \<Rightarrow> env \<Rightarrow> Workspace \<Rightarrow> OutputStatus list \<Rightarrow> bool" where
  "outputs_settled C E w outs \<longleftrightarrow> (\<exists>url data kvs os.
     answers E (StateVersions (StateVersion_Current (st_WorkspaceID (Status w)))) (R_StateVersion url) \<and>
     answers E (StateVersions (StateVersion_Download url)) (R_Bytes data) \<and>
     statefile_Read C data = Inr (Some kvs) \<and> all_some (map (output_status C) kvs) = Some os \<and>
     outs = sort_key out_Key (concat os) \<and> st_Outputs (Status w) = Some outs)"

lemma resting_CheckOutputs:
  assumes "outputs_settled C E w outs" "st_RunID (Status w) \<noteq> ''''"
  shows "resting E w (CheckOutputs C (st_WorkspaceID (Status w)) (st_RunID (Status w))) (\<lambda>b. b = outs)"
proof -
  from assms(1) obtain url data kvs os where cur:
    "answers E (StateVersions (StateVersion_Current (st_WorkspaceID (Status w)))) (R_StateVersion url)"
    and load: "answers E (StateVersions (StateVersion_Download url)) (R_Bytes data)"
    and outs: "statefile_Read C data = Inr (Some kvs)" "all_some (map (output_status C) kvs) = Some os"
      "outs = sort_key out_Key (concat os)"
    unfolding outputs_settled_def by blast
  have "resting E w (StateVersions_Current (st_WorkspaceID (Status w))) (\<lambda>b. b = url)"
    unfolding StateVersions_Current_def by (intro resting_require resting_answer [OF cur]) simp_all
  then have url: "resting E w (GetStateVersionDownloadURL (st_WorkspaceID (Status w))) (\<lambda>b. b = url)"
    unfolding GetStateVersionDownloadURL_def
    by (auto intro!: resting_seq [OF resting_attempt] split: sum.splits)
  have "resting E w (StateVersions_Download url) (\<lambda>b. b = data)"
    unfolding StateVersions_Download_def by (intro resting_answer [OF load]) simp_all
  then have "resting E w (GetOutputsFromState C url) (\<lambda>b. b = concat os)"
    unfolding GetOutputsFromState_def
    by (auto simp: outs or_diverge_def intro!: resting_seq [OF resting_attempt] split: sum.splits)
  then show ?thesis unfolding CheckOutputs_def
    using assms(2) outs(3) by (auto intro!: resting_seq [OF url] elim!: resting_seq)
qed

lemma resting_UpsertSecretOutputs:
  assumes "answers E (Kube (Get_Secret \<lparr>nn_Namespace = ws_Namespace w, nn_Name = ws_Name w @ ''-outputs''\<rparr>)) (R_Secret sec)"
    and "deep_equal_map (sec_Data sec) (outputsToMap outs)"
  shows "resting E w (UpsertSecretOutputs w outs) (\<lambda>_. True)"
proof -
  have "resting E w (attempt (kube_Get_Secret \<lparr>nn_Namespace = ws_Namespace w, nn_Name = ws_Name w @ ''-outputs''\<rparr>)) (got_present sec)"
    unfolding kube_Get_Secret_def by (intro resting_attempted_answer [OF assms(1)]) simp_all
  then show ?thesis unfolding UpsertSecretOutputs_def Let_def
    using assms(2) by (auto simp: got_present_def present_def elim!: resting_seq split: sum.splits)
qed

lemma resting_processFinishedRun:
  assumes "\<not> isError (st_RunStatus (Status w))" "st_RunID (Status w) \<noteq> ''''" "outputs_settled C E w outs"
    and "answers E (Kube (Get_Secret \<lparr>nn_Namespace = ws_Namespace w, nn_Name = ws_Name w @ ''-outputs''\<rparr>)) (R_Secret sec)"
    and "deep_equal_map (sec_Data sec) (outputsToMap outs)"
  shows "resting E w (processFinishedRun C w) (\<lambda>b. b = w)"
proof -
  from assms(3) have "st_Outputs (Status w) = Some outs" by (auto simp: outputs_settled_def)
  with assms(1) show ?thesis unfolding processFinishedRun_def
    by (auto intro!: resting_seq [OF resting_CheckOutputs [OF assms(3,2)]] resting_seq [OF resting_UpsertSecretOutputs [OF assms(4,5)]])
qed

text \<open>The ConfigMap holds the configuration that the object renders to.\<close>

definition template_settled :: "env \<Rightarrow> Workspace \<Rightarrow> bool" where
  "template_settled E w \<longleftrightarrow> sp_VCS (Spec w) = None \<longrightarrow> (\<exists>terraform cm.
     CreateTerraformTemplate w = Inr terraform \<and>
     answers E (Kube (Get_ConfigMap \<lparr>nn_Namespace = ws_Namespace w, nn_Name = ws_Name w\<rparr>)) (R_ConfigMap cm) \<and>
     lookup_map (cm_Data cm) TerraformConfigMap = Some terraform)"

lemma resting_updateTerraformTemplate:
  assumes "template_settled E w"
  shows "resting E w (updateTerraformTemplate w) (\<lambda>b. \<not> b)"
proof (cases "sp_VCS (Spec w)")
  case None
  with assms obtain terraform cm where tf: "CreateTerraformTemplate w = Inr terraform"
    "answers E (Kube (Get_ConfigMap \<lparr>nn_Namespace = ws_Namespace w, nn_Name = ws_Name w\<rparr>)) (R_ConfigMap cm)"
    "lookup_map (cm_Data cm) TerraformConfigMap = Some terraform" by (auto simp: template_settled_def)
  have "resting E w (attempt (kube_Get_ConfigMap \<lparr>nn_Namespace = ws_Namespace w, nn_Name = ws_Name w\<rparr>)) (got_present cm)"
    unfolding kube_Get_ConfigMap_def by (intro resting_attempted_answer [OF tf(2)]) simp_all
  with None tf(1,3) show ?thesis unfolding updateTerraformTemplate_def UpsertTerraformConfig_def
    by (auto simp: got_present_def present_def elim!: resting_seq split: sum.splits)
qed (auto simp: updateTerraformTemplate_def)

section \<open>An object at rest\<close>

text \<open>
  What is there besides the object: its workspace with notifications, variables and run triggers,
  the Secret, and what the values of its variables and its outputs are.
\<close>

record remote_state =
  re_Workspace :: tfc_Workspace
  re_Notifications :: "NotificationConfiguration list"
  re_Variables :: "tfc_Variable list"
  re_RunTriggers :: "tfc_RunTrigger list"
  re_Secret :: Secret
  re_values :: "Variable list"
  re_outputs :: "OutputStatus list"

text \<open>The object is live, carries the finalizer, and its last run ended well; no configuration is waiting.\<close>

definition object_settled :: "Workspace \<Rightarrow> bool" where
  "object_settled w \<longleftrightarrow> om_DeletionTimestamp (Meta w) = None \<and>
     contains (om_Finalizers (Meta w)) workspaceFinalizer \<and> (sp_VCS (Spec w) \<noteq> None \<or> sp_Module (Spec w) \<noteq> None) \<and>
     st_RunID (Status w) \<noteq> '''' \<and> st_ConfigVersionID (Status w) = '''' \<and>
     \<not> isPending (st_RunStatus (Status w)) \<and> \<not> isError (st_RunStatus (Status w))"

text \<open>The environment has all of it, and nothing differs from the spec.\<close>

definition at_rest :: "codecs \<Rightarrow> env \<Rightarrow> NamespacedName \<Rightarrow> Workspace \<Rightarrow> remote_state \<Rightarrow> bool" where
  "at_rest C E nn w s \<longleftrightarrow>
     object_settled w \<and> answers E (Kube (Get_Workspace nn)) (R_Resource w) \<and>
     answers E (Workspaces (Workspace_Read (sp_Organization (Spec w)) (workspace_name w))) (R_Workspace (re_Workspace s)) \<and>
     workspace_settled w (re_Workspace s) \<and>
     answers E (Notifications (Notification_List (st_WorkspaceID (Status w)))) (R_Notifications (re_Notifications s)) \<and>
     notifications_settled (sp_Notifications (Spec w)) (re_Notifications s) \<and>
     outputs_settled C E w (re_outputs s) \<and>
     answers E (Kube (Get_Secret \<lparr>nn_Namespace = ws_Namespace w, nn_Name = ws_Name w @ ''-outputs''\<rparr>))
       (R_Secret (re_Secret s)) \<and>
     deep_equal_map (sec_Data (re_Secret s)) (outputsToMap (re_outputs s)) \<and>
     template_settled E w \<and>
     list_all2 (resolves_to E (ws_Namespace w)) (sp_Variables (Spec w)) (re_values s) \<and>
     answers E (Variables (Variable_List (tw_ID (re_Workspace s)) PageSize)) (R_Variables (re_Variables s)) \<and>
     settled_variables (MapToTFCVariable (re_values s)) (re_Variables s) \<and>
     answers E (RunTriggers (RunTrigger_List (tw_ID (re_Workspace s)) ''inbound'')) (R_RunTriggers (re_RunTriggers s)) \<and>
     trt_SourceableName ` set (re_RunTriggers s) = rt_SourceableName ` set (sp_RunTriggers (Spec w))"

lemma rests_initialize:
  assumes "answers E (Kube (Get_Workspace nn)) (R_Resource w)" "sp_VCS (Spec w) \<noteq> None \<or> sp_Module (Spec w) \<noteq> None"
  shows "rests E (\<lambda>_. True) (initializeReconciliation nn) (\<lambda>found t. found = Some w \<and> bound w t) (\<lambda>_ _. True)"
proof -
  let ?Q = "\<lambda>found t. found = Some w \<and> bound w t"
  have get: "rests E (\<lambda>_. True) (attempt (kube_Get_Workspace nn)) (\<lambda>res t. got_present w res) (\<lambda>_ _. True)"
    unfolding kube_Get_Workspace_def
    by (intro rests_attempt rests_answer [OF assms(1)]) (simp_all add: got_present_def)
  have stat: "rests E (bound w) CheckSecretsMountPath (\<lambda>_. bound w) (\<lambda>_ _. True)"
    unfolding CheckSecretsMountPath_def
    by (rule rests_get_client, rule rests_andThen [where Q' = "\<lambda>_. bound w"], rule rests_attempt, rule rests_call)
      (auto intro!: rests_sum rests_if rests_ret rests_fail)
  have org: "rests E (bound w) CheckOrganization (\<lambda>_. bound w) (\<lambda>_ _. True)"
    unfolding CheckOrganization_def Organizations_Read_def
    by (rule rests_get_client, rule rests_require, rule rests_perform) simp_all
  have set1: "rests E P (set_client (\<lambda>t. t\<lparr>tf_Organization := sp_Organization (Spec w)\<rparr>)) (\<lambda>_. bound w) (\<lambda>_ _. True)" for P
    by (rule rests_set_client) (simp add: bound_def)
  have set2: "rests E (bound w) (set_client (\<lambda>t. t\<lparr>tf_SecretsMountPath := p\<rparr>)) (\<lambda>_. bound w) (\<lambda>_ _. True)" for p
    by (rule rests_set_client) (simp add: bound_def)
  have rest: "rests E (\<lambda>t. True) (andThen (set_client (\<lambda>t. t\<lparr>tf_Organization := sp_Organization (Spec w)\<rparr>)) (\<lambda>_.
         andThen CheckOrganization (\<lambda>_.
         andThen (set_client (\<lambda>t. t\<lparr>tf_SecretsMountPath := sp_SecretsMountPath (Spec w)\<rparr>)) (\<lambda>_.
         andThen CheckSecretsMountPath (\<lambda>_. ret (Some w)))))) ?Q (\<lambda>_ _. True)"
    by (intro rests_andThen [OF set1] rests_andThen [OF org] rests_andThen [OF set2] rests_andThen [OF stat] rests_ret) simp
  show ?thesis unfolding initializeReconciliation_def
  proof (rule rests_andThen [OF get])
    fix res :: "go_error + Workspace"
    show "rests E (\<lambda>t. got_present w res) (case res of
       Inl err \<Rightarrow> if k8s_IsNotFound err then ret None else fail err
     | Inr w \<Rightarrow>
         andThen (if sp_VCS (Spec w) = None \<and> sp_Module (Spec w) = None
                  then record_event w ''Warning'' ''WorkspaceEvent''
                    (''Either VCS or Module need to be specified in spec for workspace '' @ ws_Name w)
                  else ret ()) (\<lambda>_.
         andThen (set_client (\<lambda>t. t\<lparr>tf_Organization := sp_Organization (Spec w)\<rparr>)) (\<lambda>_.
         andThen CheckOrganization (\<lambda>_.
         andThen (set_client (\<lambda>t. t\<lparr>tf_SecretsMountPath := sp_SecretsMountPath (Spec w)\<rparr>)) (\<lambda>_.
         andThen CheckSecretsMountPath (\<lambda>_.
         ret (Some w))))))) ?Q (\<lambda>_ _. True)" (is "rests E _ ?m _ _")
    proof (rule rests_pre [of _ "got_present w res"])
      assume "got_present w res"
      then show "rests E (\<lambda>t. got_present w res) ?m ?Q (\<lambda>_ _. True)"
        using assms(2) rest by (cases res) (auto simp: got_present_def present_def rests_fail)
    qed simp
  qed
qed

lemma resting_reconcileFinished:
  assumes "at_rest C E nn w s"
  shows "resting E w (reconcileFinished C w) (\<lambda>res. res = no_requeue\<lparr>RequeueAfter := requeueInterval\<rparr>)"
proof -
  from assms have obj: "object_settled w" and rest: "outputs_settled C E w (re_outputs s)" "template_settled E w"
    by (simp_all add: at_rest_def)
  have vars: "Status (set_variables (re_values s) w) = Status w"
    "updateRunTriggers (set_variables (re_values s) w) = updateRunTriggers w"
    by (simp_all add: set_variables_def updateRunTriggers_def workspace_name_def)
  have finished: "resting E w (processFinishedRun C w) (\<lambda>b. b = w)"
    by (rule resting_processFinishedRun) (use assms in \<open>auto simp: at_rest_def object_settled_def\<close>)
  have variables: "resting E w (updateVariables w) (\<lambda>b. b = (False, set_variables (re_values s) w))"
    by (rule resting_updateVariables) (use assms in \<open>auto simp: at_rest_def\<close>)
  have triggers: "resting E w (updateRunTriggers w) (\<lambda>b. \<not> b)"
    unfolding updateRunTriggers_def by (rule resting_CheckRunTriggers) (use assms in \<open>auto simp: at_rest_def\<close>)
  show ?thesis unfolding reconcileFinished_def
    using obj by (auto simp: vars object_settled_def intro!: resting_seq [OF finished]
        resting_seq [OF resting_updateTerraformTemplate [OF rest(2)]] resting_seq [OF variables] resting_seq [OF triggers])
qed

lemma rests_Reconcile:
  assumes "at_rest C E nn w s"
  shows "rests E (\<lambda>_. True) (Reconcile C nn)
    (\<lambda>res _. res = no_requeue\<lparr>RequeueAfter := requeueInterval\<rparr>) (\<lambda>_ _. True)"
proof -
  from assms have obj: "object_settled w" by (simp add: at_rest_def)
  have ws: "resting E w (reconcileWorkspace w) (\<lambda>b. b = w)"
    by (rule resting_reconcileWorkspace) (use assms in \<open>auto simp: at_rest_def object_settled_def\<close>)
  have notif: "resting E w (reconcileNotifications w) (\<lambda>_. True)"
    unfolding reconcileNotifications_def
    by (rule resting_CheckNotifications) (use assms in \<open>auto simp: at_rest_def\<close>)
  have run: "runInProgress w = ret (False, w)" "condDeleteWorkspace w = ret False"
    using obj by (simp_all add: object_settled_def runInProgress_def condDeleteWorkspace_def)
  have live: "resting E w (andThen (reconcileWorkspace w) (\<lambda>w.
           andThen (reconcileNotifications w) (\<lambda>_.
           andThen (runInProgress w) (\<lambda>(shouldRequeue, w).
           if shouldRequeue then ret (no_requeue\<lparr>Requeue := True\<rparr>)
           else reconcileFinished C w))))
         (\<lambda>res. res = no_requeue\<lparr>RequeueAfter := requeueInterval\<rparr>)"
    using resting_reconcileFinished [OF assms] by (auto simp: run intro!: resting_seq [OF ws] resting_seq [OF notif])
  show ?thesis unfolding Reconcile_def
  proof (rule rests_andThen [OF rests_initialize])
    show "answers E (Kube (Get_Workspace nn)) (R_Resource w)" using assms by (simp add: at_rest_def)
    show "sp_VCS (Spec w) \<noteq> None \<or> sp_Module (Spec w) \<noteq> None" using obj by (simp add: object_settled_def)
    fix found :: "Workspace option"
    show "rests E (\<lambda>t. found = Some w \<and> bound w t) (case found of
       None \<Rightarrow> ret no_requeue
     | Some w \<Rightarrow>
         andThen (condDeleteWorkspace w) (\<lambda>deleted.
         if deleted then ret no_requeue
         else
           andThen (reconcileWorkspace w) (\<lambda>w.
           andThen (reconcileNotifications w) (\<lambda>_.
           andThen (runInProgress w) (\<lambda>(shouldRequeue, w).
           if shouldRequeue then ret (no_requeue\<lparr>Requeue := True\<rparr>)
           else reconcileFinished C w)))))
      (\<lambda>res _. res = no_requeue\<lparr>RequeueAfter := requeueInterval\<rparr>) (\<lambda>_ _. True)"
      by (rule rests_pre [of _ "found = Some w"])
        (auto simp: run(2) intro!: rests_post [OF live [unfolded resting_def]])
  qed
qed

text \<open>
  C16. Nothing is written for an object at rest: its run is finished without an error, its spec names no SSH key (a key it
  names would be assigned again at every reconcile), and the remote workspace, notifications, variables, run triggers,
  outputs and configuration that the services answer with differ in nothing from spec and status. Then every
  reconcile sends only reads, whichever of them fail, as long as no answer says that something does not exist, and if it
  succeeds it asks to be repeated after the interval.
\<close>
theorem Reconcile_at_rest:
  assumes "at_rest C E nn w s" and "Reconcile C nn E h t = Some (r, t', ev)"
  shows "(\<forall>e \<in> set ev. is_read (fst e)) \<and> (\<forall>x. r \<noteq> Panic x) \<and>
    (\<forall>res. r = Ok res \<longrightarrow> res = no_requeue\<lparr>RequeueAfter := requeueInterval\<rparr>)"
  using restsD [OF rests_Reconcile [OF assms(1)] TrueI assms(2)] by (cases r) auto

section \<open>The operator at rest\<close>

text \<open>An object that cannot be read is left alone.\<close>

lemma rests_unreadable:
  assumes "\<And>h. \<exists>e. E h (Kube (Get_Workspace nn)) = Inl e"
  shows "rests E (\<lambda>_. True) (Reconcile C nn) (\<lambda>_ _. True) (\<lambda>_ _. True)"
proof (rule restsI)
  fix h t r t' ev
  assume run: "Reconcile C nn E h t = Some (r, t', ev)"
  from assms obtain e where "E h (Kube (Get_Workspace nn)) = Inl e" by blast
  with run show "(\<forall>e \<in> set ev. is_read (fst e)) \<and> fits (\<lambda>_ _. True) (\<lambda>_ _. True) r t'"
    by (cases r) (auto simp: Reconcile_def initializeReconciliation_def kube_Get_Workspace_def go_defs Let_def split: if_splits)
qed

text \<open>
  C17. While every object that can be read is at rest (in the sense of C16, so without an SSH key in its spec), the
  operator as a whole writes nothing: whatever events, delays, retries and orders of objects the controller goes through,
  all requests of its reconciles are reads, and it does not crash.
\<close>
theorem operator_at_rest:
  assumes "\<And>nn. (\<exists>w s. at_rest C E nn w s) \<or> (\<forall>h. \<exists>e. E h (Kube (Get_Workspace nn)) = Inl e)"
    and "controller_steps C E mapper ws (MaxConcurrentReconciles 0) (controller_start t now) s"
  shows "(\<forall>e \<in> set (cs_history s). is_read (fst e)) \<and> \<not> cs_crashed s"
proof (rule controller_history [OF assms(2)])
  fix nn h t r t' ev
  assume run: "Reconcile C nn E h t = Some (r, t', ev)" and "(\<forall>e \<in> set h. is_read (fst e)) \<and> \<not> False"
  moreover from assms(1) [of nn] have "(\<forall>e \<in> set ev. is_read (fst e)) \<and> (\<forall>x. r \<noteq> Panic x)"
  proof (elim disjE exE)
    fix w s assume "at_rest C E nn w s"
    from restsD [OF rests_Reconcile [OF this] TrueI run] show ?thesis by (cases r) auto
  next
    assume "\<forall>h. \<exists>e. E h (Kube (Get_Workspace nn)) = Inl e"
    then have "rests E (\<lambda>_. True) (Reconcile C nn) (\<lambda>_ _. True) (\<lambda>_ _. True)" by (intro rests_unreadable) blast
    from restsD [OF this TrueI run] show ?thesis by (cases r) auto
  qed
  ultimately show "(\<forall>e \<in> set (h @ ev). is_read (fst e)) \<and> \<not> (\<exists>x. r = Panic x)" by auto
qed simp

section \<open>Examples\<close>

text \<open>The workspace from a repository, with a finished run and no outputs.\<close>

definition example_calm :: Workspace where
  "example_calm = example_vcs ''run-1'' ''applied''"

definition example_rest :: env where
  "example_rest h q = (case q of
     StateVersions (StateVersion_Current i) \<Rightarrow> Inr (R_StateVersion ''https://state'')
   | StateVersions (StateVersion_Download u) \<Rightarrow> Inr (R_Bytes '''')
   | Kube (Get_Workspace nn) \<Rightarrow> if nn = example_name then Inr (R_Resource example_calm) else Inl (StatusError ''NotFound'' '''')
   | _ \<Rightarrow> example_world example_calm h q)"

definition example_remote_state :: remote_state where
  "example_remote_state = \<lparr>re_Workspace = example_remote, re_Notifications = [], re_Variables = [], re_RunTriggers = [],
     re_Secret = \<lparr>sec_Meta = new_meta ''hello-outputs'' ''prod'', sec_Data = Some []\<rparr>, re_values = [], re_outputs = []\<rparr>"

lemma example_at_rest: "at_rest no_codecs example_rest example_name example_calm example_remote_state"
proof -
  have "object_settled example_calm"
    by (simp add: object_settled_def example_calm_def isPending_iff isError_def)
  moreover have "workspace_settled example_calm example_remote"
    by (simp add: workspace_settled_def example_calm_def example_vcs_spec example_workspace_def example_remote_def new_tfc_Workspace_def)
  moreover have "outputs_settled no_codecs example_rest example_calm []"
    unfolding outputs_settled_def
    by (rule exI [of _ "''https://state''"], rule exI [of _ "''''"], rule exI [of _ "[]"], rule exI [of _ "[]"])
      (simp add: answers_def example_rest_def no_codecs_def example_calm_def)
  ultimately show ?thesis
    by (simp add: at_rest_def example_remote_state_def answers_def example_rest_def example_calm_def
        notifications_settled_def settled_variables_def template_settled_def outputsToMap_def MapToTFCVariable_def)
qed

definition runs_to :: "env \<Rightarrow> tfclient \<Rightarrow> 'a go \<Rightarrow> 'a \<Rightarrow> tfclient \<Rightarrow> bool" where
  "runs_to E t m a t' \<longleftrightarrow> (\<forall>h. \<exists>ev. m E h t = Some (Ok a, t', ev))"

lemma runs_to_andThen: "runs_to E t m a t1 \<Longrightarrow> runs_to E t1 (k a) b t2 \<Longrightarrow> runs_to E t (andThen m k) b t2"
  unfolding runs_to_def by (meson andThen_run)

lemma runs_to_ret: "runs_to E t (ret a) a t"
  by (simp add: runs_to_def)

lemma example_calm_simps [simp]:
  "Meta example_calm = Meta (example_known ''applied'')" "Status example_calm = Status (example_known ''applied'')"
  "sp_Variables (Spec example_calm) = []" "sp_RunTriggers (Spec example_calm) = []"
  "sp_Notifications (Spec example_calm) = []" "sp_Organization (Spec example_calm) = ''world''"
  "sp_SSHKeyID (Spec example_calm) = ''''" "sp_TerraformVersion (Spec example_calm) = ''''"
  "sp_AgentPoolID (Spec example_calm) = ''''" "sp_VCS (Spec example_calm) \<noteq> None"
  "workspace_name example_calm = ''prod-hello''" "set_variables [] example_calm = example_calm"
  "\<not> isPending ''applied''" "\<not> isError ''applied''"
  by (simp_all add: example_calm_def example_vcs_spec example_workspace_def isPending_iff isError_def)

lemma example_rest_answers [simp]:
  "example_rest h (Workspaces (Workspace_Read x n)) = Inr (R_Workspace example_remote)"
  "example_rest h (Notifications q) = Inr (R_Notifications [])"
  "example_rest h (StateVersions (StateVersion_Current i)) = Inr (R_StateVersion ''https://state'')"
  "example_rest h (StateVersions (StateVersion_Download u)) = Inr (R_Bytes '''')"
  "example_rest h (Kube (Get_Secret nn)) = Inr (R_Secret \<lparr>sec_Meta = new_meta (nn_Name nn) (nn_Namespace nn), sec_Data = Some []\<rparr>)"
  "example_rest h (Variables (Variable_List i m)) = Inr (R_Variables [])"
  "example_rest h (RunTriggers (RunTrigger_List i x)) = Inr (R_RunTriggers [])"
  by (simp_all add: example_rest_def)

abbreviation calm_run :: "'a go \<Rightarrow> 'a \<Rightarrow> bool" where
  "calm_run m a \<equiv> runs_to example_rest example_bound_client m a example_bound_client"

lemma example_rest_steps:
  "calm_run (reconcileWorkspace example_calm) example_calm"
  "calm_run (reconcileNotifications example_calm) ()"
  "calm_run (processFinishedRun no_codecs example_calm) example_calm"
  "calm_run (updateTerraformTemplate example_calm) False"
  "calm_run (updateVariables example_calm) (False, example_calm)"
  "calm_run (updateRunTriggers example_calm) False"
  by (simp_all add: runs_to_def reconcile_defs run_simps validStringID_def validString_def id_char_def Let_def
      example_bound_client_def example_remote_def new_tfc_Workspace_def CheckNotifications_def no_codecs_def or_diverge_def
      outputsToMap_def MapToTFCVariable_def MapToTFCRunTrigger_def valid_RunTriggerListOptions_def)

lemma example_rest_run:
  "\<exists>ev. Reconcile no_codecs example_name example_rest h t =
     Some (Ok (no_requeue\<lparr>RequeueAfter := requeueInterval\<rparr>), example_bound_client, ev)"
proof -
  have "initializeReconciliation example_name example_rest h t =
      Some (Ok (Some example_calm), example_bound_client, example_entry example_calm)" for h
    by (rule example_initialize) (simp_all add: example_calm_def example_rest_def)
  then have init: "runs_to example_rest t (initializeReconciliation example_name) (Some example_calm) example_bound_client"
    by (simp add: runs_to_def)
  have finished: "calm_run (reconcileFinished no_codecs example_calm) (no_requeue\<lparr>RequeueAfter := requeueInterval\<rparr>)"
    unfolding reconcileFinished_def
    by (rule runs_to_andThen, rule example_rest_steps, rule runs_to_andThen, rule example_rest_steps,
        rule runs_to_andThen, rule example_rest_steps, simp, rule runs_to_andThen, rule example_rest_steps)
      (simp add: runs_to_ret)
  have "runs_to example_rest t (Reconcile no_codecs example_name) (no_requeue\<lparr>RequeueAfter := requeueInterval\<rparr>) example_bound_client"
    unfolding Reconcile_def
    by (rule runs_to_andThen [OF init], simp add: condDeleteWorkspace_def,
        rule runs_to_andThen, rule example_rest_steps, rule runs_to_andThen, rule example_rest_steps)
      (simp add: runInProgress_def finished)
  then show ?thesis by (simp add: runs_to_def)
qed

lemma Reconcile_at_rest_witness:
  "\<exists>ev. Reconcile no_codecs example_name example_rest [] example_client =
     Some (Ok (no_requeue\<lparr>RequeueAfter := requeueInterval\<rparr>), example_bound_client, ev) \<and>
     (\<forall>e \<in> set ev. is_read (fst e))"
proof -
  obtain ev where run: "Reconcile no_codecs example_name example_rest [] example_client =
     Some (Ok (no_requeue\<lparr>RequeueAfter := requeueInterval\<rparr>), example_bound_client, ev)" using example_rest_run by blast
  with Reconcile_at_rest [OF example_at_rest run] show ?thesis by blast
qed

lemma example_rest_work:
  "\<exists>st. processWorkItem no_codecs example_rest 0 example_name example_busy = Some st"
proof -
  from example_rest_run [of "[]" example_client] obtain ev where
    "Reconcile no_codecs example_name example_rest [] example_client =
     Some (Ok (no_requeue\<lparr>RequeueAfter := requeueInterval\<rparr>), example_bound_client, ev)" by blast
  then show ?thesis
    by (simp add: processWorkItem_def reconcileHandler_def WorkspaceReconciler_Reconcile_def example_busy_def
        controller_start_def newQueue_def AddAfter_def Forget_def requeueInterval_def)
qed

lemma operator_at_rest_witness:
  "\<exists>st. processWorkItem no_codecs example_rest 0 example_name example_busy = Some st \<and>
     (\<forall>e \<in> set (cs_history st). is_read (fst e)) \<and> \<not> cs_crashed st"
proof -
  let ?steps = "controller_steps no_codecs example_rest (\<lambda>_ _ _. Inr False) example_watches (MaxConcurrentReconciles 0)"
  from example_rest_work obtain st where st: "processWorkItem no_codecs example_rest 0 example_name example_busy = Some st"
    by blast
  have "?steps (controller_start example_client 0) example_busy" by (rule example_path) (simp add: one_worker)
  moreover have "controller_step no_codecs example_rest (\<lambda>_ _ _. Inr False) example_watches (MaxConcurrentReconciles 0)
      example_busy st"
    by (rule controller_step.handle [OF _ _ st]) (simp_all add: example_busy_def controller_start_def)
  ultimately have steps: "?steps (controller_start example_client 0) st" by simp
  have "(\<exists>w s. at_rest no_codecs example_rest nn w s) \<or> (\<forall>h. \<exists>e. example_rest h (Kube (Get_Workspace nn)) = Inl e)" for nn
    using example_at_rest by (cases "nn = example_name") (auto simp: example_rest_def)
  from operator_at_rest [OF this steps] st show ?thesis by blast
qed

end
