(* ===== verification/Own_Organization.thy ===== *)
theory Own_Organization
  imports Controller_Timing
begin

text \<open>
  The organization a request names. All reconciles share one client, whose organization each of them sets
  before it uses it, so whose organization a request goes to is a matter of the order of things: it is
  that of the object the reconcile is about, and since there is one worker, this holds of the operator as a whole.
\<close>

section \<open>Requests that name an organization\<close>

fun names_organization :: "request \<Rightarrow> string option" where
  "names_organization (Organizations (Organization_Read o1)) = Some o1"
| "names_organization (Organizations (SSHKey_List o1)) = Some o1"
| "names_organization (Organizations (AgentPool_List o1 n)) = Some o1"
| "names_organization (Workspaces (Workspace_Read o1 n)) = Some o1"
| "names_organization (Workspaces (Workspace_Create o1 c)) = Some o1"
| "names_organization (Workspaces (Workspace_Update o1 n u)) = Some o1"
| "names_organization q = None"

text \<open>A computation that, started with the client set to an organization, stays with it.\<close>

definition stays_in :: "string \<Rightarrow> 'a go \<Rightarrow> bool" where
  "stays_in org m \<longleftrightarrow> (\<forall>E h t r t' ev. tf_Organization t = org \<longrightarrow> m E h t = Some (r, t', ev) \<longrightarrow>
     tf_Organization t' = org \<and> (\<forall>e \<in> set ev. names_organization (fst e) \<in> {None, Some org}))"

named_theorems stays_rules \<open>computations that stay with an organization\<close>

lemma stays_inI:
  "(\<And>E h t r t' ev. tf_Organization t = org \<Longrightarrow> m E h t = Some (r, t', ev) \<Longrightarrow>
     tf_Organization t' = org \<and> (\<forall>e \<in> set ev. names_organization (fst e) \<in> {None, Some org})) \<Longrightarrow> stays_in org m"
  unfolding stays_in_def by blast

lemma stays_inD:
  "stays_in org m \<Longrightarrow> tf_Organization t = org \<Longrightarrow> m E h t = Some (r, t', ev) \<Longrightarrow>
   tf_Organization t' = org \<and> (\<forall>e \<in> set ev. names_organization (fst e) \<in> {None, Some org})"
  unfolding stays_in_def by blast

lemma stays_nameless:
  assumes "emits (\<lambda>q. names_organization q = None) m" "keeps_client m"
  shows "stays_in org m"
  using emitsD [OF assms(1)] keeps_clientD [OF assms(2)] by (intro stays_inI) blast

lemma stays_basic [stays_rules]:
  "stays_in org (ret a)" "stays_in org (fail e)" "stays_in org (panic s)"
  by (intro stays_nameless emits_rules keeps_rules)+

lemma stays_call [stays_rules]: "names_organization q \<in> {None, Some org} \<Longrightarrow> stays_in org (call q dec)"
  by (intro stays_inI) (simp add: call_Some)

lemma stays_perform [stays_rules]: "names_organization q \<in> {None, Some org} \<Longrightarrow> stays_in org (perform q)"
  unfolding perform_def by (rule stays_call)

lemma stays_andThen [stays_rules]:
  assumes "stays_in org m" "\<And>a. stays_in org (k a)"
  shows "stays_in org (andThen m k)"
proof (rule stays_inI)
  fix E h t r t' ev
  assume t: "tf_Organization t = org" and "andThen m k E h t = Some (r, t', ev)"
  from this(2) show "tf_Organization t' = org \<and> (\<forall>e \<in> set ev. names_organization (fst e) \<in> {None, Some org})"
  proof (cases rule: andThen_SomeE)
    case (ok a t1 ev1 ev2)
    with stays_inD [OF assms(1) t ok(1)] stays_inD [OF assms(2) _ ok(2)] show ?thesis by auto
  qed (use stays_inD [OF assms(1) t] in blast)+
qed

lemma stays_get_client:
  "(\<And>t. tf_Organization t = org \<Longrightarrow> stays_in org (k t)) \<Longrightarrow> stays_in org (andThen get_client k)"
  unfolding stays_in_def andThen_get_client by blast

lemma stays_set_client: "(\<And>t. tf_Organization (f t) = tf_Organization t) \<Longrightarrow> stays_in org (set_client f)"
  by (intro stays_inI) simp

lemma stays_attempt [stays_rules]: "stays_in org m \<Longrightarrow> stays_in org (attempt m)"
  unfolding stays_in_def attempt_Some by blast

lemma stays_if [stays_rules]:
  "(b \<Longrightarrow> stays_in org m) \<Longrightarrow> (\<not> b \<Longrightarrow> stays_in org n) \<Longrightarrow> stays_in org (if b then m else n)"
  by simp

lemma stays_option [stays_rules]:
  "(x = None \<Longrightarrow> stays_in org m) \<Longrightarrow> (\<And>y. x = Some y \<Longrightarrow> stays_in org (n y)) \<Longrightarrow>
   stays_in org (case x of None \<Rightarrow> m | Some y \<Rightarrow> n y)"
  by (cases x) auto

lemma stays_sum [stays_rules]:
  "(\<And>e. x = Inl e \<Longrightarrow> stays_in org (m e)) \<Longrightarrow> (\<And>y. x = Inr y \<Longrightarrow> stays_in org (n y)) \<Longrightarrow>
   stays_in org (case x of Inl e \<Rightarrow> m e | Inr y \<Rightarrow> n y)"
  by (cases x) auto

lemma stays_prod [stays_rules]:
  "(\<And>a b. x = (a, b) \<Longrightarrow> stays_in org (f a b)) \<Longrightarrow> stays_in org (case x of (a, b) \<Rightarrow> f a b)"
  by (cases x) auto

lemma stays_each [stays_rules]: "(\<And>x. x \<in> set xs \<Longrightarrow> stays_in org (f x)) \<Longrightarrow> stays_in org (each f xs)"
  by (induction xs) (auto intro!: stays_basic stays_andThen)

lemma stays_require [stays_rules]: "stays_in org m \<Longrightarrow> stays_in org (require b e m)"
  by (simp add: require_def stays_basic)

lemma stays_check_options [stays_rules]: "stays_in org m \<Longrightarrow> stays_in org (check_options e m)"
  by (cases e) (simp_all add: stays_basic)

section \<open>The steps of a reconcile\<close>

lemma stays_Workspaces:
  assumes "tf_Organization t = org"
  shows "stays_in org (Workspaces_Read (tf_Organization t) n)" "stays_in org (Workspaces_Create (tf_Organization t) c)"
    "stays_in org (Workspaces_Update (tf_Organization t) n u)" "stays_in org (SSHKeys_List (tf_Organization t))"
    "stays_in org (AgentPools_List (tf_Organization t) k)" "stays_in org (Organizations_Read (tf_Organization t))"
  unfolding Workspaces_Read_def Workspaces_Create_def Workspaces_Update_def SSHKeys_List_def AgentPools_List_def
    Organizations_Read_def assms
  by (rule stays_rules | simp)+

lemma stays_CheckWorkspace: "stays_in org (CheckWorkspace n w)"
  unfolding CheckWorkspace_def sync_ssh_key_def sync_version_def sync_agent_pool_def CreateWorkspace_def AssignWorkspaceSSHKey_def
    UnassignWorkspaceSSHKey_def GetSSHKeyByNameOrID_def updateAgentPoolID_def wanted_pool_def listAgentPools_def
    SetTerraformVersion_def Workspaces_AssignSSHKey_def Workspaces_UnassignSSHKey_def Let_def
  by (rule stays_get_client | erule stays_Workspaces | rule stays_rules | simp; fail)+

lemma stays_CheckVariables: "stays_in org (CheckVariables n spec)"
proof -
  have nameless: "stays_in org (listVariables i)" "stays_in org (deleteVariablesFromTFC spec rs)"
    "stays_in org (createVariablesOnTFC x spec rs)" "stays_in org (generateUpdateVariableList spec rs path)"
    "stays_in org (UpdateTerraformVariables us)" for i rs x path us
    unfolding listVariables_def deleteVariablesFromTFC_def DeleteVariable_def createVariablesOnTFC_def
      CreateTerraformVariable_def checkAndRetrieveIfSensitive_def generateUpdateVariableList_def UpdateTerraformVariables_def
    by (intro stays_nameless emits_rules keeps_rules; simp)+
  show ?thesis unfolding CheckVariables_def
    by (rule stays_get_client | rule nameless | erule stays_Workspaces | rule stays_rules)+
qed

lemma stays_CheckRunTriggers: "stays_in org (CheckRunTriggers n spec)"
proof -
  have nameless: "stays_in org (RunTriggers_List i x)" "stays_in org (RunTriggers_Delete i)" "stays_in org (RunTriggers_Create i y)"
    for i x y
    by (intro stays_nameless emits_rules keeps_rules; simp)+
  show ?thesis unfolding run_trigger_defs Let_def
    by (rule stays_get_client | rule nameless | erule stays_Workspaces | rule stays_rules)+
qed

lemma nameless_requests:
  "is_Notifications q \<Longrightarrow> names_organization q = None" "is_StateVersions q \<Longrightarrow> names_organization q = None"
  "finalize_request i q \<Longrightarrow> names_organization q = None" "start_request q \<Longrightarrow> names_organization q = None"
  "reconcile_workspace_request q \<Longrightarrow> \<not> workspace_sync_request q \<Longrightarrow> names_organization q = None"
  "template_request q \<Longrightarrow> names_organization q = None" "process_request q \<Longrightarrow> names_organization q = None"
  by (rule names_organization.cases [of q]; simp)+

lemma keeps_reconcile_steps [keeps_rules]:
  "keeps_client (finalizeWorkspace w)" "keeps_client (condDeleteWorkspace w)" "keeps_client (recordWorkspaceID x w)"
  "keeps_client (adoptRun x w)" "keeps_client (addFinalizer w)" "keeps_client (reconcileNotifications w)"
  "keeps_client (runInProgress w)" "keeps_client (processFinishedRun C w)" "keeps_client (updateTerraformTemplate w)"
  "keeps_client (resolveVariable s v)" "keeps_client (startRun w)"
  unfolding reconcile_defs Let_def by (intro keeps_rules)+

lemma emits_adopt [emits_rules]:
  "(\<And>q. reconcile_workspace_request q \<Longrightarrow> \<not> workspace_sync_request q \<Longrightarrow> P q) \<Longrightarrow> emits P (recordWorkspaceID x w)"
  "(\<And>q. reconcile_workspace_request q \<Longrightarrow> \<not> workspace_sync_request q \<Longrightarrow> P q) \<Longrightarrow> emits P (adoptRun x w)"
  "(\<And>q. reconcile_workspace_request q \<Longrightarrow> \<not> workspace_sync_request q \<Longrightarrow> P q) \<Longrightarrow> emits P (addFinalizer w)"
  unfolding recordWorkspaceID_def adoptRun_def addFinalizer_def by (intro emits_rules; simp)+

lemma stays_nameless_steps:
  "stays_in org (condDeleteWorkspace w)" "stays_in org (recordWorkspaceID x w)"
  "stays_in org (adoptRun x w)" "stays_in org (addFinalizer w)" "stays_in org (reconcileNotifications w)"
  "stays_in org (runInProgress w)" "stays_in org (processFinishedRun C w)" "stays_in org (updateTerraformTemplate w)"
  "stays_in org (startRun w)"
  by (rule stays_nameless, rule emits_rules, (simp add: nameless_requests; fail)+, rule keeps_rules)+

lemma stays_resolveVariable: "stays_in org (resolveVariable s v)"
  unfolding resolveVariable_def by (rule stays_nameless, intro emits_rules; simp?) (intro keeps_rules)

lemma stays_record_event: "stays_in org (record_event w a b c)"
  by (rule stays_nameless, rule emits_rules, simp) (rule keeps_rules)

lemma stays_reconcileLive: "stays_in org (reconcileLive C w)"
proof -
  have resolve: "stays_in org (rewrite_each (resolveVariable s) vs)" for s vs
    by (induction vs) (auto intro!: stays_rules stays_resolveVariable)
  show ?thesis
    unfolding reconcileLive_def reconcileFinished_def reconcileWorkspace_def updateVariables_def updateRunTriggers_def
    by (rule stays_nameless_steps stays_record_event stays_CheckWorkspace stays_CheckVariables stays_CheckRunTriggers resolve stays_rules)+
qed

section \<open>A reconcile and the operator\<close>

lemma stays_after_set:
  assumes "andThen m (\<lambda>_. andThen (set_client f) (\<lambda>_. k)) E h t = Some (r, t', ev)"
    and "emits (\<lambda>q. names_organization q = None) m" "stays_in org k" "\<And>t. tf_Organization (f t) = org"
  shows "\<forall>e \<in> set ev. names_organization (fst e) \<in> {None, Some org}"
  using assms(1)
proof (cases rule: andThen_SomeE)
  case (ok a t1 ev1 ev2)
  from ok(2) have "k E (h @ ev1) (f t1) = Some (r, t', ev2)" unfolding andThen_set_client .
  from stays_inD [OF assms(3,4) this] emitsD [OF assms(2) ok(1)] show ?thesis by (auto simp: ok(3))
qed (use emitsD [OF assms(2)] in blast)+

text \<open>The first request reads the object; after that only its organization is named.\<close>

lemma initialize_organization:
  assumes "initializeReconciliation nn E h t = Some (r, t', ev)" and "e \<in> set ev" "names_organization (fst e) = Some org"
  shows "\<exists>w. (Kube (Get_Workspace nn), Inr (R_Resource w)) \<in> set ev \<and> sp_Organization (Spec w) = org"
  using assms(1) unfolding initializeReconciliation_def
proof (cases rule: andThen_SomeE)
  case (ok res t1 ev1 ev2)
  show ?thesis
  proof (cases res)
    case (Inl err)
    with ok(2) have "ev2 = []" by (auto split: if_splits)
    moreover from ok(1) have "\<forall>e \<in> set ev1. names_organization (fst e) = None"
      by (auto simp: kube_Get_Workspace_def attempt_Some call_Some)
    ultimately show ?thesis using assms(2,3) ok(3) by auto
  next
    case (Inr w)
    with ok(1) have ev1: "ev1 = [(Kube (Get_Workspace nn), Inr (R_Resource w))]"
      by (auto simp: attempt_Some kube_Ok)
    have rest: "stays_in (sp_Organization (Spec w)) (andThen CheckOrganization (\<lambda>_.
         andThen (set_client (\<lambda>t. t\<lparr>tf_SecretsMountPath := sp_SecretsMountPath (Spec w)\<rparr>)) (\<lambda>_.
         andThen CheckSecretsMountPath (\<lambda>_. ret (Some w)))))"
      unfolding CheckOrganization_def CheckSecretsMountPath_def
      by (rule stays_get_client | erule stays_Workspaces | rule stays_rules stays_set_client | simp)+
    have warn: "emits (\<lambda>q. names_organization q = None) (if sp_VCS (Spec w) = None \<and> sp_Module (Spec w) = None
         then record_event w a b c else ret ())" for a b c
      by (intro emits_rules) simp
    from stays_after_set [OF ok(2) [unfolded Inr sum.case] warn rest] assms(2,3) ev1 ok(3)
    have "\<exists>e \<in> set ev2. names_organization (fst e) = Some org \<and> names_organization (fst e) \<in> {None, Some (sp_Organization (Spec w))}"
      by auto
    with ev1 ok(3) show ?thesis by auto
  qed
qed (use assms(2,3) in \<open>auto simp: attempt_Some kube_Get_Workspace_def call_Some\<close>)

lemma initialize_client:
  assumes "initializeReconciliation nn E h t = Some (Ok (Some w), t', ev)"
  shows "(Kube (Get_Workspace nn), Inr (R_Resource w)) \<in> set ev" "tf_Organization t' = sp_Organization (Spec w)"
  by (rule initialize_Ok [OF assms]; simp)+

lemma Reconcile_organization:
  assumes "Reconcile C nn E h t = Some (r, t', ev)" and "(q, a) \<in> set ev" "names_organization q = Some org"
  shows "\<exists>w. (Kube (Get_Workspace nn), Inr (R_Resource w)) \<in> set ev \<and> sp_Organization (Spec w) = org"
  using assms(1)
proof (cases rule: Reconcile_courses)
  case (stopped r0)
  from initialize_organization [OF stopped(1) assms(2)] assms(3) show ?thesis by simp
next
  case (marked w t1 ev1 ev2 r1)
  note w = initialize_client [OF marked(1)]
  from stays_inD [OF stays_nameless_steps(1) w(2) marked(3)] initialize_organization [OF marked(1), of "(q, a)"] assms(2,3)
  show ?thesis using w(1) unfolding marked(5) by fastforce
next
  case (live w t1 ev1 ev2)
  note w = initialize_client [OF live(1)]
  from stays_inD [OF stays_reconcileLive w(2) live(3)] initialize_organization [OF live(1), of "(q, a)"] assms(2,3)
  show ?thesis using w(1) unfolding live(4) by fastforce
qed

text \<open>A reconcile reads one object, first of all.\<close>

fun reads_object :: "request \<Rightarrow> bool" where
  "reads_object (Kube (Get_Workspace nn)) = True"
| "reads_object q = False"

lemma reads_no_object:
  "finalize_request i q \<Longrightarrow> \<not> reads_object q" "reconcile_workspace_request q \<Longrightarrow> \<not> reads_object q"
  "is_Notifications q \<Longrightarrow> \<not> reads_object q" "process_request q \<Longrightarrow> \<not> reads_object q"
  "template_request q \<Longrightarrow> \<not> reads_object q" "variables_request q \<Longrightarrow> \<not> reads_object q"
  "triggers_request q \<Longrightarrow> \<not> reads_object q" "start_request q \<Longrightarrow> \<not> reads_object q"
  by (rule reads_object.cases [of q]; simp)+

lemma reads_first:
  assumes "andThen (attempt (kube_Get_Workspace nn)) k E h t = Some (r, t', ev)"
    and "\<And>res. emits (\<lambda>q. \<not> reads_object q) (k res)"
  shows "\<exists>a rest. ev = (Kube (Get_Workspace nn), a) # rest \<and> (\<forall>e \<in> set rest. \<not> reads_object (fst e))"
  using assms(1)
proof (cases rule: andThen_SomeE)
  case (ok res t1 ev1 ev2)
  from ok(1) have "\<exists>a. ev1 = [(Kube (Get_Workspace nn), a)]" by (auto simp: kube_Get_Workspace_def attempt_Some call_Some)
  with emitsD [OF assms(2) ok(2)] ok(3) show ?thesis by auto
qed (auto simp: attempt_Some kube_Get_Workspace_def call_Some)

lemma Reconcile_reads_once:
  assumes "Reconcile C nn E h t = Some (r, t', ev)"
  shows "\<exists>a rest. ev = (Kube (Get_Workspace nn), a) # rest \<and> (\<forall>e \<in> set rest. \<not> reads_object (fst e))"
proof (rule reads_first [OF assms [unfolded Reconcile_live initializeReconciliation_def andThen_assoc]])
  have live: "emits (\<lambda>q. \<not> reads_object q) (reconcileLive C w)" "emits (\<lambda>q. \<not> reads_object q) (condDeleteWorkspace w)" for w
    by (intro emits_rules; (erule reads_no_object | simp))+
  show "emits (\<lambda>q. \<not> reads_object q) (andThen (case res of
       Inl err \<Rightarrow> if k8s_IsNotFound err then ret None else fail err
     | Inr w \<Rightarrow>
         andThen (if sp_VCS (Spec w) = None \<and> sp_Module (Spec w) = None
                  then record_event w ''Warning'' ''WorkspaceEvent''
                    (''Either VCS or Module need to be specified in spec for workspace '' @ ws_Name w)
                  else ret ()) (\<lambda>_.
         andThen (set_client (\<lambda>t. t\<lparr>tf_Organization := sp_Organization (Spec w)\<rparr>)) (\<lambda>_.
         andThen CheckOrganization (\<lambda>_.
         andThen (set_client (\<lambda>t. t\<lparr>tf_SecretsMountPath := sp_SecretsMountPath (Spec w)\<rparr>)) (\<lambda>_.
         andThen CheckSecretsMountPath (\<lambda>_.
         ret (Some w))))))) (\<lambda>found. case found of
       None \<Rightarrow> ret no_requeue
     | Some w \<Rightarrow>
         andThen (condDeleteWorkspace w) (\<lambda>deleted.
         if deleted then ret no_requeue else reconcileLive C w)))" for res
    by (rule live | rule emits_rules | simp)+
qed

definition follows_object :: "string \<Rightarrow> trace \<Rightarrow> bool" where
  "follows_object org before \<longleftrightarrow> (\<exists>pre nn w mid. before = pre @ (Kube (Get_Workspace nn), Inr (R_Resource w)) # mid \<and>
     sp_Organization (Spec w) = org \<and> (\<forall>e \<in> set mid. \<not> reads_object (fst e)))"

lemma Reconcile_follows_object:
  assumes "Reconcile C nn E h t = Some (r, t', before @ (q, a) # after)" and "names_organization q = Some org"
  shows "follows_object org before"
proof -
  from Reconcile_reads_once [OF assms(1)] obtain b rest where ev: "before @ (q, a) # after = (Kube (Get_Workspace nn), b) # rest"
    and rest: "\<forall>e \<in> set rest. \<not> reads_object (fst e)" by blast
  from ev assms(2) obtain mid where mid: "before = (Kube (Get_Workspace nn), b) # mid" "rest = mid @ (q, a) # after"
    by (cases before) auto
  from Reconcile_organization [OF assms(1) _ assms(2)] obtain w where
    w: "(Kube (Get_Workspace nn), Inr (R_Resource w)) \<in> set (before @ (q, a) # after)" "sp_Organization (Spec w) = org" by auto
  from w(1) rest have "b = Inr (R_Resource w)" unfolding ev by auto
  with mid rest w(2) show ?thesis
    unfolding follows_object_def by (intro exI [of _ "[]"] exI [of _ nn] exI [of _ w] exI [of _ mid]) auto
qed

text \<open>
  C13. The reconciles share one client that remembers an organization, and yet every request of the operator
  that names an organization names the one in the spec of the object that was read last before it, whatever
  objects are reconciled in whatever order and whatever the servers answer.
\<close>
theorem operator_own_organizations:
  assumes "controller_steps C E mapper ws (MaxConcurrentReconciles 0) (controller_start t now) s"
    and "cs_history s = before @ (q, a) # after" "names_organization q = Some org"
  shows "\<exists>pre nn w mid. before = pre @ (Kube (Get_Workspace nn), Inr (R_Resource w)) # mid \<and>
    sp_Organization (Spec w) = org \<and> (\<forall>e \<in> set mid. \<not> reads_object (fst e))"
proof -
  let ?I = "\<lambda>h (c::bool). \<forall>before q a after org. h = before @ (q, a) # after \<longrightarrow> names_organization q = Some org \<longrightarrow>
    follows_object org before"
  have "?I (cs_history s) (cs_crashed s)"
  proof (rule controller_history [OF assms(1)])
    fix nn h t r t' ev
    assume run: "Reconcile C nn E h t = Some (r, t', ev)" and I: "?I h False"
    show "?I (h @ ev) (\<exists>x. r = Panic x)"
    proof (intro allI impI)
      fix before q a after org
      assume split: "h @ ev = before @ (q, a) # after" and q: "names_organization q = Some org"
      then consider (old) more where "h = before @ (q, a) # more" | (new) mid where "ev = mid @ (q, a) # after" "before = h @ mid"
        by (auto simp: append_eq_append_conv2 append_eq_Cons_conv)
      then show "follows_object org before"
      proof cases
        case old
        with I q show ?thesis by blast
      next
        case new
        from Reconcile_follows_object [OF run [unfolded new(1)] q] show ?thesis
          unfolding follows_object_def new(2) by (metis append_assoc)
      qed
    qed
  qed simp
  with assms(2,3) show ?thesis unfolding follows_object_def by blast
qed

lemma operator_own_organizations_witness:
  "\<exists>pre nn w mid. take 1 (cs_history example_polled) = pre @ (Kube (Get_Workspace nn), Inr (R_Resource w)) # mid \<and>
     sp_Organization (Spec w) = ''world''"
proof -
  have "cs_history example_polled = take 1 (cs_history example_polled) @
      (Organizations (Organization_Read ''world''), Inr R_None) # drop 2 (cs_history example_polled)"
    by (simp add: example_polled_def example_polling_def example_entry_def)
  from operator_own_organizations [OF example_polled_path this] show ?thesis by auto
qed

end
