(* ===== verification/Crash_Causes.thy ===== *)
theory Crash_Causes
  imports Own_Organization K8s_Properties
begin

text \<open>
  What can make the operator crash. A Hoare-style calculus over computations traces every panic back to an answer
  that caused it: a nil pointer or a nil map is only ever met where the code uses something that a service sent.
\<close>

section \<open>Panics and their causes\<close>

text \<open>\<open>blames B m\<close>: when \<open>m\<close> panics, an answer it was given satisfies \<open>B\<close>.\<close>

definition blames :: "(event \<Rightarrow> bool) \<Rightarrow> 'a go \<Rightarrow> bool" where
  "blames B m \<longleftrightarrow> (\<forall>E h t s t' ev. m E h t = Some (Panic s, t', ev) \<longrightarrow> (\<exists>e \<in> set ev. B e))"

text \<open>\<open>betrays B m Q\<close>: when \<open>m\<close> returns a value with \<open>Q\<close>, an answer it was given satisfies \<open>B\<close>.\<close>

definition betrays :: "(event \<Rightarrow> bool) \<Rightarrow> 'a go \<Rightarrow> ('a \<Rightarrow> bool) \<Rightarrow> bool" where
  "betrays B m Q \<longleftrightarrow> (\<forall>E h t a t' ev. m E h t = Some (Ok a, t', ev) \<longrightarrow> Q a \<longrightarrow> (\<exists>e \<in> set ev. B e))"

named_theorems blames_rules \<open>which computations panic only for a cause\<close>

lemma blamesD: "blames B m \<Longrightarrow> m E h t = Some (Panic s, t', ev) \<Longrightarrow> \<exists>e \<in> set ev. B e"
  unfolding blames_def by blast

lemma betraysD: "betrays B m Q \<Longrightarrow> m E h t = Some (Ok a, t', ev) \<Longrightarrow> Q a \<Longrightarrow> \<exists>e \<in> set ev. B e"
  unfolding betrays_def by blast

lemma blames_basic [blames_rules]:
  "blames B (ret a)" "blames B (fail e)" "blames B get_client" "blames B (set_client f)"
  "blames B (call q dec)" "blames B (perform q)" "blames B (notify q)"
  by (auto simp: blames_def call_Some perform_def split: sum.splits option.splits)

text \<open>The second part of a sequence may blame the answers that led to the value it is given.\<close>

lemma blames_after:
  assumes "blames B m" "betrays B m Q" and "\<And>a. \<not> Q a \<Longrightarrow> blames B (k a)"
  shows "blames B (andThen m k)"
  unfolding blames_def
proof (intro allI impI)
  fix E h t s t' ev
  assume "andThen m k E h t = Some (Panic s, t', ev)"
  then show "\<exists>e \<in> set ev. B e"
  proof (cases rule: andThen_SomeE)
    case (ok a t1 ev1 ev2)
    with betraysD [OF assms(2) ok(1)] blamesD [OF assms(3) ok(2)] show ?thesis by auto
  qed (use blamesD [OF assms(1)] in auto)
qed

lemma betrays_never: "betrays B m (\<lambda>_. False)"
  by (simp add: betrays_def)

lemma blames_andThen [blames_rules]: "blames B m \<Longrightarrow> (\<And>a. blames B (k a)) \<Longrightarrow> blames B (andThen m k)"
  by (rule blames_after [OF _ betrays_never])

lemma blames_attempt [blames_rules]: "blames B m \<Longrightarrow> blames B (attempt m)"
  unfolding blames_def by (simp add: attempt_Some)

lemma betrays_attempt: "betrays B m Q \<Longrightarrow> betrays B (attempt m) (\<lambda>res. case res of Inl e \<Rightarrow> False | Inr a \<Rightarrow> Q a)"
  unfolding betrays_def by (auto simp: attempt_Some)

lemma blames_if [blames_rules]:
  "(b \<Longrightarrow> blames B m) \<Longrightarrow> (\<not> b \<Longrightarrow> blames B n) \<Longrightarrow> blames B (if b then m else n)"
  by simp

lemma blames_option [blames_rules]:
  "(x = None \<Longrightarrow> blames B m) \<Longrightarrow> (\<And>y. x = Some y \<Longrightarrow> blames B (n y)) \<Longrightarrow>
   blames B (case x of None \<Rightarrow> m | Some y \<Rightarrow> n y)"
  by (cases x) auto

lemma blames_sum [blames_rules]:
  "(\<And>e. x = Inl e \<Longrightarrow> blames B (m e)) \<Longrightarrow> (\<And>y. x = Inr y \<Longrightarrow> blames B (n y)) \<Longrightarrow>
   blames B (case x of Inl e \<Rightarrow> m e | Inr y \<Rightarrow> n y)"
  by (cases x) auto

lemma blames_prod [blames_rules]:
  "(\<And>a b. x = (a, b) \<Longrightarrow> blames B (f a b)) \<Longrightarrow> blames B (case x of (a, b) \<Rightarrow> f a b)"
  by (cases x) auto

lemma blames_Let [blames_rules]: "blames B (f x) \<Longrightarrow> blames B (let y = x in f y)"
  by simp

lemma blames_each [blames_rules]: "(\<And>x. x \<in> set xs \<Longrightarrow> blames B (f x)) \<Longrightarrow> blames B (each f xs)"
  by (induction xs) (auto intro!: blames_rules)

lemma blames_rewrite_each [blames_rules]:
  "(\<And>x. x \<in> set xs \<Longrightarrow> blames B (f x)) \<Longrightarrow> blames B (rewrite_each f xs)"
  by (induction xs) (auto intro!: blames_rules)

lemma blames_require [blames_rules]: "(b \<Longrightarrow> blames B m) \<Longrightarrow> blames B (require b e m)"
  unfolding require_def by (intro blames_rules)

lemma blames_check_options [blames_rules]: "blames B m \<Longrightarrow> blames B (check_options e m)"
  unfolding check_options_def by (intro blames_rules)

section \<open>Calls of the services\<close>

lemma blames_tfe [blames_rules]:
  "blames B (Organizations_Read x)" "blames B (SSHKeys_List x)" "blames B (AgentPools_List x n)"
  "blames B (Workspaces_Create x co)" "blames B (Workspaces_Read x y)" "blames B (Workspaces_ReadByID x)"
  "blames B (Workspaces_Update x y uo)" "blames B (Workspaces_DeleteByID x)"
  "blames B (Workspaces_AssignSSHKey x y)" "blames B (Workspaces_UnassignSSHKey x)"
  "blames B (Variables_List x n)" "blames B (Variables_Create x vc)" "blames B (Variables_Update x y vu)"
  "blames B (Variables_Delete x y)" "blames B (Runs_List x)" "blames B (Runs_Create ro)"
  "blames B (Runs_Read x)" "blames B (Runs_ForceCancel x c)" "blames B (RunTriggers_List x y)"
  "blames B (RunTriggers_Create x src)" "blames B (RunTriggers_Delete x)"
  "blames B (ConfigurationVersions_List x)" "blames B (ConfigurationVersions_Create x a b)"
  "blames B (ConfigurationVersions_Read x)" "blames B (ConfigurationVersions_Upload x y)"
  "blames B (NotificationConfigurations_List x)" "blames B (NotificationConfigurations_Create x no)"
  "blames B (NotificationConfigurations_Delete x)" "blames B (StateVersions_Current x)"
  "blames B (StateVersions_Download x)"
  unfolding tfe_defs(3-) by (intro blames_rules)+

lemma blames_kube [blames_rules]:
  "blames B (kube_Get_Workspace nn)" "blames B (kube_Update_Workspace w)"
  "blames B (kube_UpdateStatus_Workspace w)" "blames B (kube_Get_ConfigMap nn)"
  "blames B (kube_Get_Secret nn)" "blames B (kube_Create_ConfigMap c)"
  "blames B (kube_Update_ConfigMap c)" "blames B (kube_Create_Secret s)"
  "blames B (kube_Update_Secret s)" "blames B (record_event w ty re ms)"
  unfolding kube_defs by (intro blames_rules)+


section \<open>The answers that crash\<close>

text \<open>
  A listed variable without its workspace, a ConfigMap without data, a state file without a root module, and an
  object to release on whose finalizers \<open>remove\<close> runs past the end of its slice.
\<close>

fun crash_answer :: "codecs \<Rightarrow> event \<Rightarrow> bool" where
  "crash_answer C (q, Inr (R_Variables vs)) \<longleftrightarrow> is_Variables q \<and> list_ex (\<lambda>v. tv_Workspace v = None) vs"
| "crash_answer C (q, Inr (R_ConfigMap c)) \<longleftrightarrow> is_Kube q \<and> cm_Data c = None"
| "crash_answer C (q, Inr (R_Bytes data)) \<longleftrightarrow> is_StateVersions q \<and> statefile_Read C data = Inr None"
| "crash_answer C (q, Inr (R_Resource w)) \<longleftrightarrow> is_Kube q \<and> om_DeletionTimestamp (Meta w) \<noteq> None \<and>
     remove (om_Finalizers (Meta w)) workspaceFinalizer = None"
| "crash_answer C e \<longleftrightarrow> False"

section \<open>The operations\<close>

text \<open>Variables: those that are deleted or updated come from the list.\<close>

lemma betrays_listVariables:
  "betrays (crash_answer C) (listVariables i) (list_ex (\<lambda>v. tv_Workspace v = None))"
  unfolding betrays_def listVariables_def by (auto dest!: tfe_Ok)

lemma blames_getSensitive [blames_rules]: "blames B (getSensitiveVariablesToUpdate spec remote path)"
  by (induction spec) (auto simp: Let_def checkAndRetrieveIfSensitive_def intro!: blames_rules)

lemma blames_deleteVariables:
  "\<not> list_ex (\<lambda>v. tv_Workspace v = None) remote \<Longrightarrow> blames B (deleteVariablesFromTFC spec remote)"
  unfolding deleteVariablesFromTFC_def DeleteVariable_def
  by (intro blames_rules) (auto simp: list_ex_iff)

lemma blames_updates:
  "\<not> list_ex (\<lambda>v. tv_Workspace v = None) us \<Longrightarrow> blames B (UpdateTerraformVariables us)"
  unfolding UpdateTerraformVariables_def by (intro blames_rules) (auto simp: list_ex_iff)

lemma updates_have_workspaces:
  assumes "\<not> list_ex (\<lambda>v. tv_Workspace v = None) remote"
  shows "betrays B (generateUpdateVariableList spec remote path) (list_ex (\<lambda>v. tv_Workspace v = None))"
proof -
  have "tv_Workspace u \<noteq> None" if "generateUpdateVariableList spec remote path E h t = Some (Ok us, t', ev)" "u \<in> set us"
    for E h t us t' ev u
  proof -
    from generateUpdate_Ok(3) [OF that] obtain v where
      "tv_Workspace u = tv_Workspace (remote_of remote v)" "0 \<le> find remote (tv_Key v)" by blast
    with remote_of_in(1) assms show ?thesis by (auto simp: list_ex_iff)
  qed
  then show ?thesis by (fastforce simp: betrays_def list_ex_iff)
qed

lemma blames_CheckVariables [blames_rules]: "blames (crash_answer C) (CheckVariables name spec)"
proof -
  have "blames (crash_answer C) (listVariables i)" for i
    unfolding listVariables_def by (intro blames_rules)
  moreover have "blames (crash_answer C) (createVariablesOnTFC w spec remote)" for w remote
    unfolding createVariablesOnTFC_def CreateTerraformVariable_def checkAndRetrieveIfSensitive_def
    by (intro blames_rules)
  moreover have "blames (crash_answer C) (generateUpdateVariableList spec remote path)" for remote path
    unfolding generateUpdateVariableList_def by (intro blames_rules)
  ultimately show ?thesis
    unfolding CheckVariables_def
    by (intro blames_rules blames_after [OF _ betrays_listVariables] blames_deleteVariables
        blames_after [OF _ updates_have_workspaces] blames_updates)
qed

lemma blames_variables [blames_rules]: "blames B CheckSecretsMountPath"
  unfolding CheckSecretsMountPath_def by (intro blames_rules)


text \<open>The polling loop, by induction on its recursion.\<close>

lemma poll_no_panic:
  assumes "poll runID E h t = Some res"
  shows "fst res \<noteq> Panic s"
  using assms
proof (induction rule: poll_induct)
  case (step poll' runID E h t res)
  obtain r t' ev where res: "res = (r, t', ev)" by (cases res)
  have read: "r' \<noteq> Panic s" if "attempt (Runs_Read runID) E h t = Some (r', t'', ev')" for r' t'' ev'
    using that by (auto simp: attempt_Some Runs_Read_def require_def call_Some split: if_splits sum.splits option.splits)
  from step.hyps [unfolded res] show ?case
  proof (cases rule: andThen_SomeE)
    case (ok a t1 ev1 ev2)
    with step.IH res show ?thesis by (fastforce split: sum.splits if_splits elim!: andThen_SomeE)
  qed (use res read in auto)
qed

lemma blames_poll [blames_rules]: "blames B (poll runID)"
  unfolding blames_def using poll_no_panic by fastforce

lemma blames_runs [blames_rules]:
  "blames B (DeleteRuns w)" "blames B (CheckRun i)" "blames B (CreateConfigurationVersion w)"
  "blames B (UploadConfigurationFile u)" "blames B (DeleteResources w)"
  unfolding run_defs Let_def by (intro blames_rules)+

lemma blames_run_triggers [blames_rules]: "blames B (CheckRunTriggers name spec)"
  unfolding run_trigger_defs by (intro blames_rules)

lemma blames_workspaces [blames_rules]:
  "blames B CheckOrganization" "blames B (CheckWorkspace name w)" "blames B (CheckWorkspacebyID i)"
  "blames B (DeleteWorkspace i)"
  unfolding workspace_defs Let_def by (intro blames_rules)+

lemma blames_CheckNotifications [blames_rules]: "blames B (CheckNotifications w)"
  unfolding CheckNotifications_def Let_def by (intro blames_rules)

lemma blames_k8s_objects [blames_rules]:
  "blames B (GetConfigMapForVariable ns v)" "blames B (GetSecretForVariable ns v)" "blames B (UpsertSecretOutputs w outputs)"
  unfolding GetConfigMapForVariable_def GetSecretForVariable_def GetSecretData_def UpsertSecretOutputs_def
  by (intro blames_rules)+

text \<open>The configuration: only a ConfigMap without data is written to a nil map.\<close>

lemma betrays_Get_ConfigMap:
  "betrays (crash_answer C) (kube_Get_ConfigMap nn) (\<lambda>c. cm_Data c = None)"
  unfolding betrays_def by (auto simp: kube_Ok)

lemma blames_UpsertTerraformConfig [blames_rules]: "blames (crash_answer C) (UpsertTerraformConfig w template)"
  unfolding UpsertTerraformConfig_def
  by (rule blames_after [OF _ betrays_attempt [OF betrays_Get_ConfigMap]]) (auto intro!: blames_rules split: sum.splits)

text \<open>The outputs: only a state file without a root module.\<close>

lemma blames_or_diverge [blames_rules]: "blames B (or_diverge x)"
  by (auto simp: blames_def or_diverge_def split: option.splits)

lemma betrays_download:
  "betrays (crash_answer C) (StateVersions_Download u) (\<lambda>data. statefile_Read C data = Inr None)"
  unfolding betrays_def
  by (auto simp: StateVersions_Download_def require_Ok call_Ok elim!: as_bytes.elims)

lemma blames_CheckOutputs [blames_rules]: "blames (crash_answer C) (CheckOutputs C i r)"
proof -
  have "blames (crash_answer C) (GetOutputsFromState C u)" for u
    unfolding GetOutputsFromState_def
    by (intro blames_if blames_rules(2) blames_after [OF _ betrays_attempt [OF betrays_download]])
      (auto intro!: blames_rules split: sum.splits option.splits)
  then show ?thesis
    unfolding CheckOutputs_def GetStateVersionDownloadURL_def by (intro blames_rules)
qed

section \<open>A reconcile\<close>

lemma blames_finalizeWorkspace [blames_rules]: "blames B (finalizeWorkspace w)"
  unfolding finalizeWorkspace_def by (intro blames_rules)

lemma blames_condDelete:
  "om_DeletionTimestamp (Meta w) = None \<or> remove (om_Finalizers (Meta w)) workspaceFinalizer \<noteq> None \<Longrightarrow>
   blames B (condDeleteWorkspace w)"
  unfolding condDeleteWorkspace_def by (intro blames_rules) auto

lemma blames_reconcileLive [blames_rules]: "blames (crash_answer C) (reconcileLive C w)"
  unfolding reconcileLive_def reconcileFinished_def reconcile_defs recordWorkspaceID_def adoptRun_def Let_def
  by (intro blames_rules)

lemma blames_initialize [blames_rules]: "blames B (initializeReconciliation nn)"
  unfolding initializeReconciliation_def by (intro blames_rules)

definition releasable :: "Workspace \<Rightarrow> bool" where
  "releasable w \<longleftrightarrow> om_DeletionTimestamp (Meta w) = None \<or> remove (om_Finalizers (Meta w)) workspaceFinalizer \<noteq> None"

lemma betrays_initialize:
  "betrays (crash_answer C) (initializeReconciliation nn) (\<lambda>found. case found of None \<Rightarrow> False | Some w \<Rightarrow> \<not> releasable w)"
  unfolding betrays_def
proof (intro allI impI)
  fix E h t a t' ev
  assume run: "initializeReconciliation nn E h t = Some (Ok a, t', ev)" and "case a of None \<Rightarrow> False | Some w \<Rightarrow> \<not> releasable w"
  then obtain w where w: "a = Some w" "\<not> releasable w" by (cases a) auto
  from run [unfolded w(1)] obtain rest where "ev = (Kube (Get_Workspace nn), Inr (R_Resource w)) # rest"
    by (rule initialize_Ok)
  with w(2) show "\<exists>e \<in> set ev. crash_answer C e" by (simp add: releasable_def)
qed

lemma blames_Reconcile: "blames (crash_answer C) (Reconcile C nn)"
  unfolding Reconcile_live
  by (rule blames_after [OF _ betrays_initialize])
    (auto intro!: blames_rules blames_condDelete simp: releasable_def split: option.splits)


section \<open>The operator\<close>

text \<open>The object was read last when the answer came that satisfies \<open>B\<close>, or is that answer.\<close>

definition blamed_last :: "(event \<Rightarrow> bool) \<Rightarrow> trace \<Rightarrow> bool" where
  "blamed_last B h \<longleftrightarrow> (\<exists>before nn a rest. h = before @ (Kube (Get_Workspace nn), a) # rest \<and>
     (\<forall>e \<in> set rest. \<not> reads_object (fst e)) \<and> (\<exists>e \<in> set ((Kube (Get_Workspace nn), a) # rest). B e))"

lemma Reconcile_blamed_last:
  assumes "Reconcile C nn E h t = Some (Panic s, t', ev)"
  shows "blamed_last (crash_answer C) (h @ ev)"
  using Reconcile_reads_once [OF assms] blamesD [OF blames_Reconcile assms] unfolding blamed_last_def by blast

text \<open>
  C12. The operator crashes only for a cause in what it was sent: if it panicked, then, since it read the object of the
  last reconcile, the service listed a variable without its workspace, or a ConfigMap had no data, or a state file had
  no root module, or the object itself is to be released and carries the finalizer more than once, in an order in
  which \<open>remove\<close> runs past the end of the list. Nothing else that it is sent makes it panic.
\<close>
theorem operator_crash_causes:
  assumes "controller_steps C E mapper ws (MaxConcurrentReconciles 0) (controller_start t now) s"
    and "cs_crashed s"
  shows "\<exists>before nn a rest. cs_history s = before @ (Kube (Get_Workspace nn), a) # rest \<and>
    (\<forall>e \<in> set rest. \<not> reads_object (fst e)) \<and>
    (\<exists>e \<in> set ((Kube (Get_Workspace nn), a) # rest). crash_answer C e)"
proof -
  have "cs_crashed s \<longrightarrow> blamed_last (crash_answer C) (cs_history s)"
    by (rule controller_history [OF assms(1)]) (use Reconcile_blamed_last in auto)
  with assms(2) show ?thesis unfolding blamed_last_def by blast
qed

text \<open>An object that carries the finalizer once is never a cause.\<close>

lemma unreleasable_finalizers: "\<not> releasable w \<Longrightarrow> 1 < count_list (om_Finalizers (Meta w)) workspaceFinalizer"
  using remove_at_most_once [of "om_Finalizers (Meta w)" workspaceFinalizer] by (fastforce simp: releasable_def not_less)

section \<open>An example\<close>

text \<open>An object to release that carries the finalizer twice: its workspace is deleted and then the operator crashes.\<close>

definition example_twice :: Workspace where
  "example_twice = set_finalizers [workspaceFinalizer, workspaceFinalizer] example_doomed"

definition example_crash :: trace where
  "example_crash = example_entry example_twice @ take 7 example_deletion"

lemma example_twice_run:
  "Reconcile C example_name (example_world example_twice) [] t =
     Some (Panic ''slice bounds out of range'', example_bound_client, example_crash)"
proof -
  have rm: "remove [workspaceFinalizer, workspaceFinalizer] workspaceFinalizer = None"
    using remove_trailing_pair [of workspaceFinalizer "[]"] by simp
  have id: "validStringID (Some ''ws-1'')" "validStringID (Some ''run-2'')"
    by (simp_all add: validStringID_def id_char_def)
  have "initializeReconciliation example_name (example_world example_twice) [] t =
      Some (Ok (Some example_twice), example_bound_client, example_entry example_twice)"
    by (rule example_initialize) (simp_all add: example_twice_def set_finalizers_def example_workspace_def)
  moreover have "condDeleteWorkspace example_twice (example_world example_twice) h t' =
      Some (Panic ''slice bounds out of range'', t', take 7 example_deletion)" for h t'
    by (simp add: condDeleteWorkspace_def finalizeWorkspace_def run_defs workspace_defs example_twice_def set_finalizers_def
        Workspaces_ReadByID_def Workspaces_DeleteByID_def Runs_List_def Runs_Create_def Runs_Read_def destroy_options_def
        go_defs Let_def rm id poll_step poll_round_def settled_iff destroyed_iff example_deletion_def example_destroyed_def
        example_remote_def new_tfc_Workspace_def isPending_iff)
  ultimately show ?thesis by (simp add: Reconcile_live andThen_def example_crash_def)
qed

definition example_gone :: controller_state where
  "example_gone = example_busy\<lparr>cs_client := example_bound_client, cs_history := example_crash, cs_crashed := True\<rparr>"

lemma operator_crash_causes_witness:
  "\<exists>before nn a rest. example_crash = before @ (Kube (Get_Workspace nn), a) # rest \<and>
    (\<exists>e \<in> set ((Kube (Get_Workspace nn), a) # rest). crash_answer no_codecs e)"
proof -
  let ?steps = "controller_steps no_codecs (example_world example_twice) (\<lambda>_ _ _. Inr False) example_watches (MaxConcurrentReconciles 0)"
  have work: "processWorkItem no_codecs (example_world example_twice) 0 example_name example_busy = Some example_gone"
    by (simp add: processWorkItem_def reconcileHandler_def WorkspaceReconciler_Reconcile_def example_twice_run
        example_gone_def example_busy_def controller_start_def Let_def)
  have "?steps (controller_start example_client 0) example_busy" by (rule example_path) (simp add: one_worker)
  moreover have "controller_step no_codecs (example_world example_twice) (\<lambda>_ _ _. Inr False) example_watches
      (MaxConcurrentReconciles 0) example_busy example_gone"
    by (rule controller_step.handle [OF _ _ work]) (simp_all add: example_busy_def controller_start_def)
  ultimately have "?steps (controller_start example_client 0) example_gone" by simp
  from operator_crash_causes [OF this] show ?thesis by (simp add: example_gone_def) blast
qed

end
