(* ===== verification/Object_Owners.thy ===== *)
theory Object_Owners
  imports K8s_Properties Controller_Timing
begin

text \<open>
  Under whom the ConfigMap and the Secret of a Workspace are created: a Hoare logic over the history of requests
  and answers follows the object that the API server answered last, and shows that the owner of everything
  that is created is this object.
\<close>

section \<open>The object in hand\<close>

text \<open>The Workspace that the API server answered last, to a read or a write.\<close>

fun answered :: "event \<Rightarrow> Workspace option" where
  "answered (Kube (Get_Workspace nn), Inr (R_Resource w)) = Some w"
| "answered (Kube (Update_Workspace w'), Inr (R_Resource w)) = Some w"
| "answered (Kube (UpdateStatus_Workspace w'), Inr (R_Resource w)) = Some w"
| "answered e = None"

definition last_object :: "trace \<Rightarrow> Workspace option" where
  "last_object h = foldl (\<lambda>found e. case answered e of None \<Rightarrow> found | Some w \<Rightarrow> Some w) None h"

lemma last_object_simps [simp]:
  "last_object [] = None"
  "last_object (h @ [e]) = (case answered e of None \<Rightarrow> last_object h | Some w \<Rightarrow> Some w)"
  by (auto simp: last_object_def split: option.split)

text \<open>The owner reference of a Workspace as its controller, by kind, name and UID.\<close>

definition workspace_controls :: "Workspace \<Rightarrow> OwnerReference \<Rightarrow> bool" where
  "workspace_controls w r \<longleftrightarrow> or_Controller r \<and> or_Kind r = ''Workspace'' \<and> or_APIVersion r = ''app.terraform.io/v1alpha1'' \<and>
     or_Name r = om_Name (Meta w) \<and> or_UID r = om_UID (Meta w)"

text \<open>What is created after \<open>before\<close> belongs to the object answered last: its owner, namespace and name.\<close>

fun owned :: "trace \<Rightarrow> request \<Rightarrow> bool" where
  "owned before (Kube (Create_ConfigMap c)) \<longleftrightarrow> (\<exists>w. last_object before = Some w \<and>
     list_ex (workspace_controls w) (om_OwnerReferences (cm_Meta c)) \<and>
     om_Namespace (cm_Meta c) = ws_Namespace w \<and> om_Name (cm_Meta c) = ws_Name w)"
| "owned before (Kube (Create_Secret s)) \<longleftrightarrow> (\<exists>w. last_object before = Some w \<and>
     list_ex (workspace_controls w) (om_OwnerReferences (sec_Meta s)) \<and>
     om_Namespace (sec_Meta s) = ws_Namespace w \<and> om_Name (sec_Meta s) = ws_Name w @ ''-outputs'')"
| "owned before q \<longleftrightarrow> True"

fun all_owned :: "trace \<Rightarrow> trace \<Rightarrow> bool" where
  "all_owned before [] = True"
| "all_owned before (e # ev) = (owned before (fst e) \<and> all_owned (before @ [e]) ev)"

lemma all_owned_append [simp]: "all_owned h (xs @ ys) \<longleftrightarrow> all_owned h xs \<and> all_owned (h @ xs) ys"
  by (induction xs arbitrary: h) auto

section \<open>The logic\<close>

text \<open>
  \<open>owns P Q m\<close>: from a history in \<open>P\<close>, what \<open>m\<close> creates is owned, and when it returns \<open>a\<close> the history is in \<open>Q a\<close>.
\<close>

definition owns :: "(trace \<Rightarrow> bool) \<Rightarrow> ('a \<Rightarrow> trace \<Rightarrow> bool) \<Rightarrow> 'a go \<Rightarrow> bool" where
  "owns P Q m \<longleftrightarrow> (\<forall>E h t r t' ev. P h \<longrightarrow> m E h t = Some (r, t', ev) \<longrightarrow>
     all_owned h ev \<and> (\<forall>a. r = Ok a \<longrightarrow> Q a (h @ ev)))"

named_theorems owns_rules \<open>what is created under whom\<close>

lemma ownsD: "owns P Q m \<Longrightarrow> P h \<Longrightarrow> m E h t = Some (r, t', ev) \<Longrightarrow> all_owned h ev \<and> (\<forall>a. r = Ok a \<longrightarrow> Q a (h @ ev))"
  unfolding owns_def by blast

lemma owns_ret: "(\<And>h. P h \<Longrightarrow> Q a h) \<Longrightarrow> owns P Q (ret a)"
  and owns_fail [owns_rules]: "owns P Q (fail e)" and owns_panic [owns_rules]: "owns P Q (panic s)"
  by (simp_all add: owns_def)

lemma owns_if [owns_rules]: "(b \<Longrightarrow> owns P Q m) \<Longrightarrow> (\<not> b \<Longrightarrow> owns P Q n) \<Longrightarrow> owns P Q (if b then m else n)"
  by simp

lemma owns_sum [owns_rules]:
  "(\<And>e. x = Inl e \<Longrightarrow> owns P Q (m e)) \<Longrightarrow> (\<And>y. x = Inr y \<Longrightarrow> owns P Q (n y)) \<Longrightarrow>
   owns P Q (case x of Inl e \<Rightarrow> m e | Inr y \<Rightarrow> n y)"
  by (cases x) auto

lemma owns_option [owns_rules]:
  "(x = None \<Longrightarrow> owns P Q m) \<Longrightarrow> (\<And>y. x = Some y \<Longrightarrow> owns P Q (n y)) \<Longrightarrow>
   owns P Q (case x of None \<Rightarrow> m | Some y \<Rightarrow> n y)"
  by (cases x) auto

lemma owns_andThen:
  assumes m: "owns P R m" and k: "\<And>a. owns (R a) Q (k a)"
  shows "owns P Q (andThen m k)"
  unfolding owns_def
proof (intro allI impI)
  fix E h t r t' ev
  assume P: "P h" and "andThen m k E h t = Some (r, t', ev)"
  from this(2) show "all_owned h ev \<and> (\<forall>a. r = Ok a \<longrightarrow> Q a (h @ ev))"
  proof (cases rule: andThen_SomeE)
    case (ok a t1 ev1 ev2)
    from ownsD [OF m P ok(1)] have "all_owned h ev1" "R a (h @ ev1)" by simp_all
    with ownsD [OF k _ ok(2)] ok(3) show ?thesis by simp
  qed (use ownsD [OF m P] in auto)
qed

lemma owns_weaken: "owns P R m \<Longrightarrow> (\<And>a h. R a h \<Longrightarrow> Q a h) \<Longrightarrow> owns P Q m"
  unfolding owns_def by blast

text \<open>The history ends with an object of these metadata in hand.\<close>

abbreviation holds :: "ObjectMeta \<Rightarrow> trace \<Rightarrow> bool" where
  "holds m h \<equiv> map_option Meta (last_object h) = Some m"

abbreviation holds_object :: "Workspace \<Rightarrow> trace \<Rightarrow> bool" where
  "holds_object w \<equiv> holds (Meta w)"

text \<open>Requests that neither create an object nor read or write a Workspace.\<close>

fun creates :: "request \<Rightarrow> bool" where
  "creates (Kube (Create_ConfigMap c)) = True"
| "creates (Kube (Create_Secret s)) = True"
| "creates q = False"

fun plain :: "request \<Rightarrow> bool" where
  "plain (Kube (Get_Workspace nn)) = False"
| "plain (Kube (Update_Workspace w)) = False"
| "plain (Kube (UpdateStatus_Workspace w)) = False"
| "plain q = (\<not> creates q)"

lemma owned_trivially: "\<not> creates q \<Longrightarrow> owned h q"
  by (cases q rule: creates.cases) auto

lemma answered_plain: "plain q \<Longrightarrow> answered (q, a) = None"
  by (cases q rule: plain.cases) auto

lemma plain_creates: "plain q \<Longrightarrow> \<not> creates q"
  by (cases q rule: plain.cases) auto

lemma plain_requests [simp]:
  "is_StateVersions q \<Longrightarrow> plain q" "workspace_sync_request q \<Longrightarrow> plain q" "is_Notifications q \<Longrightarrow> plain q"
  "variables_request q \<Longrightarrow> \<not> creates q" "triggers_request q \<Longrightarrow> \<not> creates q" "start_request q \<Longrightarrow> \<not> creates q"
  "finalize_request i q \<Longrightarrow> \<not> creates q"
  by (cases q rule: plain.cases; auto)+

lemma owned_none: "\<forall>e \<in> set ev. \<not> creates (fst e) \<Longrightarrow> all_owned h ev"
  by (induction ev arbitrary: h) (auto simp: owned_trivially)

lemma last_object_plain: "\<forall>e \<in> set ev. plain (fst e) \<Longrightarrow> last_object (h @ ev) = last_object h"
proof (induction ev rule: rev_induct)
  case (snoc e ev)
  then show ?case unfolding append_assoc [symmetric] last_object_simps by (cases e) (simp add: answered_plain)
qed simp

lemma owns_none: "emits (\<lambda>q. \<not> creates q) m \<Longrightarrow> owns P (\<lambda>_ _. True) m"
  unfolding owns_def by (blast intro: owned_none dest: emitsD)

lemma owns_plain: "emits plain m \<Longrightarrow> owns (holds w) (\<lambda>_. holds w) m"
proof -
  assume m: "emits plain m"
  have "all_owned h ev \<and> last_object (h @ ev) = last_object h" if "m E h t = Some (r, t', ev)" for E h t r t' ev
    using emitsD [OF m that] by (auto simp: last_object_plain intro!: owned_none plain_creates)
  then show ?thesis unfolding owns_def by metis
qed

lemma owns_skip: "emits plain m \<Longrightarrow> (\<And>a. owns (holds w) Q (k a)) \<Longrightarrow> owns (holds w) Q (andThen m k)"
  by (rule owns_andThen [OF owns_plain])

lemma owns_object:
  "owns P holds_object (kube_Get_Workspace nn)" "owns P holds_object (kube_Update_Workspace w)"
  "owns P holds_object (kube_UpdateStatus_Workspace w)"
  by (auto simp: owns_def kube_defs call_Some split: sum.splits option.splits elim!: as_resource.elims)

lemma owns_attempt:
  "owns P Q m \<Longrightarrow> owns P (\<lambda>res h. case res of Inl e \<Rightarrow> True | Inr a \<Rightarrow> Q a h) (attempt m)"
  unfolding owns_def attempt_Some by (auto split: sum.split)

section \<open>A reconcile\<close>

text \<open>The ConfigMap and the Secret are created with the reference to the Workspace they are made for.\<close>

lemma controlled:
  assumes "SetControllerReference (Meta w) obj = Inr obj'"
  shows "list_ex (workspace_controls w) (om_OwnerReferences obj')"
  using SetControllerReference_owned(1) [OF assms]
  by (auto simp: list_ex_iff workspace_controls_def controller_ref_def intro: bexI [rotated])

lemma workspace_controls_cong: "Meta v = Meta w \<Longrightarrow> workspace_controls v = workspace_controls w"
  by (auto simp: workspace_controls_def fun_eq_iff)

lemma owns_create:
  "list_ex (workspace_controls w) (om_OwnerReferences (cm_Meta c)) \<Longrightarrow> om_Namespace (cm_Meta c) = ws_Namespace w \<Longrightarrow>
     om_Name (cm_Meta c) = ws_Name w \<Longrightarrow> owns (holds_object w) (\<lambda>_. holds_object w) (kube_Create_ConfigMap c)"
  "list_ex (workspace_controls w) (om_OwnerReferences (sec_Meta s)) \<Longrightarrow> om_Namespace (sec_Meta s) = ws_Namespace w \<Longrightarrow>
     om_Name (sec_Meta s) = ws_Name w @ ''-outputs'' \<Longrightarrow> owns (holds_object w) (\<lambda>_. holds_object w) (kube_Create_Secret s)"
  by (auto simp: owns_def kube_defs perform_def call_Some split: sum.splits option.splits)
    (metis workspace_controls_cong)+

lemma owns_UpsertTerraformConfig: "owns (holds_object w) (\<lambda>_ _. True) (UpsertTerraformConfig w template)"
  unfolding UpsertTerraformConfig_def Let_def
  by (rule owns_skip; intro owns_rules owns_andThen [OF owns_create(1)] owns_none emits_rules)
    (auto simp: configMapForTerraform_def new_meta_def intro: owns_ret dest: controlled SetControllerReference_owned(2,3))

lemma owns_UpsertSecretOutputs: "owns (holds_object w) (\<lambda>_. holds_object w) (UpsertSecretOutputs w outputs)"
  unfolding UpsertSecretOutputs_def Let_def
  by (rule owns_skip; intro owns_rules owns_create(2) owns_plain emits_rules)
    (auto simp: secretForOutputs_def new_meta_def intro: owns_ret dest: controlled SetControllerReference_owned(2,3))

lemma owns_write: "owns (holds_object w) holds_object (if b then kube_UpdateStatus_Workspace w' else ret w)"
  by (intro owns_if owns_object owns_ret)

lemma owns_reconcileWorkspace: "owns (holds_object w) holds_object (reconcileWorkspace w)"
proof -
  have bound: "owns (holds_object w) holds_object (recordWorkspaceID ws w)" for ws w
    unfolding recordWorkspaceID_def by (rule owns_write)
  have adopt: "owns (holds_object w) holds_object (adoptRun ws w)" for ws w
    unfolding adoptRun_def
    by (intro owns_rules owns_ret owns_andThen [OF owns_object(3)] owns_skip emits_rules) simp_all
  have finalizer: "owns (holds_object w) holds_object
      (if \<not> contains (om_Finalizers (Meta w)) workspaceFinalizer then addFinalizer w else ret w)" for w
    unfolding addFinalizer_def by (intro owns_if owns_object owns_ret)
  have "emits plain (CheckWorkspace name w)" for name
    by (intro emits_rules) simp
  then show ?thesis
    unfolding reconcileWorkspace_def
    by (rule owns_skip) (rule owns_andThen [OF bound], rule owns_andThen [OF adopt], rule finalizer)
qed

lemma owns_runInProgress: "owns (holds_object w) (\<lambda>(b, w). holds_object w) (runInProgress w)"
  unfolding runInProgress_def
  by (intro owns_if owns_ret owns_skip owns_andThen [OF owns_write]) (auto intro!: emits_rules)

lemma owns_processFinishedRun: "owns (holds_object w) holds_object (processFinishedRun C w)"
proof -
  have secret: "owns (holds_object w) holds_object (andThen (UpsertSecretOutputs w outputs) (\<lambda>_. ret w))" for outputs w
    by (rule owns_andThen [OF owns_UpsertSecretOutputs]) (rule owns_ret)
  have status: "owns (holds_object w) holds_object (if b then andThen (kube_UpdateStatus_Workspace w') (\<lambda>w.
      andThen (record_event w ''Normal'' ''WorkspaceEvent'' (msg w)) (\<lambda>_. ret w)) else ret w)" for b w w' msg
    by (intro owns_if owns_ret owns_andThen [OF owns_object(3)] owns_skip emits_rules) simp_all
  show ?thesis
    unfolding processFinishedRun_def
    by (rule owns_if; rule owns_skip; (rule owns_ret owns_andThen [OF status secret] | intro emits_rules); simp)
qed

lemma owns_reconcileFinished: "owns (holds_object w) (\<lambda>_ _. True) (reconcileFinished C w)"
proof -
  have template: "owns (holds_object w) (\<lambda>_ _. True) (updateTerraformTemplate w)" for w
    unfolding updateTerraformTemplate_def
    by (intro owns_rules owns_ret owns_UpsertTerraformConfig) simp
  show ?thesis
    unfolding reconcileFinished_def
    by (rule owns_andThen [OF owns_processFinishedRun], rule owns_andThen [OF template], rule owns_none)
      (auto simp: split_def intro!: emits_rules)
qed

lemma owns_reconcileLive: "owns (holds_object w) (\<lambda>_ _. True) (reconcileLive C w)"
proof -
  have go: "owns (holds_object w) (\<lambda>_ _. True) (andThen (runInProgress w) (\<lambda>(shouldRequeue, w).
      if shouldRequeue then ret (no_requeue\<lparr>Requeue := True\<rparr>) else reconcileFinished C w))" for w
    by (rule owns_andThen [OF owns_runInProgress]) (simp only: split_def, intro owns_if owns_ret owns_reconcileFinished, simp)
  show ?thesis
    unfolding reconcileLive_def
    by (rule owns_andThen [OF owns_reconcileWorkspace], rule owns_skip [OF _ go]) (intro emits_rules; simp)
qed

lemma owns_initialize:
  "owns (\<lambda>_. True) (\<lambda>found h. case found of None \<Rightarrow> True | Some w \<Rightarrow> holds_object w h) (initializeReconciliation nn)"
  unfolding initializeReconciliation_def
proof (rule owns_andThen [OF owns_attempt [OF owns_object(1)]])
  fix res :: "go_error + Workspace"
  show "owns (\<lambda>h. case res of Inl e \<Rightarrow> True | Inr w \<Rightarrow> holds_object w h)
      (\<lambda>found h. case found of None \<Rightarrow> True | Some w \<Rightarrow> holds_object w h)
      (case res of Inl err \<Rightarrow> if k8s_IsNotFound err then ret None else fail err
       | Inr w \<Rightarrow> andThen (if sp_VCS (Spec w) = None \<and> sp_Module (Spec w) = None
            then record_event w ''Warning'' ''WorkspaceEvent''
              (''Either VCS or Module need to be specified in spec for workspace '' @ ws_Name w)
            else ret ()) (\<lambda>_.
          andThen (set_client (\<lambda>t. t\<lparr>tf_Organization := sp_Organization (Spec w)\<rparr>)) (\<lambda>_.
          andThen CheckOrganization (\<lambda>_.
          andThen (set_client (\<lambda>t. t\<lparr>tf_SecretsMountPath := sp_SecretsMountPath (Spec w)\<rparr>)) (\<lambda>_.
          andThen CheckSecretsMountPath (\<lambda>_. ret (Some w)))))))"
  proof (cases res)
    case (Inr w)
    show ?thesis unfolding Inr sum.case
      by (intro owns_skip owns_ret emits_rules) simp_all
  qed (auto intro: owns_ret owns_fail)
qed

lemma Reconcile_owned:
  assumes "Reconcile C nn E h t = Some (r, t', ev)"
  shows "all_owned h ev"
  using assms
proof (cases rule: Reconcile_courses)
  case (stopped r0)
  with ownsD [OF owns_initialize _ stopped(1)] show ?thesis by simp
next
  case (marked w t1 ev1 ev2 r1)
  have "emits (\<lambda>q. \<not> creates q) (condDeleteWorkspace w)" by (intro emits_rules) simp_all
  from emitsD [OF this marked(3)] have "all_owned (h @ ev1) ev2" by (intro owned_none) blast
  with ownsD [OF owns_initialize _ marked(1)] marked(5) show ?thesis by simp
next
  case (live w t1 ev1 ev2)
  from ownsD [OF owns_initialize _ live(1)] have "all_owned h ev1" "holds_object w (h @ ev1)" by simp_all
  with ownsD [OF owns_reconcileLive _ live(3)] live(4) show ?thesis by simp
qed

text \<open>All that the operator ever creates.\<close>

lemma operator_owned:
  assumes "controller_steps C E mapper ws n (controller_start t now) s" and "cs_history s = before @ (q, a) # after"
  shows "owned before q"
proof -
  have "all_owned [] (cs_history s)"
    by (rule controller_history [where I = "\<lambda>h c. all_owned [] h", OF assms(1)]) (use Reconcile_owned in auto)
  with assms(2) show ?thesis by simp
qed

end
