(* ===== verification/Request_Types.thy ===== *)
theory Request_Types
  imports Own_Organization Object_Owners "HOL-Library.Sublist"
begin

text \<open>
  The types of requests: what a service can rely on in everything it is sent. Names and IDs go into the path of a
  URL, so that a slash or a space in one of them would address something else; options have their mandatory parts;
  objects that are created belong to the Workspace they are made for, so that they go when it goes; and the only file
  that is written is the configuration.
\<close>

section \<open>Well-formed requests\<close>

abbreviation valid_ID :: "string \<Rightarrow> bool" where
  "valid_ID s \<equiv> validStringID (Some s)"

fun well_formed :: "request \<Rightarrow> bool" where
  "well_formed (Organizations (Organization_Read o1)) \<longleftrightarrow> valid_ID o1"
| "well_formed (Organizations (SSHKey_List o1)) \<longleftrightarrow> valid_ID o1"
| "well_formed (Organizations (AgentPool_List o1 n)) \<longleftrightarrow> valid_ID o1"
| "well_formed (Workspaces (Workspace_Read o1 n)) \<longleftrightarrow> valid_ID o1 \<and> valid_ID n"
| "well_formed (Workspaces (Workspace_ReadByID i)) \<longleftrightarrow> valid_ID i"
| "well_formed (Workspaces (Workspace_Create o1 c)) \<longleftrightarrow> valid_ID o1 \<and> valid_WorkspaceCreateOptions c = None"
| "well_formed (Workspaces (Workspace_Update o1 n u)) \<longleftrightarrow>
     valid_ID o1 \<and> valid_ID n \<and> valid_WorkspaceUpdateOptions u = None"
| "well_formed (Workspaces (Workspace_DeleteByID i)) \<longleftrightarrow> valid_ID i"
| "well_formed (Workspaces (Workspace_AssignSSHKey i k)) \<longleftrightarrow> valid_ID i \<and> valid_ID k"
| "well_formed (Workspaces (Workspace_UnassignSSHKey i)) \<longleftrightarrow> valid_ID i"
| "well_formed (Variables (Variable_List i n)) \<longleftrightarrow> valid_ID i"
| "well_formed (Variables (Variable_Create i c)) \<longleftrightarrow> valid_ID i \<and> validString (vco_Key c) \<and> vco_Category c \<noteq> None"
| "well_formed (Variables (Variable_Update i v u)) \<longleftrightarrow> valid_ID i \<and> valid_ID v"
| "well_formed (Variables (Variable_Delete i v)) \<longleftrightarrow> valid_ID i \<and> valid_ID v"
| "well_formed (Runs (Run_List i)) \<longleftrightarrow> valid_ID i"
| "well_formed (Runs (Run_Create c)) \<longleftrightarrow> rco_Workspace c \<noteq> None \<and>
     (case rco_Message c of None \<Rightarrow> False | Some m \<Rightarrow> prefix TerraformOperator m)"
| "well_formed (Runs (Run_Read i)) \<longleftrightarrow> valid_ID i"
| "well_formed (Runs (Run_ForceCancel i c)) \<longleftrightarrow> valid_ID i"
| "well_formed (RunTriggers (RunTrigger_List i ty)) \<longleftrightarrow> valid_ID i \<and> ty = ''inbound''"
| "well_formed (RunTriggers (RunTrigger_Create i src)) \<longleftrightarrow> valid_ID i"
| "well_formed (RunTriggers (RunTrigger_Delete i)) \<longleftrightarrow> valid_ID i"
| "well_formed (ConfigVersions (ConfigVersion_List i)) \<longleftrightarrow> valid_ID i"
| "well_formed (ConfigVersions (ConfigVersion_Create i a b)) \<longleftrightarrow> valid_ID i \<and> a = Some False \<and> b = Some False"
| "well_formed (ConfigVersions (ConfigVersion_Read i)) \<longleftrightarrow> valid_ID i"
| "well_formed (Notifications (Notification_List i)) \<longleftrightarrow> valid_ID i"
| "well_formed (Notifications (Notification_Create i c)) \<longleftrightarrow> valid_ID i \<and> valid_NotificationCreateOptions c = None"
| "well_formed (Notifications (Notification_Delete i)) \<longleftrightarrow> valid_ID i"
| "well_formed (StateVersions (StateVersion_Current i)) \<longleftrightarrow> valid_ID i"
| "well_formed (StateVersions (StateVersion_Download url)) \<longleftrightarrow> url \<noteq> ''''"
| "well_formed (Kube (Create_ConfigMap c)) \<longleftrightarrow> cm_Data c \<noteq> None"
| "well_formed (Kube (Update_ConfigMap c)) \<longleftrightarrow> cm_Data c \<noteq> None"
| "well_formed (Kube (Create_Secret s)) \<longleftrightarrow> sec_Data s \<noteq> None"
| "well_formed (Kube (Update_Secret s)) \<longleftrightarrow> sec_Data s \<noteq> None"
| "well_formed (Host (Mkdir f)) \<longleftrightarrow> f = moduleDirectory"
| "well_formed (Host (WriteFile f s)) \<longleftrightarrow> f = configurationFilePath"
| "well_formed (Host (Pack f)) \<longleftrightarrow> f = moduleDirectory"
| "well_formed (Kube (Record_Event w ty reason m)) \<longleftrightarrow> ty \<in> {''Normal'', ''Warning''} \<and> reason = ''WorkspaceEvent''"
| "well_formed (Host (Sleep n)) \<longleftrightarrow> n = interval"
| "well_formed q \<longleftrightarrow> True"

text \<open>A valid ID is not empty and has neither slashes nor spaces nor anything else that means something in a URL.\<close>

lemma valid_ID_path: "valid_ID s \<Longrightarrow> s \<noteq> '''' \<and> set s \<inter> set ''/?#% '' = {}"
  by (auto simp: validStringID_def list_all_iff) (auto simp: id_char_def)

section \<open>The clients\<close>

named_theorems typed_rules \<open>computations that send well-formed requests\<close>

abbreviation typed :: "'a go \<Rightarrow> bool" where
  "typed \<equiv> emits well_formed"

lemma typed_check_options [typed_rules]: "(e = None \<Longrightarrow> typed m) \<Longrightarrow> typed (check_options e m)"
  unfolding check_options_def by (intro emits_rules)

lemmas typed_structure [typed_rules] = emits_ret emits_fail emits_panic emits_get_client emits_set_client emits_andThen
  emits_attempt emits_notify emits_if emits_option emits_sum emits_Let emits_prod emits_each emits_rewrite_each emits_require
  emits_call emits_perform

lemma typed_tfe [typed_rules]:
  "typed (Organizations_Read x)" "typed (SSHKeys_List x)" "typed (AgentPools_List x n)"
  "typed (Workspaces_Create x co)" "typed (Workspaces_Read x y)" "typed (Workspaces_ReadByID x)"
  "typed (Workspaces_Update x y uo)" "typed (Workspaces_DeleteByID x)"
  "typed (Workspaces_AssignSSHKey x y)" "typed (Workspaces_UnassignSSHKey x)"
  "typed (Variables_List x n)" "typed (Variables_Create x vc)" "typed (Variables_Update x y vu)"
  "typed (Variables_Delete x y)" "typed (Runs_List x)" "typed (Runs_Read x)" "typed (Runs_ForceCancel x c)"
  "typed (RunTriggers_List x ''inbound'')" "typed (RunTriggers_Create x src)" "typed (RunTriggers_Delete x)"
  "typed (ConfigurationVersions_List x)" "typed (ConfigurationVersions_Create x (Some False) (Some False))"
  "typed (ConfigurationVersions_Read x)" "typed (ConfigurationVersions_Upload x moduleDirectory)"
  "typed (NotificationConfigurations_List x)" "typed (NotificationConfigurations_Create x no)"
  "typed (NotificationConfigurations_Delete x)" "typed (StateVersions_Current x)"
  unfolding tfe_defs(3-)
  by (intro typed_rules; (simp add: valid_AssignSSHKeyOptions_def valid_VariableCreateOptions_def split: if_splits; fail)?)+

text \<open>A run is created for a workspace, with a message that names the operator.\<close>

lemma typed_Runs_Create [typed_rules]:
  "(rco_Workspace ro \<noteq> None \<Longrightarrow> well_formed (Runs (Run_Create ro))) \<Longrightarrow> typed (Runs_Create ro)"
  unfolding Runs_Create_def by (intro typed_rules) simp

lemma well_formed_runs [simp]:
  "well_formed (Runs (Run_Create (destroy_options ws)))" "well_formed (Runs (Run_Create (run_options w)))"
  by (simp_all add: destroy_options_def run_options_def)

lemma typed_kube [typed_rules]:
  "typed (kube_Get_Workspace nn)" "typed (kube_Update_Workspace w)" "typed (kube_UpdateStatus_Workspace w)"
  "typed (kube_Get_ConfigMap nn)" "typed (kube_Get_Secret nn)"
  "ty \<in> {''Normal'', ''Warning''} \<Longrightarrow> typed (record_event w ty ''WorkspaceEvent'' m)"
  unfolding kube_defs by (intro typed_rules; simp; fail)+

section \<open>The operations\<close>

lemma typed_resolve [typed_rules]: "typed (GetConfigMapForVariable ns v)" "typed (GetSecretForVariable ns v)"
  unfolding GetConfigMapForVariable_def GetSecretForVariable_def GetSecretData_def by (intro typed_rules)+

lemma typed_variables [typed_rules]: "typed CheckSecretsMountPath" "typed (CheckVariables name spec)"
proof -
  show "typed CheckSecretsMountPath"
    unfolding CheckSecretsMountPath_def by (intro typed_rules) simp_all
  have "typed (getSensitiveVariablesToUpdate spec remote path)" for remote path
    by (induction spec) (auto simp: Let_def checkAndRetrieveIfSensitive_def intro!: typed_rules)
  then show "typed (CheckVariables name spec)"
    unfolding CheckVariables_def listVariables_def createVariablesOnTFC_def CreateTerraformVariable_def
      checkAndRetrieveIfSensitive_def generateUpdateVariableList_def deleteVariablesFromTFC_def DeleteVariable_def
      UpdateTerraformVariables_def
    by (intro typed_rules) simp_all
qed

lemma typed_poll [typed_rules]: "typed (poll runID)"
proof (cases "valid_ID runID")
  case True
  then show ?thesis by (intro emits_poll) simp_all
qed (auto intro: emitsI simp: poll_invalid)

lemma typed_runs [typed_rules]:
  "typed (DeleteRuns w)" "typed (CheckRun i)" "typed (CreateConfigurationVersion w)"
  "typed (UploadConfigurationFile u)" "typed (DeleteResources w)"
  unfolding run_defs Let_def by (intro typed_rules well_formed_runs)+

lemma typed_run_triggers [typed_rules]: "typed (CheckRunTriggers name spec)"
  unfolding run_trigger_defs by (intro typed_rules)

lemma typed_workspaces [typed_rules]:
  "typed CheckOrganization" "typed (CheckWorkspace name w)" "typed (DeleteWorkspace i)"
  unfolding workspace_defs Let_def by (intro typed_rules)+

lemma typed_CheckNotifications [typed_rules]: "typed (CheckNotifications w)"
  unfolding CheckNotifications_def Let_def by (intro typed_rules)

lemma typed_UpsertTerraformConfig [typed_rules]: "typed (UpsertTerraformConfig w template)"
  unfolding UpsertTerraformConfig_def kube_defs
  by (intro typed_rules) (auto simp: configMapForTerraform_def)

lemma typed_UpsertSecretOutputs [typed_rules]: "typed (UpsertSecretOutputs w outputs)"
  unfolding UpsertSecretOutputs_def kube_defs
  by (intro typed_rules) (auto simp: secretForOutputs_def outputsToMap_def)

lemma typed_or_diverge [typed_rules]: "typed (or_diverge x)"
  by (auto simp: or_diverge_def intro: emitsI split: option.splits)

lemma typed_CheckOutputs [typed_rules]: "typed (CheckOutputs C i r)"
  unfolding output_defs StateVersions_Download_def by (intro typed_rules) simp

section \<open>A reconcile\<close>

lemma typed_condDelete [typed_rules]: "typed (condDeleteWorkspace w)"
  unfolding condDeleteWorkspace_def finalizeWorkspace_def CheckWorkspacebyID_def Let_def by (intro typed_rules)

lemma typed_initialize [typed_rules]: "typed (initializeReconciliation nn)"
  unfolding initializeReconciliation_def by (intro typed_rules) simp_all

lemma typed_reconcileWorkspace [typed_rules]: "typed (reconcileWorkspace w)"
  unfolding reconcileWorkspace_def recordWorkspaceID_def adoptRun_def addFinalizer_def by (intro typed_rules) simp

lemma typed_startRun [typed_rules]: "typed (startRun w)"
  unfolding startRun_def prepareVCSRun_def prepareModuleRun_def Let_def
  by (intro typed_rules well_formed_runs) simp_all

lemma typed_reconcileLive [typed_rules]: "typed (reconcileLive C w)"
  unfolding reconcileLive_def reconcileFinished_def reconcileNotifications_def runInProgress_def processFinishedRun_def
    updateTerraformTemplate_def updateVariables_def resolveVariable_def updateRunTriggers_def
  by (intro typed_rules) simp_all

lemma typed_Reconcile: "typed (Reconcile C nn)"
  unfolding Reconcile_live by (intro typed_rules)

section \<open>The operator\<close>

text \<open>
  C15. Everything that the operator sends in the reconciles that end is well-formed, whatever the objects say and whatever
  it was answered before: a name or ID that becomes part of a URL is never empty and has no character that means
  something there, options have the parts that their services demand (the key and category of a variable, the
  workspace of a run, the destination and name of a notification, no agent pool without the agent mode), a state file
  is never asked for from a blank URL, the only file that is written is the configuration, and the only waits are of
  thirty seconds. And a ConfigMap or Secret is only created for the Workspace that the API server answered
  last before: in its namespace, with its name (the Secret's ends in \<open>-outputs\<close>), and with an owner reference that
  makes this Workspace, by name and UID, its controller.
\<close>
theorem operator_requests_well_formed:
  assumes "controller_steps C E mapper ws n (controller_start t now) s" and "cs_history s = before @ (q, a) # after"
  shows "well_formed q \<and> owned before q"
proof -
  have "\<forall>e \<in> set (cs_history s). well_formed (fst e)"
    by (rule controller_history [where I = "\<lambda>h c. \<forall>e \<in> set h. well_formed (fst e)", OF assms(1)])
      (use emitsD [OF typed_Reconcile] in auto)
  with assms(2) operator_owned [OF assms] show ?thesis by simp
qed

section \<open>An example\<close>

text \<open>The Secret of a Workspace is missing, and the API server does not let the operator create it.\<close>

abbreviation example_hello :: Workspace where
  "example_hello \<equiv> example_vcs '''' ''''"

definition example_secret_name :: NamespacedName where
  "example_secret_name = \<lparr>nn_Namespace = ''prod'', nn_Name = ''hello-outputs''\<rparr>"

definition forbidding_world :: env where
  "forbidding_world h q = (case q of
     Kube (Get_Secret nn) \<Rightarrow> Inl (StatusError ''NotFound'' ''not found'')
   | Kube (Create_Secret s) \<Rightarrow> Inl (ErrorString ''forbidden'')
   | _ \<Rightarrow> example_world example_hello h q)"

definition example_secret_made :: Secret where
  "example_secret_made = \<lparr>sec_Meta = (new_meta ''hello-outputs'' ''prod'')\<lparr>om_OwnerReferences :=
     [controller_ref (Meta example_hello)]\<rparr>, sec_Data = Some []\<rparr>"

lemma example_hello_start:
  "reachFinished example_name forbidding_world [] t =
    Some (Ok (Inr example_hello), example_bound_client, example_syncing example_hello)"
proof -
  let ?read = "[(Workspaces (Workspace_Read ''world'' ''prod-hello''), Inr (R_Workspace example_remote))]"
  have "initializeReconciliation example_name forbidding_world [] t =
      Some (Ok (Some example_hello), example_bound_client, example_entry example_hello)"
    by (rule example_initialize) (simp_all add: forbidding_world_def)
  moreover have "CheckWorkspace (workspace_name example_hello) example_hello forbidding_world h example_bound_client =
      Some (Ok example_remote, example_bound_client, ?read)" for h
    by (simp add: CheckWorkspace_def Workspaces_Read_def sync_ssh_key_def sync_version_def sync_agent_pool_def
        forbidding_world_def go_defs Let_def example_bound_client_def validStringID_def id_char_def example_vcs_spec
        example_workspace_def example_remote_def new_tfc_Workspace_def)
  then have "reconcileWorkspace example_hello forbidding_world h example_bound_client =
      Some (Ok example_hello, example_bound_client, ?read)" for h
    by (rule reconcileWorkspace_in_sync) auto
  moreover have "reconcileNotifications example_hello forbidding_world h example_bound_client =
      Some (Ok (), example_bound_client, [(Notifications (Notification_List ''ws-1''), Inr (R_Notifications []))])" for h
    using notifications_none [of example_hello forbidding_world h]
    by (simp add: validStringID_def id_char_def forbidding_world_def)
  ultimately show ?thesis
    by (simp add: reachFinished_def runInProgress_def andThen_def ret_def example_syncing_def)
qed

definition example_forbidden :: trace where
  "example_forbidden = example_syncing example_hello @
     [(Kube (Get_Secret \<lparr>nn_Namespace = ''prod'', nn_Name = ''hello-outputs''\<rparr>), Inl (StatusError ''NotFound'' ''not found'')),
      (Kube (Create_Secret example_secret_made), Inl (ErrorString ''forbidden''))]"

lemma example_forbidden_run:
  "Reconcile C example_name forbidding_world [] t =
     Some (Err (ErrorString ''forbidden''), example_bound_client, example_forbidden)"
  by (simp add: Reconcile_halves example_hello_start reconcileFinished_def processFinishedRun_def isError_def andThen_def
      ret_def perform_def call_def attempt_def fail_def Let_def CheckOutputs_def UpsertSecretOutputs_def outputsToMap_def
      kube_Get_Secret_def kube_Create_Secret_def k8s_IsNotFound_def secretForOutputs_def SetControllerReference_def
      validateOwner_def new_meta_def forbidding_world_def example_forbidden_def example_secret_made_def)

lemma example_forbidden_path:
  "\<exists>s. controller_steps no_codecs forbidding_world (\<lambda>_ _ _. Inr False) example_watches
     (MaxConcurrentReconciles 0) (controller_start example_client 0) s \<and> cs_history s = example_forbidden"
proof -
  let ?step = "controller_step no_codecs forbidding_world (\<lambda>_ _ _. Inr False) example_watches (MaxConcurrentReconciles 0)"
  obtain s where work: "processWorkItem no_codecs forbidding_world 0 example_name example_busy = Some s"
    and h: "cs_history s = example_forbidden"
    by (simp add: example_forbidden_run processWorkItem_def reconcileHandler_def WorkspaceReconciler_Reconcile_def
        example_busy_def controller_start_def newQueue_def AddRateLimited_def When_def AddAfter_def item_delay_eq Let_def)
  have "?step example_busy s"
    by (rule controller_step.handle [OF _ _ work]) (simp_all add: example_busy_def controller_start_def)
  moreover have "?step\<^sup>*\<^sup>* (controller_start example_client 0) example_busy" by (rule example_path) (simp add: one_worker)
  ultimately show ?thesis using h by (meson rtranclp.rtrancl_into_rtrancl)
qed

lemma operator_requests_well_formed_witness:
  "list_ex (workspace_controls example_hello) (om_OwnerReferences (sec_Meta example_secret_made)) \<and>
   om_Name (sec_Meta example_secret_made) = ''hello-outputs''"
proof -
  let ?before = "example_syncing example_hello @
     [(Kube (Get_Secret \<lparr>nn_Namespace = ''prod'', nn_Name = ''hello-outputs''\<rparr>), Inl (StatusError ''NotFound'' ''not found''))]"
  obtain s where "controller_steps no_codecs forbidding_world (\<lambda>_ _ _. Inr False) example_watches
     (MaxConcurrentReconciles 0) (controller_start example_client 0) s" "cs_history s = example_forbidden"
    using example_forbidden_path by blast
  from operator_requests_well_formed [OF this(1), of ?before "Kube (Create_Secret example_secret_made)"] this(2)
  have "owned ?before (Kube (Create_Secret example_secret_made))" by (simp add: example_forbidden_def)
  then show ?thesis
    by (simp add: example_syncing_def example_entry_def last_object_def example_secret_made_def)
qed

end
