(* ===== verification/Restart_Safe.thy ===== *)
theory Restart_Safe
  imports Own_Organization
begin

text \<open>
  The operator keeps nothing between reconciles: the fields of the client that one reconcile leaves behind are
  dead when the next begins. So a process that is started again, with a fresh client, goes on as the old one would have.
\<close>

section \<open>Runs from two clients\<close>

text \<open>
  \<open>alike P m Q\<close>: from two clients in the relation \<open>P\<close>, the computation \<open>m\<close> has the same outcome and sends
  the same requests, and when it returns a value the clients it leaves are in the relation \<open>Q\<close>.
\<close>

definition alike :: "(tfclient \<Rightarrow> tfclient \<Rightarrow> bool) \<Rightarrow> 'a go \<Rightarrow> (tfclient \<Rightarrow> tfclient \<Rightarrow> bool) \<Rightarrow> bool" where
  "alike P m Q \<longleftrightarrow> (\<forall>E h t u. P t u \<longrightarrow>
     rel_option (\<lambda>(r, t', ev) (r', u', ev'). r = r' \<and> ev = ev' \<and> (\<forall>a. r = Ok a \<longrightarrow> Q t' u')) (m E h t) (m E h u))"

abbreviation any_clients :: "tfclient \<Rightarrow> tfclient \<Rightarrow> bool" where
  "any_clients t u \<equiv> True"

definition same_organization :: "tfclient \<Rightarrow> tfclient \<Rightarrow> bool" where
  "same_organization t u \<longleftrightarrow> tf_Organization t = tf_Organization u"

named_theorems alike_rules \<open>runs from two clients\<close>

lemma alikeI:
  "(\<And>E h t u. P t u \<Longrightarrow> rel_option (\<lambda>(r, t', ev) (r', u', ev'). r = r' \<and> ev = ev' \<and> (\<forall>a. r = Ok a \<longrightarrow> Q t' u'))
     (m E h t) (m E h u)) \<Longrightarrow> alike P m Q"
  unfolding alike_def by blast

lemma alikeD:
  "alike P m Q \<Longrightarrow> P t u \<Longrightarrow>
   rel_option (\<lambda>(r, t', ev) (r', u', ev'). r = r' \<and> ev = ev' \<and> (\<forall>a. r = Ok a \<longrightarrow> Q t' u')) (m E h t) (m E h u)"
  unfolding alike_def by blast

lemma alike_refl: "alike (=) m (=)"
  by (rule alikeI) (auto intro!: option.rel_refl)

lemma alike_weaken:
  assumes "alike P m Q" "\<And>t u. Q t u \<Longrightarrow> R t u"
  shows "alike P m R"
  by (rule alikeI, rule option.rel_mono_strong [OF alikeD [OF assms(1)]]) (use assms(2) in auto)

lemma alike_ret [alike_rules]: "alike P (ret a) P" and alike_fail [alike_rules]: "alike P (fail e) Q"
  by (simp_all add: alike_def ret_def fail_def)

lemma alike_call: "alike P (call q dec) P"
  by (simp add: alike_def call_def Let_def)

lemma alike_perform: "alike P (perform q) P"
  unfolding perform_def by (rule alike_call)

lemma alike_attempt_call: "alike P (attempt (call q dec)) P"
  by (simp add: alike_def call_def attempt_def Let_def split: sum.splits option.splits)

lemma alike_set_client: "(\<And>t u. P t u \<Longrightarrow> Q (f t) (f u)) \<Longrightarrow> alike P (set_client f) Q"
  by (simp add: alike_def set_client_def)

lemma alike_andThen:
  assumes m: "alike P m Q" and k: "\<And>a. alike Q (k a) R"
  shows "alike P (andThen m k) R"
proof (rule alikeI)
  fix E h t u
  assume "P t u"
  from alikeD [OF m this, of E h]
  show "rel_option (\<lambda>(r, t', ev) (r', u', ev'). r = r' \<and> ev = ev' \<and> (\<forall>a. r = Ok a \<longrightarrow> R t' u'))
    (andThen m k E h t) (andThen m k E h u)"
  proof (cases rule: option.rel_cases)
    case (Some x y)
    obtain r t1 u1 ev where xy: "x = (r, t1, ev)" "y = (r, u1, ev)" using Some(3) by (cases x; cases y) auto
    show ?thesis
    proof (cases r)
      case (Ok a)
      with Some xy have "Q t1 u1" by simp
      from alikeD [OF k [of a] this, of E "h @ ev"] show ?thesis
        by (cases rule: option.rel_cases) (use Some xy Ok in \<open>auto simp: andThen_def\<close>)
    qed (use Some xy in \<open>auto simp: andThen_def\<close>)
  qed (simp add: andThen_def)
qed

text \<open>Code that uses only the organization of the client.\<close>

lemma alike_CheckOrganization: "alike same_organization CheckOrganization same_organization"
  unfolding alike_def CheckOrganization_def andThen_get_client Organizations_Read_def
  by (auto simp: same_organization_def require_def perform_def call_def fail_def Let_def)

lemma alike_if [alike_rules]:
  "(b \<Longrightarrow> alike P m Q) \<Longrightarrow> (\<not> b \<Longrightarrow> alike P n Q) \<Longrightarrow> alike P (if b then m else n) Q"
  by simp

section \<open>A reconcile\<close>

text \<open>Setting up the client: the organization, which is checked, and then the directory of the secrets.\<close>

lemma alike_set_up:
  "alike any_clients (andThen (set_client (\<lambda>t. t\<lparr>tf_Organization := x\<rparr>)) (\<lambda>_. andThen CheckOrganization (\<lambda>_.
     andThen (set_client (\<lambda>t. t\<lparr>tf_SecretsMountPath := y\<rparr>)) (\<lambda>_. andThen CheckSecretsMountPath (\<lambda>_. ret z))))) (=)"
proof (rule alike_andThen)
  show "alike any_clients (set_client (\<lambda>t. t\<lparr>tf_Organization := x\<rparr>)) same_organization"
    by (rule alike_set_client) (simp add: same_organization_def)
  show "alike same_organization (andThen CheckOrganization (\<lambda>_.
     andThen (set_client (\<lambda>t. t\<lparr>tf_SecretsMountPath := y\<rparr>)) (\<lambda>_. andThen CheckSecretsMountPath (\<lambda>_. ret z)))) (=)"
  proof (rule alike_andThen [OF alike_CheckOrganization], rule alike_andThen [where Q = "(=)"])
    show "alike same_organization (set_client (\<lambda>t. t\<lparr>tf_SecretsMountPath := y\<rparr>)) (=)"
      by (rule alike_set_client) (simp add: same_organization_def)
  qed (rule alike_refl)
qed

text \<open>When there is an object, the client is set up for it; otherwise nothing more happens.\<close>

lemma alike_Reconcile: "alike any_clients (Reconcile C nn) any_clients"
proof -
  have event: "alike P (record_event w x y z) P" for P w x y z
    unfolding record_event_def notify_def perform_def
    by (rule alike_andThen [OF alike_attempt_call]) (rule alike_ret)
  have live: "alike (=) m any_clients" for m :: "Result go"
    by (rule alike_weaken [OF alike_refl]) simp
  have body: "alike any_clients (andThen (if b then record_event w x y z else ret ()) (\<lambda>_. m)) (=)"
    if "alike any_clients m (=)" for b w x y z and m :: "Workspace option go"
    by (rule alike_andThen [OF alike_if that]) (rule event, rule alike_ret)
  have "alike any_clients (andThen (case res of
       Inl err \<Rightarrow> if k8s_IsNotFound err then ret None else fail err
     | Inr w \<Rightarrow>
         andThen (if sp_VCS (Spec w) = None \<and> sp_Module (Spec w) = None
                  then record_event w ''Warning'' ''WorkspaceEvent''
                    (''Either VCS or Module need to be specified in spec for workspace '' @ ws_Name w)
                  else ret ()) (\<lambda>_.
         andThen (set_client (\<lambda>t. t\<lparr>tf_Organization := sp_Organization (Spec w)\<rparr>)) (\<lambda>_.
         andThen CheckOrganization (\<lambda>_.
         andThen (set_client (\<lambda>t. t\<lparr>tf_SecretsMountPath := sp_SecretsMountPath (Spec w)\<rparr>)) (\<lambda>_.
         andThen CheckSecretsMountPath (\<lambda>_.
         ret (Some w))))))) (\<lambda>found. case found of
       None \<Rightarrow> ret no_requeue
     | Some w \<Rightarrow>
         andThen (condDeleteWorkspace w) (\<lambda>deleted.
         if deleted then ret no_requeue else reconcileLive C w))) any_clients" for res
  proof (cases res)
    case (Inl e)
    then show ?thesis by (auto intro: alike_rules)
  next
    case (Inr w)
    show ?thesis
      unfolding Inr sum.case by (rule alike_andThen [OF body [OF alike_set_up] live])
  qed
  then show ?thesis
    unfolding Reconcile_live initializeReconciliation_def andThen_assoc kube_Get_Workspace_def
    by (rule alike_andThen [OF alike_attempt_call])
qed

text \<open>
  C14. The operator has no memory: what a reconcile does, its result and every request it sends in order,
  is the same whatever an earlier reconcile, or none, left in the client that all reconciles share. So it makes no
  difference when the process is stopped and started again between two reconciles.
\<close>
theorem Reconcile_stateless:
  "map_option (\<lambda>(r, t', ev). (r, ev)) (Reconcile C nn E h t) = map_option (\<lambda>(r, u', ev). (r, ev)) (Reconcile C nn E h u)"
  using alikeD [OF alike_Reconcile [of C nn] TrueI, where E = E and h = h and t = t and u = u] by (cases rule: option.rel_cases) auto

section \<open>The operator\<close>

text \<open>The same worker with another client does the same to the queue and sends the same requests.\<close>

lemma AddAfter_client [simp]:
  "AddAfter nn d (s\<lparr>cs_client := u\<rparr>) = map_option (\<lambda>s. s\<lparr>cs_client := u\<rparr>) (AddAfter nn d s)"
  by (simp add: AddAfter_def)

lemma AddRateLimited_client [simp]:
  "AddRateLimited b nn (s\<lparr>cs_client := u\<rparr>) = map_option (\<lambda>s. s\<lparr>cs_client := u\<rparr>) (AddRateLimited b nn s)"
proof -
  have "When b nn (s\<lparr>cs_client := u\<rparr>) = map_prod id (\<lambda>s. s\<lparr>cs_client := u\<rparr>) (When b nn s)"
    by (simp add: When_def)
  then show ?thesis by (simp add: AddRateLimited_def split: prod.split)
qed

lemma Forget_client [simp]: "Forget nn (s\<lparr>cs_client := u\<rparr>) = (Forget nn s)\<lparr>cs_client := u\<rparr>"
  by (simp add: Forget_def)

lemma processWorkItem_client:
  assumes "processWorkItem C E b nn s = Some s'"
  shows "\<exists>u'. processWorkItem C E b nn (s\<lparr>cs_client := u\<rparr>) = Some (s'\<lparr>cs_client := u'\<rparr>)"
proof -
  from assms obtain r t ev where run: "Reconcile C nn E (cs_history s) (cs_client s) = Some (r, t, ev)"
    by (auto simp: processWorkItem_def reconcileHandler_def WorkspaceReconciler_Reconcile_def split: option.splits)
  with Reconcile_stateless [of C nn E "cs_history s" "cs_client s" u] obtain u' where
    run': "Reconcile C nn E (cs_history s) u = Some (r, u', ev)" by (cases "Reconcile C nn E (cs_history s) u") auto
  have late: "s\<lparr>cs_client := v, cs_history := x\<rparr> = s\<lparr>cs_history := x\<rparr>\<lparr>cs_client := v\<rparr>" for v x
    by simp
  have last: "z\<lparr>cs_client := v, cs_queue := q\<rparr> = z\<lparr>cs_queue := q\<rparr>\<lparr>cs_client := v\<rparr>" for z :: controller_state and v q
    by simp
  have "processWorkItem C E b nn (s\<lparr>cs_client := u\<rparr>) =
      map_option (\<lambda>s. s\<lparr>cs_client := u'\<rparr>) (processWorkItem C E b nn s)"
    using run run' by (cases r) (simp_all add: processWorkItem_def reconcileHandler_def
        WorkspaceReconciler_Reconcile_def Let_def late last option.map_comp comp_def if_distrib [of "cs_client_update f" for f] cong: option.map_cong if_cong)
  with assms show ?thesis by auto
qed

text \<open>
  Whatever the controller goes through, it can go through with another client as well, sending the same requests: the
  client is no part of its state.
\<close>

lemma controller_step_client:
  assumes "controller_step C E mapper ws n s s'"
  shows "\<exists>u'. controller_step C E mapper ws n (s\<lparr>cs_client := u\<rparr>) (s'\<lparr>cs_client := u'\<rparr>)"
proof -
  let ?u = "\<lambda>s. s\<lparr>cs_client := u\<rparr>"
  have shape: "?u s\<lparr>cs_queue := q\<rparr> = ?u (s\<lparr>cs_queue := q\<rparr>)" "?u s\<lparr>cs_now := x\<rparr> = ?u (s\<lparr>cs_now := x\<rparr>)"
    "receive_entry nn r (?u s\<lparr>cs_waitingForAdd := rest\<rparr>) = ?u (receive_entry nn r (s\<lparr>cs_waitingForAdd := rest\<rparr>))"
    "pop_entry nn r (?u s) = ?u (pop_entry nn r s)" "ready_entry nn r (?u s) = ready_entry nn r s" for q x nn r rest
    by (simp_all add: receive_entry_def pop_entry_def ready_entry_def)
  from assms show ?thesis
  proof cases
    case (event k e)
    with controller_step.event [of "?u s" C E mapper ws n k e] show ?thesis by (intro exI [of _ u]) (simp add: shape)
  next
    case (take nn q)
    with controller_step.take [of "?u s" n nn q C E mapper ws] show ?thesis by (intro exI [of _ u]) (simp add: shape)
  next
    case (handle nn bucket)
    from processWorkItem_client [OF handle(3), of u] obtain u' where
      "processWorkItem C E bucket nn (?u s) = Some (s'\<lparr>cs_client := u'\<rparr>)" by blast
    with handle controller_step.handle [of "?u s" nn C E bucket] show ?thesis by (intro exI [of _ u']) simp
  next
    case (receive nn r rest)
    with controller_step.receive [of "?u s" nn r rest C E mapper ws n] show ?thesis
      by (intro exI [of _ u]) (simp only: shape, simp)
  next
    case (ready nn r)
    with controller_step.ready [of "?u s" nn r C E mapper ws n] show ?thesis by (intro exI [of _ u]) (simp add: shape)
  next
    case (tick d)
    with controller_step.tick [of "?u s" C E mapper ws n d] show ?thesis by (intro exI [of _ u]) (simp add: shape)
  next
    case stop
    with controller_step.stop [of "?u s" C E mapper ws n] show ?thesis by (intro exI [of _ u]) (simp add: shape)
  qed
qed

lemma restart_simulation:
  "controller_steps C E mapper ws n s s' \<Longrightarrow>
   \<exists>u'. controller_steps C E mapper ws n (s\<lparr>cs_client := u\<rparr>) (s'\<lparr>cs_client := u'\<rparr>)"
proof (induction rule: rtranclp_induct)
  case (step s1 s2)
  from step.IH obtain u1 where "controller_steps C E mapper ws n (s\<lparr>cs_client := u\<rparr>) (s1\<lparr>cs_client := u1\<rparr>)" by blast
  moreover from controller_step_client [OF step(2)] obtain u2 where
    "controller_step C E mapper ws n (s1\<lparr>cs_client := u1\<rparr>) (s2\<lparr>cs_client := u2\<rparr>)" by blast
  ultimately show ?case by (meson rtranclp.rtrancl_into_rtrancl)
qed blast

end
