(* ===== verification/Refused_Triggers.thy ===== *)
theory Refused_Triggers
  imports Reconcile_Runs Reconcile_Lifecycle
begin

text \<open>
  A run trigger that Terraform Cloud refuses. Its creation is tried again at every reconcile and counts as a
  change each time, so the operator never comes to rest. A Hoare logic for one environment, over the value a
  computation returns and the requests it sent, follows the object through a reconcile.
\<close>

section \<open>Successful runs in an environment\<close>

text \<open>\<open>achieves E Q m\<close>: when \<open>m\<close> returns \<open>a\<close> after the requests \<open>ev\<close>, then \<open>Q a ev\<close>.\<close>

definition achieves :: "env \<Rightarrow> ('a \<Rightarrow> trace \<Rightarrow> bool) \<Rightarrow> 'a go \<Rightarrow> bool" where
  "achieves E Q m \<longleftrightarrow> (\<forall>h t a t' ev. m E h t = Some (Ok a, t', ev) \<longrightarrow> Q a ev)"

named_theorems achieves_rules \<open>what successful computations achieve\<close>

lemma achievesI: "(\<And>h t a t' ev. m E h t = Some (Ok a, t', ev) \<Longrightarrow> Q a ev) \<Longrightarrow> achieves E Q m"
  unfolding achieves_def by blast

lemma achievesD: "achieves E Q m \<Longrightarrow> m E h t = Some (Ok a, t', ev) \<Longrightarrow> Q a ev"
  unfolding achieves_def by blast

lemma achieves_weaken: "achieves E P m \<Longrightarrow> (\<And>a ev. P a ev \<Longrightarrow> Q a ev) \<Longrightarrow> achieves E Q m"
  unfolding achieves_def by blast

lemma achieves_basic [achieves_rules]: "Q a [] \<Longrightarrow> achieves E Q (ret a)" "achieves E Q (fail e)"
  by (auto simp: achieves_def)

lemma achieves_andThen:
  assumes "achieves E P m" "\<And>a ev. P a ev \<Longrightarrow> achieves E (\<lambda>b ev'. Q b (ev @ ev')) (k a)"
  shows "achieves E Q (andThen m k)"
  by (rule achievesI) (use achievesD [OF assms(1)] achievesD [OF assms(2)] in \<open>blast elim: andThen_OkE\<close>)

lemma achieves_if [achieves_rules]:
  "(b \<Longrightarrow> achieves E Q m) \<Longrightarrow> (\<not> b \<Longrightarrow> achieves E Q n) \<Longrightarrow> achieves E Q (if b then m else n)"
  by simp

lemma achieves_option [achieves_rules]:
  "(x = None \<Longrightarrow> achieves E Q m) \<Longrightarrow> (\<And>y. x = Some y \<Longrightarrow> achieves E Q (n y)) \<Longrightarrow>
   achieves E Q (case x of None \<Rightarrow> m | Some y \<Rightarrow> n y)"
  by (cases x) auto

lemma achieves_conj: "achieves E P m \<Longrightarrow> achieves E Q m \<Longrightarrow> achieves E (\<lambda>a ev. P a ev \<and> Q a ev) m"
  unfolding achieves_def by blast

text \<open>With only the value in mind.\<close>

abbreviation gives :: "env \<Rightarrow> ('a \<Rightarrow> bool) \<Rightarrow> 'a go \<Rightarrow> bool" where
  "gives E Q \<equiv> achieves E (\<lambda>a ev. Q a)"

lemma gives_any: "achieves E (\<lambda>a ev. True) m"
  by (simp add: achieves_def)

lemma gives_andThen: "gives E P m \<Longrightarrow> (\<And>a. P a \<Longrightarrow> gives E Q (k a)) \<Longrightarrow> gives E Q (andThen m k)"
  by (rule achieves_andThen [where P = "\<lambda>a ev. P a"]) auto

lemma achieves_with: "emits P m \<Longrightarrow> achieves E Q m \<Longrightarrow> achieves E (\<lambda>a ev. Q a ev \<and> (\<forall>e \<in> set ev. P (fst e))) m"
  unfolding achieves_def emits_def by blast

section \<open>The object\<close>

text \<open>
  The API server answers an acknowledged write of an object with the repository and the run triggers it was sent: the
  operator does not change them, and a write over a change of somebody else is refused as a conflict.
\<close>

definition keeps_triggers :: "env \<Rightarrow> bool" where
  "keeps_triggers E \<longleftrightarrow> (\<forall>h w w'. (E h (Kube (UpdateStatus_Workspace w)) = Inr (R_Resource w') \<or>
     E h (Kube (Update_Workspace w)) = Inr (R_Resource w')) \<longrightarrow>
     sp_VCS (Spec w') = sp_VCS (Spec w) \<and> sp_RunTriggers (Spec w') = sp_RunTriggers (Spec w))"

text \<open>A workspace from a repository whose spec names a source of run triggers.\<close>

definition triggered_by :: "string \<Rightarrow> Workspace \<Rightarrow> bool" where
  "triggered_by n w \<longleftrightarrow> sp_VCS (Spec w) \<noteq> None \<and> n \<in> rt_SourceableName ` set (sp_RunTriggers (Spec w))"

lemma triggered_by_updates [simp]:
  "triggered_by n (set_status f w) = triggered_by n w" "triggered_by n (set_finalizers fs w) = triggered_by n w"
  "triggered_by n (set_variables vs w) = triggered_by n w"
  by (simp_all add: triggered_by_def set_finalizers_def set_variables_def)

lemma gives_writes:
  assumes "keeps_triggers E" "triggered_by n w"
  shows "gives E (triggered_by n) (kube_Update_Workspace w)" "gives E (triggered_by n) (kube_UpdateStatus_Workspace w)"
  using assms by (auto simp: achieves_def kube_Ok keeps_triggers_def triggered_by_def)

lemma gives_steps:
  assumes "keeps_triggers E" "triggered_by n w"
  shows "gives E (triggered_by n) (recordWorkspaceID ws w)" "gives E (triggered_by n) (adoptRun ws w)"
    "gives E (triggered_by n) (addFinalizer w)" "gives E (\<lambda>(b, w). triggered_by n w) (runInProgress w)"
    "gives E (triggered_by n) (processFinishedRun C w)"
  using assms
  by (auto simp: achieves_def recordWorkspaceID_def adoptRun_def addFinalizer_def runInProgress_def processFinishedRun_def
      kube_Ok keeps_triggers_def triggered_by_def set_finalizers_def split: if_splits option.splits elim!: andThen_OkE)

lemma gives_reconcileWorkspace:
  assumes "keeps_triggers E" "triggered_by n w"
  shows "gives E (triggered_by n) (reconcileWorkspace w)"
  unfolding reconcileWorkspace_def
  by (rule gives_andThen [OF gives_any], rule gives_andThen [OF gives_steps(1) [OF assms]],
      rule gives_andThen [OF gives_steps(2) [OF assms(1)]], assumption)
    (intro achieves_rules gives_steps(3) [OF assms(1)])

text \<open>Up to the test whether the run is in progress, the recorded status of the run is the one that was read.\<close>

lemma gives_same_status:
  assumes "keeps_status E"
  shows "gives E (\<lambda>w'. st_RunStatus (Status w') = st_RunStatus (Status w)) (recordWorkspaceID ws w)"
    "gives E (\<lambda>w'. st_RunStatus (Status w') = st_RunStatus (Status w)) (adoptRun ws w)"
    "gives E (\<lambda>w'. st_RunStatus (Status w') = st_RunStatus (Status w)) (addFinalizer w)"
  using assms by (auto simp: achieves_def recordWorkspaceID_def adoptRun_def addFinalizer_def kube_Ok keeps_status_def
      set_finalizers_def split: if_splits option.splits elim!: andThen_OkE)

lemma gives_same_reconcileWorkspace:
  assumes "keeps_status E"
  shows "gives E (\<lambda>w'. st_RunStatus (Status w') = st_RunStatus (Status w)) (reconcileWorkspace w)"
proof -
  note same = gives_same_status [OF assms]
  show ?thesis
    unfolding reconcileWorkspace_def
    by (rule gives_andThen [OF gives_any], rule gives_andThen [OF same(1)], rule gives_andThen [OF same(2)],
        intro achieves_rules achieves_weaken [OF same(3)]) simp_all
qed

lemma gives_runInProgress: "gives E (\<lambda>(b, w'). b = isPending (st_RunStatus (Status w))) (runInProgress w)"
  by (auto simp: achieves_def runInProgress_def split: if_splits elim!: andThen_OkE)

lemma gives_updateVariables:
  assumes "triggered_by n w"
  shows "gives E (\<lambda>(b, w). triggered_by n w) (updateVariables w)"
  unfolding updateVariables_def by (intro gives_andThen [OF gives_any] achieves_rules) (simp add: assms)

section \<open>The trigger that is never there\<close>

text \<open>The service lists no trigger with the source: it refuses to create one.\<close>

definition never_lists :: "env \<Rightarrow> string \<Rightarrow> bool" where
  "never_lists E n \<longleftrightarrow> (\<forall>h i remote. E h (RunTriggers (RunTrigger_List i ''inbound'')) = Inr (R_RunTriggers remote) \<longrightarrow>
     n \<notin> trt_SourceableName ` set remote)"

lemma CheckRunTriggers_compares:
  assumes "CheckRunTriggers name spec E h t = Some (Ok b, t', ev)"
  shows "\<exists>h' i remote. E h' (RunTriggers (RunTrigger_List i ''inbound'')) = Inr (R_RunTriggers remote) \<and>
    (b \<longleftrightarrow> \<not> rt_SourceableName ` set spec \<subseteq> trt_SourceableName ` set remote)"
proof -
  let ?spec = "MapToTFCRunTrigger name spec"
  from assms obtain w i remote h1 h2 t1 ev2 where
    list: "E h1 (RunTriggers (RunTrigger_List i ''inbound'')) = Inr (R_RunTriggers remote)"
    and cre: "createRunTriggersOnTFC w ?spec remote E h2 t1 = Some (Ok b, t', ev2)"
    unfolding CheckRunTriggers_def listRunTriggers_def Let_def
    by (auto elim!: andThen_OkE as_runtriggers.elims simp: RunTriggers_List_def require_Ok check_options_Ok call_Ok)
  have "trt_SourceableName ` set ?spec = rt_SourceableName ` set spec"
    by (simp add: MapToTFCRunTrigger_def image_image)
  with list createRunTriggers_creations(2) [OF cre] rts.missing_empty [of ?spec remote] show ?thesis
    by (intro exI [of _ h1] exI [of _ i] exI [of _ remote]) simp
qed

lemma gives_updateRunTriggers:
  assumes "never_lists E n" "triggered_by n w"
  shows "gives E (\<lambda>b. b) (updateRunTriggers w)"
  using assms unfolding achieves_def updateRunTriggers_def never_lists_def triggered_by_def
  by (meson CheckRunTriggers_compares subsetD)

section \<open>The run\<close>

text \<open>The service has a configuration version of every workspace it is asked about.\<close>

definition has_versions :: "env \<Rightarrow> bool" where
  "has_versions E \<longleftrightarrow> (\<forall>h i. E h (ConfigVersions (ConfigVersion_List i)) \<noteq> Inr (R_ConfigVersions []))"

definition starts_run :: "trace \<Rightarrow> bool" where
  "starts_run ev \<longleftrightarrow> (\<exists>c run. (Runs (Run_Create c), Inr (R_Run run)) \<in> set ev)"

lemma starts_run_append [simp]: "starts_run (xs @ ys) \<longleftrightarrow> starts_run xs \<or> starts_run ys"
  by (auto simp: starts_run_def)

lemma gives_prepareVCSRun:
  assumes "has_versions E"
  shows "gives E (\<lambda>requeue. \<not> requeue) (prepareVCSRun w)"
  using assms by (auto simp: achieves_def prepareVCSRun_def has_versions_def ConfigurationVersions_List_def require_Ok
      call_Ok elim!: andThen_OkE as_configversions.elims split: if_splits)

lemma achieves_startRun:
  assumes "has_versions E" "triggered_by n w"
  shows "achieves E (\<lambda>w ev. starts_run ev) (startRun w)"
proof (rule achievesI)
  have run: "achieves E (\<lambda>run ev. starts_run ev) (Runs_Create c)" for c
    by (auto simp: achieves_def starts_run_def dest!: tfe_Ok)
  fix h t w' t' ev
  assume "startRun w E h t = Some (Ok w', t', ev)"
  moreover from assms(2) have "sp_VCS (Spec w) \<noteq> None" by (simp add: triggered_by_def)
  ultimately show "starts_run ev"
    by (auto simp: startRun_def Let_def split: if_splits elim!: andThen_OkE
        dest!: achievesD [OF gives_prepareVCSRun [OF assms(1)]] achievesD [OF run])
qed

lemma achieves_reconcileFinished:
  assumes "keeps_triggers E" "never_lists E n" "has_versions E" "triggered_by n w"
  shows "achieves E (\<lambda>res ev. Requeue res \<and> starts_run ev) (reconcileFinished C w)"
proof -
  let ?finish = "\<lambda>templ vars triggers w.
     if templ \<or> vars \<or> triggers \<or> st_RunID (Status w) = '''' \<or> st_ConfigVersionID (Status w) \<noteq> ''''
     then
       andThen (startRun w) (\<lambda>w.
       andThen (record_event w ''Normal'' ''WorkspaceEvent''
         (''Started new Terraform job with id '' @ st_RunID (Status w))) (\<lambda>_.
       ret (no_requeue\<lparr>Requeue := True\<rparr>)))
     else ret (no_requeue\<lparr>RequeueAfter := requeueInterval\<rparr>)"
  have decide: "achieves E (\<lambda>res ev. Requeue res \<and> starts_run (before @ ev)) (?finish templ vars True w)"
    if "triggered_by n w" for templ vars w before
    by (simp only: simp_thms if_True, rule achieves_andThen [OF achieves_startRun [OF assms(3) that]],
        rule achieves_andThen [OF gives_any], rule achieves_basic) simp
  have compare: "achieves E (\<lambda>res ev. Requeue res \<and> starts_run (before @ ev))
      (andThen (updateRunTriggers w) (\<lambda>triggers. ?finish templ vars triggers w))"
    if "triggered_by n w" for templ vars w before
    by (rule achieves_andThen [OF gives_updateRunTriggers [OF assms(2) that]])
      (use decide [OF that, of "before @ ev" for ev] in simp)
  show ?thesis
    unfolding reconcileFinished_def
    by (rule achieves_andThen [OF gives_steps(5) [OF assms(1,4)]], rule achieves_andThen [OF gives_any],
        rule achieves_andThen [OF gives_updateVariables], assumption, clarify)
      (use compare [of _ "a @ b @ c" for a b c] in simp)
qed

section \<open>The reconcile\<close>

text \<open>Until the run is known not to be in progress, nothing acts on the spec.\<close>

definition waits_or_starts :: "bool \<Rightarrow> trace \<Rightarrow> bool" where
  "waits_or_starts pending ev \<longleftrightarrow>
     (if pending then \<forall>e \<in> set ev. \<not> acts_on_spec (fst e) else starts_run ev)"

lemma waits_or_starts_prepend:
  "\<forall>e \<in> set before. \<not> acts_on_spec (fst e) \<Longrightarrow> waits_or_starts b ev \<Longrightarrow> waits_or_starts b (before @ ev)"
  by (auto simp: waits_or_starts_def split: if_splits)

lemma achieves_reconcileLive:
  assumes "keeps_triggers E" "keeps_status E" "never_lists E n" "has_versions E" "triggered_by n w"
  shows "achieves E (\<lambda>res ev. Requeue res \<and> waits_or_starts (isPending (st_RunStatus (Status w))) ev) (reconcileLive C w)"
proof -
  let ?pending = "isPending (st_RunStatus (Status w))"
  have quiet: "emits (\<lambda>q. \<not> acts_on_spec q) (reconcileWorkspace w)" "emits (\<lambda>q. \<not> acts_on_spec q) (reconcileNotifications w')"
    "emits (\<lambda>q. \<not> acts_on_spec q) (runInProgress w')" for w'
    by (intro emits_rules; simp)+
  have finish: "achieves E (\<lambda>res ev. Requeue res \<and> waits_or_starts b (polled @ ev))
      (if b then ret (no_requeue\<lparr>Requeue := True\<rparr>) else reconcileFinished C w)"
    if "triggered_by n w" "\<forall>e \<in> set polled. \<not> acts_on_spec (fst e)" for b w polled
    by (intro achieves_rules achieves_weaken [OF achieves_reconcileFinished [OF assms(1,3,4) that(1)]])
      (use that in \<open>auto simp: waits_or_starts_def\<close>)
  have last: "achieves E (\<lambda>res ev. Requeue res \<and> waits_or_starts (isPending (st_RunStatus (Status w))) ev)
      (andThen (runInProgress w) (\<lambda>(shouldRequeue, w). if shouldRequeue then ret (no_requeue\<lparr>Requeue := True\<rparr>)
        else reconcileFinished C w))" if "triggered_by n w" for w
    by (rule achieves_andThen [OF achieves_with [OF quiet(3) achieves_conj [OF gives_steps(4) [OF assms(1) that]
          gives_runInProgress]]]) (use finish in auto)
  have rest: "achieves E (\<lambda>res ev. Requeue res \<and> waits_or_starts ?pending (before @ ev))
      (andThen (reconcileNotifications w') (\<lambda>_. andThen (runInProgress w') (\<lambda>(shouldRequeue, w).
        if shouldRequeue then ret (no_requeue\<lparr>Requeue := True\<rparr>) else reconcileFinished C w)))"
    if "triggered_by n w'" "st_RunStatus (Status w') = st_RunStatus (Status w)" "\<forall>e \<in> set before. \<not> acts_on_spec (fst e)"
    for w' before
    by (rule achieves_andThen [OF achieves_with [OF quiet(2) gives_any]], rule achieves_weaken [OF last [OF that(1)]])
      (use that(2,3) waits_or_starts_prepend in auto)
  show ?thesis
    unfolding reconcileLive_def
    by (rule achieves_andThen [OF achieves_with [OF quiet(1) achieves_conj [OF gives_reconcileWorkspace [OF assms(1,5)]
          gives_same_reconcileWorkspace [OF assms(2)]]]]) (use rest in blast)
qed

text \<open>
  C7. A run trigger that Terraform Cloud refuses starts runs for ever. The error of its creation is dropped and the
  trigger counted as new each time. So for an object from a repository whose spec names a source that the
  service never lists, no successful reconcile asks for rest: it asks to be repeated at once. While the
  status records a run in progress nothing of the spec is acted on; with no run in progress, another run is created.
  The hypotheses: the API server answers writes with what was sent, the service never lists a trigger with the source,
  and it has a configuration version of each workspace, without which no run can be created from a repository.
\<close>
theorem refused_trigger_runs_forever:
  assumes "keeps_triggers E" "keeps_status E" "never_lists E n" "has_versions E"
    and "Reconcile C nn E h t = Some (Ok res, t', ev)"
    and "E h (Kube (Get_Workspace nn)) = Inr (R_Resource w)" "om_DeletionTimestamp (Meta w) = None"
    and "sp_VCS (Spec w) \<noteq> None" "n \<in> rt_SourceableName ` set (sp_RunTriggers (Spec w))"
  shows "Requeue res \<and>
    (if isPending (st_RunStatus (Status w))
     then \<forall>e \<in> set ev. \<not> acts_on_spec (fst e)
     else \<exists>c run. (Runs (Run_Create c), Inr (R_Run run)) \<in> set ev)"
proof -
  have init: "emits (\<lambda>q. \<not> acts_on_spec q) (initializeReconciliation nn)" by (intro emits_rules) simp
  have w: "triggered_by n w" using assms(8,9) by (simp add: triggered_by_def)
  from assms(5-7) show ?thesis
  proof (cases rule: reads_object)
    case (live t1 ev1 ev2)
    from achievesD [OF achieves_reconcileLive [OF assms(1-4) w] live(2)] emitsD [OF init live(1)] live(3)
    show ?thesis unfolding waits_or_starts_def starts_run_def by (fastforce split: if_splits)
  qed blast
qed

section \<open>An example\<close>

definition example_triggered :: Workspace where
  "example_triggered = (example_vcs '''' '''')\<lparr>Spec :=
     (Spec (example_vcs '''' ''''))\<lparr>sp_RunTriggers := [\<lparr>rt_SourceableName = ''prod-net''\<rparr>]\<rparr>\<rparr>"

definition refusing_world :: env where
  "refusing_world h q = (case q of
     RunTriggers (RunTrigger_Create i src) \<Rightarrow> Inl (ErrorString ''refused'')
   | _ \<Rightarrow> example_world example_triggered h q)"

lemma example_triggered_fields [simp]:
  "Meta example_triggered = Meta (example_known '''')"
  "Status example_triggered = (Status (example_known ''''))\<lparr>st_RunID := ''''\<rparr>"
  "sp_Variables (Spec example_triggered) = []" "sp_VCS (Spec example_triggered) \<noteq> None"
  "sp_RunTriggers (Spec example_triggered) = [\<lparr>rt_SourceableName = ''prod-net''\<rparr>]"
  "sp_Notifications (Spec example_triggered) = []"
  "sp_Organization (Spec example_triggered) = ''world''" "sp_SecretsMountPath (Spec example_triggered) = ''/tmp''"
  "workspace_name example_triggered = ''prod-hello''" "set_variables [] example_triggered = example_triggered"
  by (simp_all add: example_triggered_def workspace_name_def set_variables_def example_vcs_spec example_workspace_def)

lemma example_triggered_start:
  "reachFinished example_name refusing_world [] t =
    Some (Ok (Inr example_triggered), example_bound_client, example_syncing example_triggered)"
proof -
  have "initializeReconciliation example_name refusing_world [] t =
      Some (Ok (Some example_triggered), example_bound_client, example_entry example_triggered)"
    by (rule example_initialize) (simp_all add: refusing_world_def)
  moreover have "CheckWorkspace ''prod-hello'' example_triggered refusing_world h example_bound_client =
      Some (Ok example_remote, example_bound_client,
        [(Workspaces (Workspace_Read ''world'' ''prod-hello''), Inr (R_Workspace example_remote))])" for h
    by (simp add: CheckWorkspace_def Workspaces_Read_def sync_ssh_key_def sync_version_def sync_agent_pool_def refusing_world_def
        go_defs Let_def example_bound_client_def validStringID_def id_char_def example_triggered_def example_vcs_spec
        example_workspace_def example_remote_def new_tfc_Workspace_def)
  then have "CheckWorkspace (workspace_name example_triggered) example_triggered refusing_world h example_bound_client =
      Some (Ok example_remote, example_bound_client,
        [(Workspaces (Workspace_Read ''world'' ''prod-hello''), Inr (R_Workspace example_remote))])" for h
    by simp
  then have "reconcileWorkspace example_triggered refusing_world h example_bound_client =
      Some (Ok example_triggered, example_bound_client,
        [(Workspaces (Workspace_Read ''world'' ''prod-hello''), Inr (R_Workspace example_remote))])" for h
    by (rule reconcileWorkspace_in_sync) auto
  moreover have "reconcileNotifications example_triggered refusing_world h example_bound_client =
      Some (Ok (), example_bound_client, [(Notifications (Notification_List ''ws-1''), Inr (R_Notifications []))])" for h
    using notifications_none [of example_triggered refusing_world h]
    by (simp add: validStringID_def id_char_def refusing_world_def)
  ultimately show ?thesis
    by (simp add: reachFinished_def runInProgress_def andThen_def ret_def example_syncing_def)
qed

lemma example_triggered_sync:
  "updateVariables example_triggered refusing_world h example_bound_client =
     Some (Ok (False, example_triggered), example_bound_client, take 2 example_listing)"
  "updateRunTriggers example_triggered refusing_world h example_bound_client =
     Some (Ok True, example_bound_client, drop 2 example_listing @
       [(Workspaces (Workspace_Read ''world'' ''prod-net''), Inr (R_Workspace example_remote)),
        (RunTriggers (RunTrigger_Create ''ws-1'' example_remote), Inl (ErrorString ''refused''))])"
  by (simp_all add: updateVariables_def updateRunTriggers_def CheckVariables_def CheckRunTriggers_def
      MapToTFCVariable_def MapToTFCRunTrigger_def Workspaces_Read_def listVariables_def listRunTriggers_def
      Variables_List_def RunTriggers_List_def valid_RunTriggerListOptions_def deleteVariablesFromTFC_def
      createVariablesOnTFC_def generateUpdateVariableList_def deleteRunTriggersFromTFC_def
      createRunTriggersOnTFC_def CreateTerraformRunTrigger_def RunTriggers_Create_def findRT_def go_defs Let_def
      validStringID_def validString_def id_char_def refusing_world_def example_bound_client_def example_listing_def
      del: One_nat_def)

definition example_refusal :: trace where
  "example_refusal = example_syncing example_triggered @
     (Kube (Get_Secret \<lparr>nn_Namespace = ''prod'', nn_Name = ''hello-outputs''\<rparr>),
      Inr (R_Secret \<lparr>sec_Meta = new_meta ''hello-outputs'' ''prod'', sec_Data = Some []\<rparr>))
     # example_listing @
     [(Workspaces (Workspace_Read ''world'' ''prod-net''), Inr (R_Workspace example_remote)),
      (RunTriggers (RunTrigger_Create ''ws-1'' example_remote), Inl (ErrorString ''refused'')),
      (ConfigVersions (ConfigVersion_List ''ws-1''),
       Inr (R_ConfigVersions [\<lparr>cv_ID = ''cv-1'', cv_Status = ''uploaded'', cv_UploadURL = ''''\<rparr>])),
      (Runs (Run_Create (run_options example_triggered)), Inr (R_Run example_destroyed))]"

definition example_rerun :: Workspace where
  "example_rerun = set_status (\<lambda>s. s\<lparr>st_RunID := ''run-2'', st_RunStatus := ''applied''\<rparr>) example_triggered"

lemma example_refusal_run:
  "Reconcile C example_name refusing_world [] t =
     Some (Ok (no_requeue\<lparr>Requeue := True\<rparr>), example_bound_client, example_refusal @
       [(Kube (UpdateStatus_Workspace example_rerun), Inr (R_Resource example_rerun)),
        (Kube (Record_Event example_rerun ''Normal'' ''WorkspaceEvent'' ''Started new Terraform job with id run-2''), Inr R_None)])"
  by (simp add: Reconcile_halves example_triggered_start reconcileFinished_def processFinishedRun_def isError_def andThen_def
      updateTerraformTemplate_def example_triggered_sync ret_def record_event_def notify_def perform_def
      call_def attempt_def Let_def CheckOutputs_def UpsertSecretOutputs_def outputsToMap_def
      kube_Get_Secret_def kube_UpdateStatus_Workspace_def startRun_def prepareVCSRun_def refusing_world_def
      ConfigurationVersions_List_def Runs_Create_def validStringID_def id_char_def run_options_def
      example_destroyed_def example_rerun_def example_refusal_def example_listing_def)

lemma refused_trigger_runs_forever_witness:
  "\<exists>res t' ev. Reconcile no_codecs example_name refusing_world [] example_client = Some (Ok res, t', ev) \<and> Requeue res \<and>
    (RunTriggers (RunTrigger_Create ''ws-1'' example_remote), Inl (ErrorString ''refused'')) \<in> set ev \<and>
    (\<exists>c run. (Runs (Run_Create c), Inr (R_Run run)) \<in> set ev)"
proof -
  have world: "keeps_triggers refusing_world" "keeps_status refusing_world" "never_lists refusing_world ''prod-net''"
    "has_versions refusing_world" "refusing_world [] (Kube (Get_Workspace example_name)) = Inr (R_Resource example_triggered)"
    by (simp_all add: keeps_triggers_def keeps_status_def never_lists_def has_versions_def refusing_world_def)
  have idle: "\<not> isPending (st_RunStatus (Status example_triggered))" by (simp add: isPending_iff)
  obtain ev where run: "Reconcile no_codecs example_name refusing_world [] example_client =
      Some (Ok (no_requeue\<lparr>Requeue := True\<rparr>), example_bound_client, ev)"
    and refused: "(RunTriggers (RunTrigger_Create ''ws-1'' example_remote), Inl (ErrorString ''refused'')) \<in> set ev"
    by (rule that [OF example_refusal_run]) (simp add: example_refusal_def)
  from refused_trigger_runs_forever [OF world(1-4) run world(5)] idle
  have "\<exists>c run. (Runs (Run_Create c), Inr (R_Run run)) \<in> set ev" by (simp del: split_paired_Ex)
  moreover have "Requeue (no_requeue\<lparr>Requeue := True\<rparr>)" by simp
  ultimately show ?thesis using run refused by blast
qed

end
