(* ===== verification/Command_Line.thy ===== *)
theory Command_Line
  imports Controller_Watch "HOL-Library.Word"
begin

text \<open>
  The start of \<open>main.go\<close>: the flags it registers, \<open>flag.Parse\<close> of Go's library, which reads the arguments of the
  process into them, and the options of the manager. The logger's flags are those of the vendored
  \<open>log/zap/flags.go\<close>; \<open>kubeconfig\<close> is registered by \<open>client/config/config.go\<close>.
\<close>

section \<open>The flags\<close>

datatype encoder = DefaultEncoder | JSONEncoder | ConsoleEncoder

text \<open>Levels of the logger are 8-bit integers; \<open>None\<close> is the level that development mode sets.\<close>

record flags =
  fl_metricsAddr :: string
  fl_namespaceName :: string
  fl_enableLeaderElection :: bool
  fl_kubeconfig :: string
  fl_Development :: bool
  fl_NewEncoder :: encoder
  fl_Level :: "8 word option"
  fl_StacktraceLevel :: "8 word option"

text \<open>The values before parsing; \<open>main\<close> has set \<open>zap-devel\<close>.\<close>

definition default_flags :: flags where
  "default_flags = \<lparr>fl_metricsAddr = '':8383'', fl_namespaceName = '''', fl_enableLeaderElection = False,
     fl_kubeconfig = '''', fl_Development = True, fl_NewEncoder = DefaultEncoder, fl_Level = None,
     fl_StacktraceLevel = None\<rparr>"

text \<open>\<open>strconv.ParseBool\<close>\<close>

definition ParseBool :: "string \<Rightarrow> bool option" where
  "ParseBool s =
     (if s \<in> set [''1'', ''t'', ''T'', ''TRUE'', ''true'', ''True''] then Some True
      else if s \<in> set [''0'', ''f'', ''F'', ''FALSE'', ''false'', ''False''] then Some False
      else None)"

text \<open>\<open>strconv.Atoi\<close> on a 64-bit platform\<close>

definition digit_value :: "char \<Rightarrow> nat option" where
  "digit_value c = (let n = (of_char c :: nat) in if 48 \<le> n \<and> n \<le> 57 then Some (n - 48) else None)"

fun digits_value :: "int \<Rightarrow> string \<Rightarrow> int option" where
  "digits_value n [] = Some n"
| "digits_value n (c # cs) = (case digit_value c of None \<Rightarrow> None | Some d \<Rightarrow> digits_value (10 * n + int d) cs)"

definition Atoi :: "string \<Rightarrow> int option" where
  "Atoi s =
     (let neg = (s \<noteq> [] \<and> hd s = CHR ''-'');
          ds = (if s \<noteq> [] \<and> (hd s = CHR ''-'' \<or> hd s = CHR ''+'') then tl s else s) in
      if ds = [] then None
      else case digits_value 0 ds of
        None \<Rightarrow> None
      | Some n \<Rightarrow>
          (let v = (if neg then - n else n) in
           if - (2 ^ 63) \<le> v \<and> v < 2 ^ 63 then Some v else None))"

text \<open>The \<open>Set\<close> methods of the logger's flags; \<open>None\<close> is an error.\<close>

definition set_encoder :: "string \<Rightarrow> flags \<Rightarrow> flags option" where
  "set_encoder flagValue fl =
     (let val = ToLower flagValue in
      if val = ''json'' then Some (fl\<lparr>fl_NewEncoder := JSONEncoder\<rparr>)
      else if val = ''console'' then Some (fl\<lparr>fl_NewEncoder := ConsoleEncoder\<rparr>)
      else None)"

definition levelStrings :: "string \<Rightarrow> 8 word option" where
  "levelStrings = [''debug'' \<mapsto> - 1, ''info'' \<mapsto> 0, ''error'' \<mapsto> 2]"

definition stackLevelStrings :: "string \<Rightarrow> 8 word option" where
  "stackLevelStrings = [''info'' \<mapsto> 0, ''error'' \<mapsto> 2, ''panic'' \<mapsto> 4]"

definition set_level :: "string \<Rightarrow> flags \<Rightarrow> flags option" where
  "set_level flagValue fl =
     (case levelStrings (ToLower flagValue) of
        None \<Rightarrow>
          (case Atoi flagValue of
             None \<Rightarrow> None
           | Some logLevel \<Rightarrow>
               if logLevel > 0 then Some (fl\<lparr>fl_Level := Some (word_of_int (- logLevel))\<rparr>) else None)
      | Some level \<Rightarrow> Some (fl\<lparr>fl_Level := Some level\<rparr>))"

definition set_stacktrace :: "string \<Rightarrow> flags \<Rightarrow> flags option" where
  "set_stacktrace flagValue fl = map_option (\<lambda>level. fl\<lparr>fl_StacktraceLevel := Some level\<rparr>)
     (stackLevelStrings (ToLower flagValue))"

text \<open>The formal flags: whether the flag is a boolean one, and how it is set.\<close>

definition formal :: "string \<Rightarrow> (bool \<times> (string \<Rightarrow> flags \<Rightarrow> flags option)) option" where
  "formal name =
     (if name = ''metrics-addr'' then Some (False, \<lambda>v fl. Some (fl\<lparr>fl_metricsAddr := v\<rparr>))
      else if name = ''k8s-watch-namespace'' then Some (False, \<lambda>v fl. Some (fl\<lparr>fl_namespaceName := v\<rparr>))
      else if name = ''enable-leader-election'' then
        Some (True, \<lambda>v fl. map_option (\<lambda>b. fl\<lparr>fl_enableLeaderElection := b\<rparr>) (ParseBool v))
      else if name = ''kubeconfig'' then Some (False, \<lambda>v fl. Some (fl\<lparr>fl_kubeconfig := v\<rparr>))
      else if name = ''zap-devel'' then
        Some (True, \<lambda>v fl. map_option (\<lambda>b. fl\<lparr>fl_Development := b\<rparr>) (ParseBool v))
      else if name = ''zap-encoder'' then Some (False, set_encoder)
      else if name = ''zap-log-level'' then Some (False, set_level)
      else if name = ''zap-stacktrace-level'' then Some (False, set_stacktrace)
      else None)"

section \<open>Parsing\<close>

text \<open>
  One argument: no more flags, with what is left; an error, with the status the process exits with; or a
  flag that was set, with the arguments after it.
\<close>

datatype parsed = NoFlag "string list" | BadFlag nat | Seen flags "string list"

definition ErrHelp_status :: nat where "ErrHelp_status = 0"
definition failf_status :: nat where "failf_status = 2"

text \<open>The name and the value of a flag that is written with an equals sign, which cannot come first.\<close>

definition split_flag :: "string \<Rightarrow> string \<times> string option" where
  "split_flag name =
     (if CHR ''='' \<in> set (tl name)
      then (hd name # takeWhile (\<lambda>c. c \<noteq> CHR ''='') (tl name), Some (tl (dropWhile (\<lambda>c. c \<noteq> CHR ''='') (tl name))))
      else (name, None))"

definition set_flag :: "string \<Rightarrow> string option \<Rightarrow> string list \<Rightarrow> flags \<Rightarrow> parsed" where
  "set_flag name value args fl =
     (case formal name of
        None \<Rightarrow> BadFlag (if name = ''help'' \<or> name = ''h'' then ErrHelp_status else failf_status)
      | Some (is_bool, assign) \<Rightarrow>
          if is_bool then
            (case assign (case value of Some v \<Rightarrow> v | None \<Rightarrow> ''true'') fl of
               None \<Rightarrow> BadFlag failf_status
             | Some fl \<Rightarrow> Seen fl args)
          else
            (case (value, args) of
               (Some v, _) \<Rightarrow> (case assign v fl of None \<Rightarrow> BadFlag failf_status | Some fl \<Rightarrow> Seen fl args)
             | (None, v # args) \<Rightarrow> (case assign v fl of None \<Rightarrow> BadFlag failf_status | Some fl \<Rightarrow> Seen fl args)
             | (None, []) \<Rightarrow> BadFlag failf_status))"

fun parseOne :: "string list \<Rightarrow> flags \<Rightarrow> parsed" where
  "parseOne [] fl = NoFlag []"
| "parseOne (s # args) fl =
     (if length s < 2 \<or> hd s \<noteq> CHR ''-'' then NoFlag (s # args)
      else if s = ''--'' then NoFlag args
      else
        let name = (if s ! 1 = CHR ''-'' then drop 2 s else drop 1 s) in
        if name = [] \<or> hd name = CHR ''-'' \<or> hd name = CHR ''='' then BadFlag failf_status
        else let (name, value) = split_flag name in set_flag name value args fl)"

lemma set_flag_length: "set_flag name value args fl = Seen fl' args' \<Longrightarrow> length args' \<le> length args"
  by (auto simp: set_flag_def split: option.splits if_splits list.splits)

lemma parseOne_length: "parseOne args fl = Seen fl' args' \<Longrightarrow> length args' < length args"
  by (cases args) (auto simp: Let_def split_def less_Suc_eq_le dest: set_flag_length split: if_splits)

text \<open>\<open>flag.Parse\<close>, whose flag set exits on an error: the status, or the flags and the other arguments.\<close>

function flag_Parse :: "string list \<Rightarrow> flags \<Rightarrow> nat + (flags \<times> string list)" where
  "flag_Parse args fl =
     (case parseOne args fl of
        NoFlag rest \<Rightarrow> Inr (fl, rest)
      | BadFlag status \<Rightarrow> Inl status
      | Seen fl' rest \<Rightarrow> flag_Parse rest fl')"
  by pat_completeness auto

termination
  by (relation "measure (\<lambda>(args, fl). length args)") (auto dest: parseOne_length)

declare flag_Parse.simps [simp del]

section \<open>The manager\<close>

record manager_options =
  mo_Namespace :: string
  mo_MetricsBindAddress :: string
  mo_Port :: nat
  mo_LeaderElection :: bool
  mo_LeaderElectionID :: string

definition main_options :: "flags \<Rightarrow> manager_options" where
  "main_options fl = \<lparr>mo_Namespace = fl_namespaceName fl, mo_MetricsBindAddress = fl_metricsAddr fl,
     mo_Port = 9443, mo_LeaderElection = fl_enableLeaderElection fl, mo_LeaderElectionID = ''4ebc9a03.terraform.io''\<rparr>"

text \<open>
  The whole of \<open>main\<close>, with the arguments of the process: reading the flags, the configuration of the cluster (an
  error of which ends the process), the manager with these options, the controller, the run.
\<close>

definition main ::
  "string list \<Rightarrow> (string \<Rightarrow> go_error option) \<Rightarrow> (manager_options \<Rightarrow> go_error option) \<Rightarrow>
   nat + (go_error option \<times> watches) \<Rightarrow> (watches \<Rightarrow> go_error option) \<Rightarrow> nat \<times> (manager_options \<times> watches) option" where
  "main args GetConfig NewManager added start =
     (case flag_Parse args default_flags of
        Inl status \<Rightarrow> (status, None)
      | Inr (fl, _) \<Rightarrow>
          (case GetConfig (fl_kubeconfig fl) of
             Some err \<Rightarrow> (1, None)
           | None \<Rightarrow>
               (let options = main_options fl;
                    (status, ran) = main_status (NewManager options) added start in
                (status, map_option (Pair options) ran))))"

section \<open>What is written is read\<close>

text \<open>
  The ways to write a flag: one dash or two, and the value after an equals sign, as the next argument or, of a
  boolean flag that is to be on, not at all.
\<close>

datatype style = With_Equals | With_Argument | Bare

type_synonym setting = "bool \<times> style \<times> string \<times> string"

fun written :: "setting \<Rightarrow> string list" where
  "written (long, With_Equals, name, value) = [(if long then ''--'' else ''-'') @ name @ ''='' @ value]"
| "written (long, With_Argument, name, value) = [(if long then ''--'' else ''-'') @ name, value]"
| "written (long, Bare, name, value) = [(if long then ''--'' else ''-'') @ name]"

text \<open>Known flags with a value of their type, in a style that the flag has.\<close>

definition accepted :: "setting \<Rightarrow> bool" where
  "accepted = (\<lambda>(long, style, name, value). case formal name of None \<Rightarrow> False
     | Some (is_bool, assign) \<Rightarrow> assign value default_flags \<noteq> None \<and>
         (style = With_Equals \<or> (if is_bool then style = Bare \<and> value = ''true'' else style = With_Argument)))"

definition values_of :: "string \<Rightarrow> setting list \<Rightarrow> string list" where
  "values_of name settings = [value. (long, style, k, value) \<leftarrow> settings, k = name]"

lemma split_flag_equals:
  assumes "name \<noteq> []" "CHR ''='' \<notin> set (tl name)"
  shows "split_flag (name @ CHR ''='' # value) = (name, Some value)"
proof -
  have "takeWhile (\<lambda>c. c \<noteq> CHR ''='') (xs @ CHR ''='' # value) = xs \<and>
      dropWhile (\<lambda>c. c \<noteq> CHR ''='') (xs @ CHR ''='' # value) = CHR ''='' # value"
    if "CHR ''='' \<notin> set xs" for xs
    using that by (induction xs) auto
  with assms show ?thesis by (cases name) (simp_all add: split_flag_def)
qed

lemma split_flag_plain: "CHR ''='' \<notin> set (tl name) \<Longrightarrow> split_flag name = (name, None)"
  by (simp add: split_flag_def)

lemma formal_name:
  "formal name \<noteq> None \<Longrightarrow> name \<noteq> [] \<and> hd name \<noteq> CHR ''-'' \<and> hd name \<noteq> CHR ''='' \<and> CHR ''='' \<notin> set (tl name)"
  by (auto simp: formal_def split: if_splits)

text \<open>Whether a value is accepted does not depend on the other flags.\<close>

lemma assign_any:
  assumes "formal name = Some (is_bool, assign)" "assign value fl \<noteq> None"
  shows "assign value fl' \<noteq> None"
  using assms
  by (auto simp: formal_def set_encoder_def set_level_def set_stacktrace_def Let_def split: if_splits option.splits)

lemma parse_written:
  assumes "accepted (long, style, name, value)"
  shows "\<exists>is_bool assign fl'. formal name = Some (is_bool, assign) \<and> assign value fl = Some fl' \<and>
    flag_Parse (written (long, style, name, value) @ args) fl = flag_Parse args fl'"
proof -
  from assms obtain is_bool assign where f: "formal name = Some (is_bool, assign)" "assign value default_flags \<noteq> None"
    and style: "style = With_Equals \<or> (if is_bool then style = Bare \<and> value = ''true'' else style = With_Argument)"
    by (auto simp: accepted_def split: option.splits)
  from assign_any [OF f, of fl] obtain fl' where fl': "assign value fl = Some fl'" by auto
  have name: "name \<noteq> []" "hd name \<noteq> CHR ''-''" "hd name \<noteq> CHR ''=''" "CHR ''='' \<notin> set (tl name)"
    using formal_name [of name] f(1) by simp_all
  then obtain c cs where "name = c # cs" "c \<noteq> CHR ''-''" by (cases name) auto
  with name f(1) fl' style have "parseOne (written (long, style, name, value) @ args) fl = Seen fl' args"
    using split_flag_equals [of name "value"] split_flag_plain [of name]
    by (cases style; cases is_bool; cases long) (auto simp: set_flag_def)
  with f(1) fl' show ?thesis by (intro exI [of _ is_bool] exI [of _ assign] exI [of _ fl']) (subst flag_Parse.simps, simp)
qed

lemma formal_strings [simp]:
  "formal ''enable-leader-election'' = Some (True, \<lambda>v fl. map_option (\<lambda>b. fl\<lparr>fl_enableLeaderElection := b\<rparr>) (ParseBool v))"
  by (simp add: formal_def)

text \<open>What the settings make of the fields that the operator uses: the last setting of a flag counts.\<close>

abbreviation latest :: "string \<Rightarrow> setting list \<Rightarrow> string \<Rightarrow> string" where
  "latest name settings unset \<equiv> last (unset # values_of name settings)"

lemma latest_Cons:
  "latest name ((long, style, k, value) # settings) unset = latest name settings (if k = name then value else unset)"
  by (simp add: values_of_def)

definition says :: "setting list \<Rightarrow> flags \<Rightarrow> flags \<Rightarrow> bool" where
  "says settings fl fl' \<longleftrightarrow>
     fl_metricsAddr fl' = latest ''metrics-addr'' settings (fl_metricsAddr fl) \<and>
     fl_namespaceName fl' = latest ''k8s-watch-namespace'' settings (fl_namespaceName fl) \<and>
     fl_kubeconfig fl' = latest ''kubeconfig'' settings (fl_kubeconfig fl) \<and>
     fl_enableLeaderElection fl' = (ParseBool (latest ''enable-leader-election'' settings
       (if fl_enableLeaderElection fl then ''true'' else ''false'')) = Some True)"

lemma assign_fields:
  assumes "formal name = Some (is_bool, assign)" "assign value fl = Some fl'"
  shows "fl_metricsAddr fl' = (if name = ''metrics-addr'' then value else fl_metricsAddr fl)"
    "fl_namespaceName fl' = (if name = ''k8s-watch-namespace'' then value else fl_namespaceName fl)"
    "fl_kubeconfig fl' = (if name = ''kubeconfig'' then value else fl_kubeconfig fl)"
    "if name = ''enable-leader-election'' then ParseBool value = Some (fl_enableLeaderElection fl')
     else fl_enableLeaderElection fl' = fl_enableLeaderElection fl"
  using assms
  by (auto simp: formal_def set_encoder_def set_level_def set_stacktrace_def Let_def split: if_splits option.splits)

lemma assign_says:
  assumes "formal name = Some (is_bool, assign)" "assign value fl = Some fl1" "says settings fl1 fl'"
  shows "says ((long, style, name, value) # settings) fl fl'"
proof -
  note fields = assign_fields [OF assms(1,2)]
  have bool: "ParseBool (if b then ''true'' else ''false'') = Some b" for b by (simp add: ParseBool_def)
  have "fl_enableLeaderElection fl' = (ParseBool (latest ''enable-leader-election'' ((long, style, name, value) # settings)
      (if fl_enableLeaderElection fl then ''true'' else ''false'')) = Some True)"
  proof (cases "values_of ''enable-leader-election'' settings = []")
    case True
    with assms(3) fields(4) bool show ?thesis unfolding says_def latest_Cons by (auto split: if_splits)
  next
    case False
    with assms(3) show ?thesis unfolding says_def latest_Cons by simp
  qed
  with assms(3) fields(1-3) show ?thesis unfolding says_def latest_Cons by (simp del: last.simps)
qed

lemma parse_settings:
  assumes "list_all accepted settings"
  shows "\<exists>fl'. flag_Parse (concat (map written settings) @ rest) fl = flag_Parse rest fl' \<and> says settings fl fl'"
  using assms
proof (induction settings arbitrary: fl)
  case Nil
  then show ?case by (intro exI [of _ fl]) (simp add: says_def values_of_def ParseBool_def)
next
  case (Cons x settings)
  obtain long style name "value" where x: "x = (long, style, name, value)" by (cases x)
  from Cons.prems x parse_written [of long style name "value" fl "concat (map written settings) @ rest"]
  obtain is_bool assign fl1 where f: "formal name = Some (is_bool, assign)" "assign value fl = Some fl1"
    and parse: "flag_Parse (written x @ concat (map written settings) @ rest) fl =
      flag_Parse (concat (map written settings) @ rest) fl1" by auto
  from Cons.IH [of fl1] Cons.prems obtain fl' where
    "flag_Parse (concat (map written settings) @ rest) fl1 = flag_Parse rest fl'" "says settings fl1 fl'" by auto
  with parse assign_says [OF f] x show ?case by (intro exI [of _ fl']) simp
qed

lemma parse_stops:
  "rest = [] \<or> length (hd rest) < 2 \<or> hd (hd rest) \<noteq> CHR ''-'' \<or> hd rest = ''--'' \<Longrightarrow>
   \<exists>ignored. flag_Parse rest fl = Inr (fl, ignored)"
  by (cases rest) (subst flag_Parse.simps; auto)+

text \<open>
  C36. The manager that \<open>main\<close> builds gets what the arguments of the process say. The flags may be repeated and
  mixed in any order, with one dash or two, with their value after an equals sign or as the next argument, and the
  value may be anything (also something that looks like a flag). Namespace, metrics address and configuration
  file are those of the last setting, if there is one. Leader election, a boolean flag, is on when the last setting
  is the bare flag or one of the six spellings of true after an equals sign, and off when it is a
  spelling of false or not set. The first argument that is no flag ends the flags and is ignored with all that follows it: so
  \<open>--enable-leader-election false\<close> turns leader election on, and the flags after it do not count.
\<close>
theorem main_reads_arguments:
  assumes "list_all accepted settings"
    and "rest = [] \<or> length (hd rest) < 2 \<or> hd (hd rest) \<noteq> CHR ''-'' \<or> hd rest = ''--''"
  shows "main (concat (map written settings) @ rest) GetConfig NewManager added start =
    (case GetConfig (last ('''' # values_of ''kubeconfig'' settings)) of
       Some err \<Rightarrow> (1, None)
     | None \<Rightarrow>
         (let options = \<lparr>mo_Namespace = last ('''' # values_of ''k8s-watch-namespace'' settings),
                mo_MetricsBindAddress = last ('':8383'' # values_of ''metrics-addr'' settings), mo_Port = 9443,
                mo_LeaderElection = (ParseBool (last (''false'' # values_of ''enable-leader-election'' settings)) = Some True),
                mo_LeaderElectionID = ''4ebc9a03.terraform.io''\<rparr>;
              (status, ran) = main_status (NewManager options) added start in
          (status, map_option (Pair options) ran)))"
proof -
  from parse_settings [OF assms(1), of rest default_flags] obtain fl where
    parse: "flag_Parse (concat (map written settings) @ rest) default_flags = flag_Parse rest fl"
    and fl: "says settings default_flags fl" by blast
  from parse_stops [OF assms(2), of fl] obtain ignored where "flag_Parse rest fl = Inr (fl, ignored)" by blast
  with parse have run: "flag_Parse (concat (map written settings) @ rest) default_flags = Inr (fl, ignored)" by simp
  have unset: "fl_metricsAddr default_flags = '':8383''" "fl_namespaceName default_flags = ''''"
    "fl_kubeconfig default_flags = ''''" "\<not> fl_enableLeaderElection default_flags"
    by (simp_all add: default_flags_def)
  show ?thesis
    unfolding main_def run main_options_def using fl unset unfolding says_def
    by (cases "GetConfig (latest ''kubeconfig'' settings '''')") (simp_all add: Let_def del: last.simps)
qed

theorem main_reads_arguments_witness:
  "\<forall>GetConfig NewManager added start. main [''-enable-leader-election=T'', ''--k8s-watch-namespace'', ''--prod'', ''--metrics-addr=:8080'',
      ''--enable-leader-election'', ''false'', ''--k8s-watch-namespace=dev''] GetConfig NewManager added start =
    (case GetConfig '''' of Some err \<Rightarrow> (1, None)
     | None \<Rightarrow>
         (let options = \<lparr>mo_Namespace = ''--prod'', mo_MetricsBindAddress = '':8080'', mo_Port = 9443,
                mo_LeaderElection = True, mo_LeaderElectionID = ''4ebc9a03.terraform.io''\<rparr>;
              (status, ran) = main_status (NewManager options) added start in
          (status, map_option (Pair options) ran)))"
proof (intro allI)
  fix GetConfig :: "string \<Rightarrow> go_error option" and NewManager :: "manager_options \<Rightarrow> go_error option"
    and added :: "nat + (go_error option \<times> watches)" and start :: "watches \<Rightarrow> go_error option"
  have "list_all accepted [(False, With_Equals, ''enable-leader-election'', ''T''), (True, With_Argument, ''k8s-watch-namespace'', ''--prod''),
      (True, With_Equals, ''metrics-addr'', '':8080''), (True, Bare, ''enable-leader-election'', ''true'')]"
    by (auto simp: accepted_def formal_def ParseBool_def)
  from main_reads_arguments [OF this, of "[''false'', ''--k8s-watch-namespace=dev'']" GetConfig NewManager added start]
  show "main [''-enable-leader-election=T'', ''--k8s-watch-namespace'', ''--prod'', ''--metrics-addr=:8080'',
      ''--enable-leader-election'', ''false'', ''--k8s-watch-namespace=dev''] GetConfig NewManager added start =
    (case GetConfig '''' of Some err \<Rightarrow> (1, None)
     | None \<Rightarrow>
         (let options = \<lparr>mo_Namespace = ''--prod'', mo_MetricsBindAddress = '':8080'', mo_Port = 9443,
                mo_LeaderElection = True, mo_LeaderElectionID = ''4ebc9a03.terraform.io''\<rparr>;
              (status, ran) = main_status (NewManager options) added start in
          (status, map_option (Pair options) ran)))" by (simp add: values_of_def ParseBool_def cong: option.case_cong)
qed

text \<open>
  A value that is given to the boolean flag as an argument of its own ends the flags: leader
  election is on, whatever the value, and what follows is ignored, so that a namespace after it is not watched alone but every namespace is.
\<close>
lemma leader_election_value_ends_flags:
  assumes "length v < 2 \<or> hd v \<noteq> CHR ''-''"
  shows "main (''--enable-leader-election'' # v # rest) GetConfig NewManager added start =
      main [''--enable-leader-election''] GetConfig NewManager added start"
proof -
  let ?on = "default_flags\<lparr>fl_enableLeaderElection := True\<rparr>"
  have leader: "flag_Parse (''--enable-leader-election'' # args) default_flags = flag_Parse args ?on" for args
    by (subst flag_Parse.simps) (simp add: split_flag_plain set_flag_def ParseBool_def)
  from parse_stops [of "v # rest" ?on] assms obtain ignored where "flag_Parse (v # rest) ?on = Inr (?on, ignored)" by auto
  moreover from parse_stops [of "[]" ?on] obtain nothing where "flag_Parse [] ?on = Inr (?on, nothing)" by auto
  ultimately show ?thesis unfolding main_def leader by simp
qed

text \<open>Verbosities are negative levels; from 129 on they wrap around, so 200 silences the logger.\<close>

lemma digits_value_bound: "digits_value n s = Some v \<Longrightarrow> 0 \<le> n \<Longrightarrow> n \<le> v"
  by (induction n s rule: digits_value.induct) (auto split: option.splits)

lemma verbosity_level:
  assumes "Atoi s = Some n" "levelStrings (ToLower s) = None" "0 < n"
  shows "set_level s fl = Some (fl\<lparr>fl_Level := Some (word_of_int (- n))\<rparr>)"
    and "n \<le> 128 \<Longrightarrow> sint (word_of_int (- n) :: 8 word) = - n"
proof -
  show "set_level s fl = Some (fl\<lparr>fl_Level := Some (word_of_int (- n))\<rparr>)" using assms by (simp add: set_level_def)
  show "sint (word_of_int (- n) :: 8 word) = - n" if "n \<le> 128"
    unfolding int_word_sint using that assms(3) by simp
qed

lemma verbosity_wraps:
  "map_option (\<lambda>fl. map_option sint (fl_Level fl)) (set_level ''200'' fl) = Some (Some 56)"
  by (simp add: set_level_def levelStrings_def ToLower_def Atoi_def digit_value_def)

end
