(* ===== verification/Api_Scheme.thy ===== *)
theory Api_Scheme
  imports Controller_Watch
begin

text \<open>
  \<open>api/v1alpha1/groupversion_info.go\<close>, the \<open>init\<close> functions of \<open>workspace_types.go\<close> and \<open>main.go\<close>, and what they call: the
  scheme of the API machinery, which maps kinds to Go types and back. From it come the kind that
  owner references carry and the kind the owner handler looks for. A registration that panics ends the process before \<open>main\<close>.
\<close>

section \<open>Schemes\<close>

record GroupVersion =
  gv_Group :: string
  gv_Version :: string

record GroupVersionKind =
  gvk_GroupVersion :: GroupVersion
  gvk_Kind :: string

text \<open>A Go type: its package and its name.\<close>

record go_type =
  ty_PkgPath :: string
  ty_Name :: string

record scheme =
  gvkToType :: "GroupVersionKind \<Rightarrow> go_type option"
  typeToGVK :: "go_type \<Rightarrow> GroupVersionKind list"
  unversionedTypes :: "go_type \<Rightarrow> GroupVersionKind option"
  unversionedKinds :: "string \<Rightarrow> go_type option"

definition WithKind :: "GroupVersion \<Rightarrow> string \<Rightarrow> GroupVersionKind" where
  "WithKind gv kind = \<lparr>gvk_GroupVersion = gv, gvk_Kind = kind\<rparr>"

text \<open>The methods of a scheme; \<open>None\<close> is a panic.\<close>

definition AddKnownTypeWithName :: "GroupVersionKind \<Rightarrow> go_type \<Rightarrow> scheme \<Rightarrow> scheme option" where
  "AddKnownTypeWithName gvk t s =
     (if gv_Version (gvk_GroupVersion gvk) = '''' then None
      else if gvkToType s gvk \<noteq> None \<and> gvkToType s gvk \<noteq> Some t then None
      else
        let s = s\<lparr>gvkToType := (gvkToType s)(gvk \<mapsto> t)\<rparr> in
        if gvk \<in> set (typeToGVK s t) then Some s
        else Some (s\<lparr>typeToGVK := (typeToGVK s)(t := typeToGVK s t @ [gvk])\<rparr>))"

fun AddKnownTypes :: "GroupVersion \<Rightarrow> go_type list \<Rightarrow> scheme \<Rightarrow> scheme option" where
  "AddKnownTypes gv [] s = Some s"
| "AddKnownTypes gv (t # ts) s =
     (case AddKnownTypeWithName (WithKind gv (ty_Name t)) t s of
        None \<Rightarrow> None
      | Some s \<Rightarrow> AddKnownTypes gv ts s)"

fun mark_unversioned :: "GroupVersion \<Rightarrow> go_type list \<Rightarrow> scheme \<Rightarrow> scheme option" where
  "mark_unversioned version [] s = Some s"
| "mark_unversioned version (t # ts) s =
     (let gvk = WithKind version (ty_Name t);
          s = s\<lparr>unversionedTypes := (unversionedTypes s)(t \<mapsto> gvk)\<rparr> in
      if unversionedKinds s (gvk_Kind gvk) \<noteq> None \<and> unversionedKinds s (gvk_Kind gvk) \<noteq> Some t then None
      else mark_unversioned version ts (s\<lparr>unversionedKinds := (unversionedKinds s)(gvk_Kind gvk \<mapsto> t)\<rparr>))"

definition AddUnversionedTypes :: "GroupVersion \<Rightarrow> go_type list \<Rightarrow> scheme \<Rightarrow> scheme option" where
  "AddUnversionedTypes version types s =
     (case AddKnownTypes version types s of
        None \<Rightarrow> None
      | Some s \<Rightarrow> mark_unversioned version types s)"

definition ObjectKinds :: "go_type \<Rightarrow> scheme \<Rightarrow> go_error + (GroupVersionKind list \<times> bool)" where
  "ObjectKinds t s =
     (if typeToGVK s t = [] then Inl (ErrorString (''no kind is registered for the type '' @ ty_Name t))
      else Inr (typeToGVK s t, unversionedTypes s t \<noteq> None))"

definition GVKForObject :: "go_type \<Rightarrow> scheme \<Rightarrow> go_error + GroupVersionKind" where
  "GVKForObject t s =
     (case ObjectKinds t s of
        Inl err \<Rightarrow> Inl err
      | Inr (gvks, isUnversioned) \<Rightarrow>
          if isUnversioned then
            Inl (ErrorString (''cannot create group-version-kind for unversioned type '' @ ty_Name t))
          else if length gvks < 1 then
            Inl (ErrorString (''no group-version-kinds associated with type '' @ ty_Name t))
          else if length gvks > 1 then
            Inl (ErrorString (''multiple group-version-kinds associated with type '' @ ty_Name t @
              '', refusing to guess at one''))
          else Inr (hd gvks))"

text \<open>\<open>parseOwnerTypeGroupKind\<close>: the group and kind the owner handler compares with.\<close>

definition parseOwnerTypeGroupKind :: "go_type \<Rightarrow> scheme \<Rightarrow> go_error + (string \<times> string)" where
  "parseOwnerTypeGroupKind t s =
     (case ObjectKinds t s of
        Inl err \<Rightarrow> Inl err
      | Inr (kinds, _) \<Rightarrow>
          if length kinds \<noteq> 1 then Inl (ErrorString (''expected exactly 1 kind for OwnerType '' @ ty_Name t))
          else Inr (gv_Group (gvk_GroupVersion (hd kinds)), gvk_Kind (hd kinds)))"

section \<open>Group versions as text\<close>

definition GroupVersion_String :: "GroupVersion \<Rightarrow> string" where
  "GroupVersion_String gv =
     (if gv_Group gv \<noteq> '''' then gv_Group gv @ ''/'' @ gv_Version gv else gv_Version gv)"

lemma takeWhile_slash:
  "CHR ''/'' \<notin> set g \<Longrightarrow> takeWhile (\<lambda>c. c \<noteq> CHR ''/'') (g @ CHR ''/'' # v) = g \<and>
   dropWhile (\<lambda>c. c \<noteq> CHR ''/'') (g @ CHR ''/'' # v) = CHR ''/'' # v"
  by (induction g) auto

text \<open>
  The API version that is written into an owner reference is read back by the owner handler: printing a group and a
  version and parsing the text gives both again, when they hold no slash and the version is not empty.
\<close>
lemma group_version_round_trip:
  assumes "CHR ''/'' \<notin> set (gv_Group gv)" "CHR ''/'' \<notin> set (gv_Version gv)" "gv_Version gv \<noteq> ''''"
  shows "ParseGroupVersion (GroupVersion_String gv) = Inr (gv_Group gv, gv_Version gv)"
proof -
  from assms(1,2) have "count_list (gv_Group gv) (CHR ''/'') = 0" "count_list (gv_Version gv) (CHR ''/'') = 0"
    by (simp_all add: count_list_0_iff)
  with assms takeWhile_slash show ?thesis
    by (cases "gv_Group gv") (auto simp: GroupVersion_String_def)
qed

section \<open>The scheme of the operator\<close>

definition GroupVersion_v1alpha1 :: GroupVersion where
  "GroupVersion_v1alpha1 = \<lparr>gv_Group = ''app.terraform.io'', gv_Version = ''v1alpha1''\<rparr>"

definition v1alpha1_type :: "string \<Rightarrow> go_type" where
  "v1alpha1_type name = \<lparr>ty_PkgPath = ''github.com/hashicorp/terraform-k8s/api/v1alpha1'', ty_Name = name\<rparr>"

definition meta_type :: "string \<Rightarrow> go_type" where
  "meta_type name = \<lparr>ty_PkgPath = ''k8s.io/apimachinery/pkg/apis/meta/v1'', ty_Name = name\<rparr>"

definition Unversioned :: GroupVersion where
  "Unversioned = \<lparr>gv_Group = '''', gv_Version = ''v1''\<rparr>"

definition optionsTypes :: "go_type list" where
  "optionsTypes = map meta_type [''ListOptions'', ''GetOptions'', ''DeleteOptions'', ''CreateOptions'',
     ''UpdateOptions'', ''PatchOptions'']"

definition statusTypes :: "go_type list" where
  "statusTypes = map meta_type [''Status'', ''APIVersions'', ''APIGroupList'', ''APIGroup'', ''APIResourceList'']"

text \<open>Conversions and defaults, which it also registers, are not part of the model.\<close>

definition AddToGroupVersion :: "GroupVersion \<Rightarrow> scheme \<Rightarrow> scheme option" where
  "AddToGroupVersion gv s =
     (case AddKnownTypeWithName (WithKind gv ''WatchEvent'') (meta_type ''WatchEvent'') s of
        None \<Rightarrow> None
      | Some s \<Rightarrow>
          (case AddKnownTypeWithName (WithKind (gv\<lparr>gv_Version := ''__internal''\<rparr>) ''WatchEvent'')
                  (meta_type ''InternalEvent'') s of
             None \<Rightarrow> None
           | Some s \<Rightarrow>
               (case AddKnownTypes gv optionsTypes s of
                  None \<Rightarrow> None
                | Some s \<Rightarrow> AddUnversionedTypes Unversioned statusTypes s)))"

text \<open>
  \<open>SchemeBuilder.Register(&Workspace{}, &WorkspaceList{})\<close> of \<open>workspace_types.go\<close> leaves one function in the builder, which
  \<open>AddToScheme\<close> runs.
\<close>

definition registered_types :: "go_type list" where
  "registered_types = [v1alpha1_type ''Workspace'', v1alpha1_type ''WorkspaceList'']"

definition AddToScheme :: "scheme \<Rightarrow> scheme option" where
  "AddToScheme s =
     (case AddKnownTypes GroupVersion_v1alpha1 registered_types s of
        None \<Rightarrow> None
      | Some s \<Rightarrow> AddToGroupVersion GroupVersion_v1alpha1 s)"

definition NewScheme :: scheme where
  "NewScheme = \<lparr>gvkToType = (\<lambda>_. None), typeToGVK = (\<lambda>_. []), unversionedTypes = (\<lambda>_. None),
     unversionedKinds = (\<lambda>_. None)\<rparr>"

text \<open>\<open>init\<close> of \<open>main.go\<close>: the built-in types, whose registration is a parameter, and then those of the operator.\<close>

definition main_init :: "(scheme \<Rightarrow> scheme option) \<Rightarrow> scheme option" where
  "main_init clientgoscheme =
     (case clientgoscheme NewScheme of
        None \<Rightarrow> None
      | Some s \<Rightarrow> AddToScheme s)"

section \<open>Registering types\<close>

lemma WithKind_eq [simp]: "WithKind gv k = WithKind gv' k' \<longleftrightarrow> gv = gv' \<and> k = k'"
  by (auto simp: WithKind_def)

lemma WithKind_simps [simp]: "gvk_GroupVersion (WithKind gv k) = gv" "gvk_Kind (WithKind gv k) = k"
  by (simp_all add: WithKind_def)

text \<open>A type that nobody else has taken the kind of is registered, and no other type is touched.\<close>

lemma AddKnownTypeWithName_Some:
  assumes "gv_Version (gvk_GroupVersion gvk) \<noteq> ''''" "gvkToType s gvk \<in> {None, Some t}"
  shows "AddKnownTypeWithName gvk t s = Some (s\<lparr>gvkToType := (gvkToType s)(gvk \<mapsto> t),
    typeToGVK := (typeToGVK s)(t := (if gvk \<in> set (typeToGVK s t) then typeToGVK s t else typeToGVK s t @ [gvk]))\<rparr>)"
  using assms by (cases s) (auto simp: AddKnownTypeWithName_def)

text \<open>A scheme that differs from another one only in the types \<open>ts\<close> and in the kinds of \<open>gv\<close>.\<close>

definition registers :: "GroupVersion \<Rightarrow> go_type list \<Rightarrow> scheme \<Rightarrow> scheme \<Rightarrow> bool" where
  "registers gv ts s s' \<longleftrightarrow>
     (\<forall>t. t \<notin> set ts \<longrightarrow> typeToGVK s' t = typeToGVK s t \<and> unversionedTypes s' t = unversionedTypes s t) \<and>
     (\<forall>k. k \<notin> (\<lambda>t. WithKind gv (ty_Name t)) ` set ts \<longrightarrow> gvkToType s' k = gvkToType s k) \<and>
     (\<forall>k. k \<notin> ty_Name ` set ts \<longrightarrow> unversionedKinds s' k = unversionedKinds s k)"

lemma AddKnownTypes_Some:
  assumes "gv_Version gv \<noteq> ''''" "distinct (map ty_Name ts)"
    and "\<And>t. t \<in> set ts \<Longrightarrow> gvkToType s (WithKind gv (ty_Name t)) \<in> {None, Some t}"
  shows "\<exists>s'. AddKnownTypes gv ts s = Some s' \<and> registers gv ts s s' \<and>
    unversionedTypes s' = unversionedTypes s \<and> unversionedKinds s' = unversionedKinds s"
  using assms(2,3)
proof (induction ts arbitrary: s)
  case Nil
  then show ?case by (simp add: registers_def)
next
  case (Cons t ts)
  let ?k = "WithKind gv (ty_Name t)"
  define s1 where "s1 = s\<lparr>gvkToType := (gvkToType s)(?k \<mapsto> t),
    typeToGVK := (typeToGVK s)(t := (if ?k \<in> set (typeToGVK s t) then typeToGVK s t else typeToGVK s t @ [?k]))\<rparr>"
  from AddKnownTypeWithName_Some [of ?k s t] assms(1) Cons.prems(2) [of t]
  have s1: "AddKnownTypeWithName ?k t s = Some s1" unfolding s1_def by simp
  have "gvkToType s1 (WithKind gv (ty_Name t')) \<in> {None, Some t'}" if "t' \<in> set ts" for t'
    using Cons.prems(1) Cons.prems(2) [of t'] that by (auto simp: s1_def image_iff)
  with Cons.IH [of s1] Cons.prems(1) obtain s' where "AddKnownTypes gv ts s1 = Some s'" "registers gv ts s1 s'"
    "unversionedTypes s' = unversionedTypes s1" "unversionedKinds s' = unversionedKinds s1" by auto
  with s1 show ?case by (auto simp: registers_def s1_def)
qed

lemma mark_unversioned_Some:
  assumes "distinct (map ty_Name ts)" and "\<And>t. t \<in> set ts \<Longrightarrow> unversionedKinds s (ty_Name t) \<in> {None, Some t}"
  shows "\<exists>s'. mark_unversioned gv ts s = Some s' \<and> typeToGVK s' = typeToGVK s \<and> gvkToType s' = gvkToType s \<and>
    registers gv ts s s'"
  using assms
proof (induction ts arbitrary: s)
  case Nil
  then show ?case by (simp add: registers_def)
next
  case (Cons t ts)
  let ?s = "s\<lparr>unversionedTypes := (unversionedTypes s)(t \<mapsto> WithKind gv (ty_Name t)),
    unversionedKinds := (unversionedKinds s)(ty_Name t \<mapsto> t)\<rparr>"
  have "unversionedKinds ?s (ty_Name t') \<in> {None, Some t'}" if "t' \<in> set ts" for t'
    using Cons.prems(1) Cons.prems(2) [of t'] that by (auto simp: image_iff)
  with Cons.IH [of ?s] Cons.prems(1) obtain s' where "mark_unversioned gv ts ?s = Some s'" "typeToGVK s' = typeToGVK ?s"
    "gvkToType s' = gvkToType ?s" "registers gv ts ?s s'" by auto
  with Cons.prems(2) [of t] show ?case by (auto simp: registers_def Let_def)
qed

lemma AddUnversionedTypes_Some:
  assumes "gv_Version gv \<noteq> ''''" "distinct (map ty_Name ts)"
    and "\<And>t. t \<in> set ts \<Longrightarrow> gvkToType s (WithKind gv (ty_Name t)) \<in> {None, Some t}"
    and "\<And>t. t \<in> set ts \<Longrightarrow> unversionedKinds s (ty_Name t) \<in> {None, Some t}"
  shows "\<exists>s'. AddUnversionedTypes gv ts s = Some s' \<and> registers gv ts s s'"
proof -
  from AddKnownTypes_Some [OF assms(1,2,3)] obtain s1 where s1: "AddKnownTypes gv ts s = Some s1" "registers gv ts s s1"
    "unversionedTypes s1 = unversionedTypes s" "unversionedKinds s1 = unversionedKinds s" by blast
  from mark_unversioned_Some [OF assms(2), of s1 gv] assms(4) s1(4) obtain s' where "mark_unversioned gv ts s1 = Some s'"
    "typeToGVK s' = typeToGVK s1" "gvkToType s' = gvkToType s1" "registers gv ts s1 s'" by auto
  with s1 show ?thesis by (auto simp: AddUnversionedTypes_def registers_def)
qed

lemma meta_distinct [simp]:
  "distinct (map ty_Name optionsTypes)" "distinct (map ty_Name statusTypes)"
  "v1alpha1_type n \<notin> set optionsTypes" "v1alpha1_type n \<notin> set statusTypes" "v1alpha1_type n \<noteq> meta_type m"
  by (auto simp: optionsTypes_def statusTypes_def meta_type_def v1alpha1_type_def)

text \<open>What the registration of the built-in types has to leave alone.\<close>

definition scheme_fits :: "scheme \<Rightarrow> bool" where
  "scheme_fits s \<longleftrightarrow>
     (\<forall>v k. gvkToType s (WithKind \<lparr>gv_Group = ''app.terraform.io'', gv_Version = v\<rparr> k) = None) \<and>
     (\<forall>n. typeToGVK s (v1alpha1_type n) = [] \<and> unversionedTypes s (v1alpha1_type n) = None) \<and>
     (\<forall>t \<in> set statusTypes. gvkToType s (WithKind Unversioned (ty_Name t)) \<in> {None, Some t} \<and>
        unversionedKinds s (ty_Name t) \<in> {None, Some t})"

text \<open>The rest of the registration leaves the kinds of the operator's types alone.\<close>

definition keeps_kinds :: "scheme \<Rightarrow> scheme \<Rightarrow> bool" where
  "keeps_kinds s s' \<longleftrightarrow> (\<forall>n. typeToGVK s' (v1alpha1_type n) = typeToGVK s (v1alpha1_type n) \<and>
     unversionedTypes s' (v1alpha1_type n) = unversionedTypes s (v1alpha1_type n)) \<and>
     gvkToType s' (WithKind GroupVersion_v1alpha1 ''Workspace'') = gvkToType s (WithKind GroupVersion_v1alpha1 ''Workspace'')"

lemma registers_keeps:
  "registers gv ts s s' \<Longrightarrow> ts = optionsTypes \<or> ts = statusTypes \<Longrightarrow> keeps_kinds s s'"
  by (auto simp: registers_def keeps_kinds_def) (auto simp: optionsTypes_def statusTypes_def meta_type_def)

lemma keeps_kinds_trans: "keeps_kinds s1 s2 \<Longrightarrow> keeps_kinds s2 s3 \<Longrightarrow> keeps_kinds s1 s3"
  by (simp add: keeps_kinds_def)

lemma AddToGroupVersion_Some:
  assumes free: "\<And>v k. k \<noteq> ''Workspace'' \<Longrightarrow> k \<noteq> ''WorkspaceList'' \<Longrightarrow>
      gvkToType s (WithKind \<lparr>gv_Group = ''app.terraform.io'', gv_Version = v\<rparr> k) = None"
    and status: "\<And>t. t \<in> set statusTypes \<Longrightarrow> gvkToType s (WithKind Unversioned (ty_Name t)) \<in> {None, Some t} \<and>
      unversionedKinds s (ty_Name t) \<in> {None, Some t}"
  shows "\<exists>s'. AddToGroupVersion GroupVersion_v1alpha1 s = Some s' \<and> keeps_kinds s s'"
proof -
  let ?gv = GroupVersion_v1alpha1
  let ?k1 = "WithKind ?gv ''WatchEvent''" and ?k2 = "WithKind (?gv\<lparr>gv_Version := ''__internal''\<rparr>) ''WatchEvent''"
  note defs = GroupVersion_v1alpha1_def Unversioned_def
  define s1 where "s1 = s\<lparr>gvkToType := (gvkToType s)(?k1 \<mapsto> meta_type ''WatchEvent''),
    typeToGVK := (typeToGVK s)(meta_type ''WatchEvent'' := (if ?k1 \<in> set (typeToGVK s (meta_type ''WatchEvent''))
      then typeToGVK s (meta_type ''WatchEvent'') else typeToGVK s (meta_type ''WatchEvent'') @ [?k1]))\<rparr>"
  have s1: "AddKnownTypeWithName ?k1 (meta_type ''WatchEvent'') s = Some s1"
    unfolding s1_def by (rule AddKnownTypeWithName_Some) (simp_all add: defs free)
  define s2 where "s2 = s1\<lparr>gvkToType := (gvkToType s1)(?k2 \<mapsto> meta_type ''InternalEvent''),
    typeToGVK := (typeToGVK s1)(meta_type ''InternalEvent'' := (if ?k2 \<in> set (typeToGVK s1 (meta_type ''InternalEvent''))
      then typeToGVK s1 (meta_type ''InternalEvent'') else typeToGVK s1 (meta_type ''InternalEvent'') @ [?k2]))\<rparr>"
  have s2: "AddKnownTypeWithName ?k2 (meta_type ''InternalEvent'') s1 = Some s2"
    unfolding s2_def by (rule AddKnownTypeWithName_Some) (simp_all add: s1_def defs free)
  have k2: "keeps_kinds s s2" by (auto simp: keeps_kinds_def s1_def s2_def defs meta_distinct(5))
  have "gvkToType s2 (WithKind ?gv (ty_Name t)) \<in> {None, Some t}" if "t \<in> set optionsTypes" for t
    using that by (auto simp: s1_def s2_def defs free optionsTypes_def meta_type_def)
  with AddKnownTypes_Some [of ?gv optionsTypes s2] obtain s3 where s3: "AddKnownTypes ?gv optionsTypes s2 = Some s3"
    "registers ?gv optionsTypes s2 s3" "unversionedKinds s3 = unversionedKinds s2" by (auto simp: defs)
  have "gvkToType s3 (WithKind Unversioned (ty_Name t)) = gvkToType s2 (WithKind Unversioned (ty_Name t))" for t :: go_type
    using s3(2) by (auto simp: registers_def defs image_iff)
  moreover have "gvkToType s2 (WithKind Unversioned (ty_Name t)) = gvkToType s (WithKind Unversioned (ty_Name t))" for t :: go_type
    by (simp add: s1_def s2_def defs)
  moreover have "unversionedKinds s3 = unversionedKinds s" using s3(3) by (simp add: s1_def s2_def)
  ultimately have ok: "gvkToType s3 (WithKind Unversioned (ty_Name t)) \<in> {None, Some t}"
    "unversionedKinds s3 (ty_Name t) \<in> {None, Some t}" if "t \<in> set statusTypes" for t
    using status [OF that] by simp_all
  have fresh: "gv_Version Unversioned \<noteq> ''''" "distinct (map ty_Name statusTypes)"
    by (simp_all add: defs statusTypes_def meta_type_def)
  from AddUnversionedTypes_Some [of Unversioned statusTypes s3, OF fresh ok]
  obtain s4 where s4: "AddUnversionedTypes Unversioned statusTypes s3 = Some s4" "registers Unversioned statusTypes s3 s4"
    by auto
  from s1 s2 s3(1) s4(1) have "AddToGroupVersion ?gv s = Some s4" by (simp add: AddToGroupVersion_def)
  moreover have "keeps_kinds s s4"
    using k2 registers_keeps [OF s3(2)] registers_keeps [OF s4(2)] keeps_kinds_trans by blast
  ultimately show ?thesis by blast
qed

text \<open>
  C37. The kind that the operator writes into owner references and the one its owner handler looks for are those the scheme
  gives the type of a workspace: when the built-in types leave the group of the operator alone, \<open>init\<close> registers without a
  panic, the type has exactly one kind, that kind decodes to the type, a controller reference names it, and the
  handler compares with its group and kind.
\<close>
theorem workspace_kind:
  assumes "clientgoscheme NewScheme = Some base" "scheme_fits base"
  shows "\<exists>s gvk. main_init clientgoscheme = Some s \<and>
    GVKForObject (v1alpha1_type ''Workspace'') s = Inr gvk \<and> gvkToType s gvk = Some (v1alpha1_type ''Workspace'') \<and>
    or_APIVersion (controller_ref m) = GroupVersion_String (gvk_GroupVersion gvk) \<and>
    or_Kind (controller_ref m) = gvk_Kind gvk \<and>
    parseOwnerTypeGroupKind (v1alpha1_type ''Workspace'') s = Inr (''app.terraform.io'', ''Workspace'')"
proof -
  let ?gv = GroupVersion_v1alpha1 and ?w = "v1alpha1_type ''Workspace''" and ?wl = "v1alpha1_type ''WorkspaceList''"
  let ?k = "WithKind ?gv ''Workspace''" and ?kl = "WithKind ?gv ''WorkspaceList''"
  note fits = assms(2) [unfolded scheme_fits_def]
  have v: "gv_Version ?gv \<noteq> ''''" by (simp add: GroupVersion_v1alpha1_def)
  have types: "?w \<noteq> ?wl" "ty_Name ?w = ''Workspace''" "ty_Name ?wl = ''WorkspaceList''" by (simp_all add: v1alpha1_type_def)
  define s1 where "s1 = base\<lparr>gvkToType := (gvkToType base)(?k \<mapsto> ?w), typeToGVK := (typeToGVK base)(?w := [?k])\<rparr>"
  define s2 where "s2 = s1\<lparr>gvkToType := (gvkToType s1)(?kl \<mapsto> ?wl), typeToGVK := (typeToGVK s1)(?wl := [?kl])\<rparr>"
  have "AddKnownTypeWithName ?k ?w base = Some s1" "AddKnownTypeWithName ?kl ?wl s1 = Some s2"
    using AddKnownTypeWithName_Some [of ?k base ?w] AddKnownTypeWithName_Some [of ?kl s1 ?wl] v fits types
    by (simp_all add: s1_def s2_def GroupVersion_v1alpha1_def)
  then have known: "AddKnownTypes ?gv registered_types base = Some s2" by (simp add: registered_types_def types)
  have free: "gvkToType s2 (WithKind \<lparr>gv_Group = ''app.terraform.io'', gv_Version = v\<rparr> k) = None"
    if "k \<noteq> ''Workspace''" "k \<noteq> ''WorkspaceList''" for v k
    using fits that by (simp add: s1_def s2_def)
  have "gvkToType s2 (WithKind Unversioned k) = gvkToType base (WithKind Unversioned k)" "unversionedKinds s2 = unversionedKinds base" for k
    by (simp_all add: s1_def s2_def GroupVersion_v1alpha1_def Unversioned_def)
  with AddToGroupVersion_Some [of s2, OF free] fits obtain s where s: "AddToGroupVersion ?gv s2 = Some s" "keeps_kinds s2 s"
    by auto
  from s(2) have "typeToGVK s ?w = [?k]" "unversionedTypes s ?w = None" "gvkToType s ?k = Some ?w"
    using types fits by (simp_all add: keeps_kinds_def s1_def s2_def)
  moreover from assms(1) known s(1) have "main_init clientgoscheme = Some s" by (simp add: main_init_def AddToScheme_def)
  ultimately show ?thesis
    by (intro exI [of _ s] exI [of _ ?k])
      (simp add: GVKForObject_def ObjectKinds_def parseOwnerTypeGroupKind_def controller_ref_def GroupVersion_String_def
        GroupVersion_v1alpha1_def)
qed

lemma workspace_kind_witness:
  "\<exists>s gvk. main_init Some = Some s \<and> GVKForObject (v1alpha1_type ''Workspace'') s = Inr gvk \<and> gvk_Kind gvk = ''Workspace''"
proof -
  have "scheme_fits NewScheme" by (simp add: scheme_fits_def NewScheme_def)
  from workspace_kind [of Some NewScheme, OF _ this, of "Meta example_workspace"] show ?thesis by (auto simp: controller_ref_def)
qed

lemma group_version_round_trip_witness:
  "ParseGroupVersion (GroupVersion_String GroupVersion_v1alpha1) = Inr (''app.terraform.io'', ''v1alpha1'')"
  using group_version_round_trip [of GroupVersion_v1alpha1] by (simp add: GroupVersion_v1alpha1_def)

end
