(* ===== verification/Object_Store.thy ===== *)
theory Object_Store
  imports Prelude "HOL-Library.Sublist"
begin

text \<open>
  An explicit store for the objects of a Go program, and copying in it: pointers, slices with
  their backing arrays, views of what a pointer leads to, and what it means that a function
  copies. A store is the list of its cells; allocation appends one. Copying never changes a cell,
  so the order in which it allocates them is not observable: a struct is built first and put in
  its new cell then.
\<close>

section \<open>Stores\<close>

type_synonym ptr = nat
type_synonym ('c, 'a) mem = "'c list \<Rightarrow> ('a \<times> 'c list) option"

text \<open>\<open>None\<close> is an access to a cell that does not exist or has another type, which Go's types exclude.\<close>

definition give :: "'a \<Rightarrow> ('c, 'a) mem" where
  "give a = (\<lambda>h. Some (a, h))"

definition stuck :: "('c, 'a) mem" where
  "stuck = (\<lambda>h. None)"

definition also_then :: "('c, 'a) mem \<Rightarrow> ('a \<Rightarrow> ('c, 'b) mem) \<Rightarrow> ('c, 'b) mem" where
  "also_then m k = (\<lambda>h. case m h of None \<Rightarrow> None | Some (a, h') \<Rightarrow> k a h')"

definition cell_at :: "('c \<Rightarrow> 'r option) \<Rightarrow> 'c list \<Rightarrow> ptr \<Rightarrow> 'r option" where
  "cell_at d h p = (if p < length h then d (h ! p) else None)"

definition load :: "('c \<Rightarrow> 'r option) \<Rightarrow> ptr \<Rightarrow> ('c, 'r) mem" where
  "load d p = (\<lambda>h. case cell_at d h p of None \<Rightarrow> None | Some r \<Rightarrow> Some (r, h))"

definition alloc :: "'c \<Rightarrow> ('c, ptr) mem" where
  "alloc c = (\<lambda>h. Some (length h, h @ [c]))"

section \<open>Pointers, lists and slices\<close>

text \<open>
  A view reads what a value of the store stands for. A slice is nil, or a backing array, the
  index of its first element in it and its length.
\<close>

type_synonym ('c, 'r, 'x) view = "'c list \<Rightarrow> 'r \<Rightarrow> 'x option"
type_synonym header = "(ptr \<times> nat \<times> nat) option"

definition view_ptr :: "('c \<Rightarrow> 'r option) \<Rightarrow> ('c, 'r, 'x) view \<Rightarrow> ('c, ptr, 'x) view" where
  "view_ptr d v h p = (case cell_at d h p of None \<Rightarrow> None | Some r \<Rightarrow> v h r)"

fun view_opt :: "('c, 'r, 'x) view \<Rightarrow> ('c, 'r option, 'x option) view" where
  "view_opt v h None = Some None"
| "view_opt v h (Some r) = map_option Some (v h r)"

fun view_list :: "('c, 'r, 'x) view \<Rightarrow> ('c, 'r list, 'x list) view" where
  "view_list v h [] = Some []"
| "view_list v h (r # rs) =
     (case v h r of None \<Rightarrow> None | Some x \<Rightarrow> map_option (\<lambda>xs. x # xs) (view_list v h rs))"

fun view_slice :: "('c \<Rightarrow> 'r list option) \<Rightarrow> ('c, 'r, 'x) view \<Rightarrow> ('c, header, 'x slice) view" where
  "view_slice d v h None = Some None"
| "view_slice d v h (Some (a, i, n)) =
     (case cell_at d h a of
        None \<Rightarrow> None
      | Some rs \<Rightarrow> if i + n \<le> length rs then map_option Some (view_list v h (take n (drop i rs))) else None)"

text \<open>
  Copying: \<open>new(T)\<close> and \<open>DeepCopyInto\<close>; a pointer that may be nil; the loop over a slice;
  \<open>make\<close> with the length of the slice and a copy of its elements.
\<close>

definition copy_new ::
  "('c \<Rightarrow> 'r option) \<Rightarrow> ('r \<Rightarrow> 'c) \<Rightarrow> ('r \<Rightarrow> ('c, 'r) mem) \<Rightarrow> ptr \<Rightarrow> ('c, ptr) mem" where
  "copy_new d con into p = also_then (load d p) (\<lambda>r. also_then (into r) (\<lambda>out. alloc (con out)))"

fun copy_opt :: "('r \<Rightarrow> ('c, 'r) mem) \<Rightarrow> 'r option \<Rightarrow> ('c, 'r option) mem" where
  "copy_opt m None = give None"
| "copy_opt m (Some r) = also_then (m r) (\<lambda>r'. give (Some r'))"

fun copy_list :: "('r \<Rightarrow> ('c, 'r) mem) \<Rightarrow> 'r list \<Rightarrow> ('c, 'r list) mem" where
  "copy_list m [] = give []"
| "copy_list m (r # rs) = also_then (m r) (\<lambda>r'. also_then (copy_list m rs) (\<lambda>rs'. give (r' # rs')))"

fun copy_slice ::
  "('c \<Rightarrow> 'r list option) \<Rightarrow> ('r list \<Rightarrow> 'c) \<Rightarrow> ('r \<Rightarrow> ('c, 'r) mem) \<Rightarrow> header \<Rightarrow> ('c, header) mem" where
  "copy_slice d con m None = give None"
| "copy_slice d con m (Some (a, i, n)) =
     also_then (load d a) (\<lambda>rs.
     if i + n \<le> length rs then
       also_then (copy_list m (take n (drop i rs))) (\<lambda>rs'.
       also_then (alloc (con rs')) (\<lambda>b. give (Some (b, 0, n))))
     else stuck)"

section \<open>What it means to copy\<close>

text \<open>
  A view that is defined stays the same when the store grows. \<open>above lo v h r x\<close>: the view of
  \<open>r\<close> is \<open>x\<close> and rests on cells from \<open>lo\<close> on only, whatever happens to the others.
\<close>

definition view_mono :: "('c, 'r, 'x) view \<Rightarrow> bool" where
  "view_mono v \<longleftrightarrow> (\<forall>h h' r x. v h r = Some x \<longrightarrow> prefix h h' \<longrightarrow> v h' r = Some x)"

definition above :: "nat \<Rightarrow> ('c, 'r, 'x) view \<Rightarrow> 'c list \<Rightarrow> 'r \<Rightarrow> 'x \<Rightarrow> bool" where
  "above lo v h r x \<longleftrightarrow>
     (\<forall>h''. length h'' = length h \<longrightarrow> drop lo h'' = drop lo h \<longrightarrow> v h'' r = Some x)"

text \<open>
  \<open>copies v m\<close>: where the view is defined, \<open>m\<close> returns; the store has only grown, and the result
  has the same view, which rests on new cells only.
\<close>

definition copies :: "('c, 'r, 'x) view \<Rightarrow> ('r \<Rightarrow> ('c, 'r) mem) \<Rightarrow> bool" where
  "copies v m \<longleftrightarrow> view_mono v \<and>
     (\<forall>h r x. v h r = Some x \<longrightarrow>
        (\<exists>r' h'. m r h = Some (r', h') \<and> prefix h h' \<and> above (length h) v h' r' x))"

named_theorems copies_rules \<open>functions that copy\<close>

lemma view_monoD: "view_mono v \<Longrightarrow> v h r = Some x \<Longrightarrow> prefix h h' \<Longrightarrow> v h' r = Some x"
  unfolding view_mono_def by blast

lemma aboveD: "above lo v h r x \<Longrightarrow> v h r = Some x"
  unfolding above_def by blast

lemma above_lower:
  assumes "above lo v h r x" and "lo' \<le> lo"
  shows "above lo' v h r x"
  unfolding above_def
proof (intro allI impI)
  fix h'' assume h'': "length h'' = length h" "drop lo' h'' = drop lo' h"
  from assms(2) have "drop lo h'' = drop (lo - lo') (drop lo' h'')" "drop lo h = drop (lo - lo') (drop lo' h)"
    by simp_all
  with h''(2) have "drop lo h'' = drop lo h" by simp
  with assms(1) h''(1) show "v h'' r = Some x" by (simp add: above_def)
qed

lemma above_prefix:
  assumes "view_mono v" "above lo v h r x" "prefix h h'"
  shows "above lo v h' r x"
  unfolding above_def
proof (intro allI impI)
  fix h'' assume h'': "length h'' = length h'" "drop lo h'' = drop lo h'"
  let ?g = "take (length h) h''"
  from assms(3) obtain zs where h': "h' = h @ zs" by (rule prefixE)
  have "drop lo ?g = take (length h - lo) (drop lo h')" by (simp add: drop_take h''(2))
  then have "drop lo ?g = drop lo h" by (simp add: h' drop_take [symmetric])
  moreover have "length ?g = length h" using h''(1) h' by simp
  ultimately have "v ?g r = Some x" using assms(2) by (simp add: above_def)
  with assms(1) show "v h'' r = Some x" by (rule view_monoD) (rule take_is_prefix)
qed

lemma copies_mono: "copies v m \<Longrightarrow> view_mono v"
  unfolding copies_def by blast

text \<open>A copying step in a sequence that started at store \<open>h0\<close>.\<close>

lemma copies_step:
  assumes m: "copies v m" and x: "v h0 r = Some x" and pre: "prefix h0 h"
  obtains r' h' where "m r h = Some (r', h')" "prefix h h'" "prefix h0 h'" "above (length h0) v h' r' x"
proof -
  from view_monoD [OF copies_mono [OF m] x pre] m obtain r' h' where
    1: "m r h = Some (r', h')" "prefix h h'" "above (length h) v h' r' x"
    unfolding copies_def by blast
  with above_lower [OF 1(3) prefix_length_le [OF pre]] prefix_order.trans [OF pre 1(2)] that show thesis by blast
qed

section \<open>The combinators copy\<close>

lemma copies_value [copies_rules]: "copies (\<lambda>h x. Some x) give"
  by (simp add: copies_def view_mono_def above_def give_def)

lemma cell_at_prefix: "cell_at d h p = Some r \<Longrightarrow> prefix h h' \<Longrightarrow> cell_at d h' p = Some r"
  by (auto simp: cell_at_def nth_append elim!: prefixE split: if_splits)

lemma cell_at_above:
  assumes "length h'' = length h + 1" and "drop lo h'' = drop lo (h @ [c])" and "lo \<le> length h"
  shows "cell_at d h'' (length h) = d c"
proof -
  have "h'' ! length h = drop lo h'' ! (length h - lo)"
    by (subst nth_drop) (use assms in simp_all)
  also have "\<dots> = c" by (simp add: assms(2,3) nth_append)
  finally show ?thesis using assms(1) by (simp add: cell_at_def)
qed

lemma copies_opt [copies_rules]:
  assumes m: "copies v m"
  shows "copies (view_opt v) (copy_opt m)"
  unfolding copies_def
proof (intro conjI allI impI)
  show "view_mono (view_opt v)"
    unfolding view_mono_def
  proof (intro allI impI)
    fix h h' r x assume "view_opt v h r = Some x" and p: "prefix h h'"
    then show "view_opt v h' r = Some x"
      by (cases r) (auto dest: view_monoD [OF copies_mono [OF m] _ p])
  qed
  fix h r x assume x: "view_opt v h r = Some x"
  show "\<exists>r' h'. copy_opt m r h = Some (r', h') \<and> prefix h h' \<and> above (length h) (view_opt v) h' r' x"
  proof (cases r)
    case None
    with x show ?thesis by (auto simp: give_def above_def)
  next
    case (Some s)
    with x obtain y where y: "v h s = Some y" "x = Some y" by auto
    from m y(1) obtain s' h' where "m s h = Some (s', h')" "prefix h h'" "above (length h) v h' s' y"
      unfolding copies_def by blast
    with Some y(2) show ?thesis by (auto simp: also_then_def give_def above_def)
  qed
qed

lemma copies_list [copies_rules]:
  assumes m: "copies v m"
  shows "copies (view_list v) (copy_list m)"
proof -
  have mono: "view_mono (view_list v)"
    unfolding view_mono_def
  proof (intro allI impI)
    fix h h' rs xs assume "view_list v h rs = Some xs" and p: "prefix h h'"
    then show "view_list v h' rs = Some xs"
      by (induction rs arbitrary: xs) (auto split: option.splits dest: view_monoD [OF copies_mono [OF m] _ p])
  qed
  have "\<exists>rs' h'. copy_list m rs h = Some (rs', h') \<and> prefix h h' \<and> above (length h0) (view_list v) h' rs' xs"
    if "view_list v h0 rs = Some xs" "prefix h0 h" for h0 h rs xs
    using that
  proof (induction rs arbitrary: h xs)
    case Nil
    then show ?case by (auto simp: give_def above_def)
  next
    case (Cons r rs)
    then obtain y ys where ys: "v h0 r = Some y" "view_list v h0 rs = Some ys" "xs = y # ys"
      by (auto split: option.splits)
    from copies_step [OF m ys(1) Cons.prems(2)] obtain r' h1 where
      1: "m r h = Some (r', h1)" "prefix h h1" "prefix h0 h1" "above (length h0) v h1 r' y" .
    from Cons.IH [OF ys(2) 1(3)] obtain rs' h2 where
      2: "copy_list m rs h1 = Some (rs', h2)" "prefix h1 h2" "above (length h0) (view_list v) h2 rs' ys" by blast
    from above_prefix [OF copies_mono [OF m] 1(4) 2(2)] 2(3) have "above (length h0) (view_list v) h2 (r' # rs') xs"
      by (simp add: above_def ys(3))
    with 1 2 show ?case by (auto simp: also_then_def give_def intro: prefix_order.trans)
  qed
  with mono show ?thesis unfolding copies_def by blast
qed

lemma copies_new [copies_rules]:
  assumes m: "copies v into" and d: "\<And>r. d (con r) = Some r"
  shows "copies (view_ptr d v) (copy_new d con into)"
  unfolding copies_def
proof (intro conjI allI impI)
  show "view_mono (view_ptr d v)"
    unfolding view_mono_def
  proof (intro allI impI)
    fix h h' p x assume "view_ptr d v h p = Some x" and p: "prefix h h'"
    then obtain r where r: "cell_at d h p = Some r" "v h r = Some x" by (auto simp: view_ptr_def split: option.splits)
    from cell_at_prefix [OF r(1) p] view_monoD [OF copies_mono [OF m] r(2) p] show "view_ptr d v h' p = Some x"
      by (simp add: view_ptr_def)
  qed
  fix h p x assume "view_ptr d v h p = Some x"
  then obtain r where r: "cell_at d h p = Some r" "v h r = Some x" by (auto simp: view_ptr_def split: option.splits)
  from m r(2) obtain out h1 where 1: "into r h = Some (out, h1)" "prefix h h1" "above (length h) v h1 out x"
    unfolding copies_def by blast
  note new = above_prefix [OF copies_mono [OF m] 1(3), of "h1 @ [con out]"]
  note le = prefix_length_le [OF 1(2)]
  have "view_ptr d v h'' (length h1) = Some x"
    if "length h'' = length (h1 @ [con out])" "drop (length h) h'' = drop (length h) (h1 @ [con out])" for h''
    using new that cell_at_above [of h'' h1 "length h" "con out" d, OF _ that(2) le] d
    by (simp add: view_ptr_def above_def)
  then have "above (length h) (view_ptr d v) (h1 @ [con out]) (length h1) x" unfolding above_def by blast
  with r(1) 1 show "\<exists>q h'. copy_new d con into p h = Some (q, h') \<and> prefix h h' \<and>
      above (length h) (view_ptr d v) h' q x"
    by (auto simp: copy_new_def also_then_def load_def alloc_def intro: prefix_order.trans)
qed

lemma view_list_length: "view_list v h rs = Some xs \<Longrightarrow> length rs = length xs"
  by (induction rs arbitrary: xs) (auto split: option.splits)

lemma copies_slice [copies_rules]:
  assumes m: "copies v m" and d: "\<And>rs. d (con rs) = Some rs"
  shows "copies (view_slice d v) (copy_slice d con m)"
  unfolding copies_def
proof (intro conjI allI impI)
  note ml = copies_list [OF m]
  show "view_mono (view_slice d v)"
    unfolding view_mono_def
  proof (intro allI impI)
    fix h h' s x assume x: "view_slice d v h s = Some x" and p: "prefix h h'"
    show "view_slice d v h' s = Some x"
    proof (cases s)
      case (Some t)
      then obtain a i n where s: "s = Some (a, i, n)" by (cases t) auto
      with x obtain rs where rs: "cell_at d h a = Some rs" by (auto split: option.splits)
      from s x rs cell_at_prefix [OF rs p] show ?thesis
        by (auto split: if_splits dest: view_monoD [OF copies_mono [OF ml] _ p])
    qed (use x in simp)
  qed
  fix h s x assume x: "view_slice d v h s = Some x"
  show "\<exists>s' h'. copy_slice d con m s h = Some (s', h') \<and> prefix h h' \<and> above (length h) (view_slice d v) h' s' x"
  proof (cases s)
    case None
    with x show ?thesis by (auto simp: give_def above_def)
  next
    case (Some t)
    then obtain a i n where s: "s = Some (a, i, n)" by (cases t) auto
    with x obtain rs xs where rs: "cell_at d h a = Some rs" "i + n \<le> length rs"
      "view_list v h (take n (drop i rs)) = Some xs" "x = Some xs"
      by (auto split: option.splits if_splits)
    from ml rs(3) obtain out h1 where 1: "copy_list m (take n (drop i rs)) h = Some (out, h1)"
      "prefix h h1" "above (length h) (view_list v) h1 out xs"
      unfolding copies_def by blast
    note new = above_prefix [OF copies_mono [OF ml] 1(3), of "h1 @ [con out]"]
    note le = prefix_length_le [OF 1(2)]
    from view_list_length [OF rs(3)] view_list_length [OF aboveD [OF 1(3)]] rs(2) have n: "length out = n" by simp
    have "view_slice d v h'' (Some (length h1, 0, n)) = Some x"
      if "length h'' = length (h1 @ [con out])" "drop (length h) h'' = drop (length h) (h1 @ [con out])" for h''
      using new that cell_at_above [of h'' h1 "length h" "con out" d, OF _ that(2) le] d n rs(4)
      by (simp add: above_def)
    then have "above (length h) (view_slice d v) (h1 @ [con out]) (Some (length h1, 0, n)) x"
      unfolding above_def by blast
    with rs 1 show ?thesis
      by (auto simp: s also_then_def load_def alloc_def give_def intro: prefix_order.trans)
  qed
qed

section \<open>Records\<close>

text \<open>
  The reference fields of a struct as a tuple: a function that copies them one after the other
  and leaves the other fields alone copies the struct.
\<close>

fun view_pair :: "('c, 'r, 'x) view \<Rightarrow> ('c, 's, 'y) view \<Rightarrow> ('c, 'r \<times> 's, 'x \<times> 'y) view" where
  "view_pair v w h (r, s) =
     (case v h r of None \<Rightarrow> None | Some x \<Rightarrow> map_option (\<lambda>y. (x, y)) (w h s))"

fun copy_pair ::
  "('r \<Rightarrow> ('c, 'r) mem) \<Rightarrow> ('s \<Rightarrow> ('c, 's) mem) \<Rightarrow> 'r \<times> 's \<Rightarrow> ('c, 'r \<times> 's) mem" where
  "copy_pair m n (r, s) = also_then (m r) (\<lambda>r'. also_then (n s) (\<lambda>s'. give (r', s')))"

lemma also_then_assoc [simp]:
  "also_then (also_then m k) l = also_then m (\<lambda>a. also_then (k a) l)"
  "also_then (give a) k = k a"
  by (auto simp: also_then_def give_def split: option.split)

lemma copies_pair [copies_rules]:
  assumes m: "copies v m" and n: "copies w n"
  shows "copies (view_pair v w) (copy_pair m n)"
  unfolding copies_def
proof (intro conjI allI impI)
  show "view_mono (view_pair v w)"
    unfolding view_mono_def
  proof (intro allI impI)
    fix h h' r x assume "view_pair v w h r = Some x" and p: "prefix h h'"
    then obtain a b y z where r: "r = (a, b)" "v h a = Some y" "w h b = Some z" "x = (y, z)"
      by (cases r) (auto split: option.splits)
    from view_monoD [OF copies_mono [OF m] r(2) p] view_monoD [OF copies_mono [OF n] r(3) p] r(1,4)
    show "view_pair v w h' r = Some x" by simp
  qed
  fix h r x assume "view_pair v w h r = Some x"
  then obtain a b y z where r: "r = (a, b)" "v h a = Some y" "w h b = Some z" "x = (y, z)"
    by (cases r) (auto split: option.splits)
  from copies_step [OF m r(2)] obtain a' h1 where
    1: "m a h = Some (a', h1)" "prefix h h1" "above (length h) v h1 a' y" by blast
  from copies_step [OF n r(3) 1(2)] obtain b' h2 where
    2: "n b h1 = Some (b', h2)" "prefix h1 h2" "prefix h h2" "above (length h) w h2 b' z" .
  from above_prefix [OF copies_mono [OF m] 1(3) 2(2)] 2(4)
  have "above (length h) (view_pair v w) h2 (a', b') x" by (simp add: above_def r(4))
  with 1 2 show "\<exists>r' h'. copy_pair m n r h = Some (r', h') \<and> prefix h h' \<and>
      above (length h) (view_pair v w) h' r' x"
    by (auto simp: r also_then_def give_def)
qed

lemma copies_record:
  assumes m: "copies v m"
    and into: "\<And>r. into r = also_then (m (fields r)) (\<lambda>t. give (upd r t))"
    and view: "\<And>h r. w h r = map_option (mk r) (v h (fields r))"
    and upd: "\<And>r t. fields (upd r t) = t" "\<And>r t. mk (upd r t) = mk r"
  shows "copies w into"
  unfolding copies_def
proof (intro conjI allI impI)
  show "view_mono w"
    unfolding view_mono_def view by (auto dest: view_monoD [OF copies_mono [OF m]])
  fix h r x assume "w h r = Some x"
  then obtain y where y: "v h (fields r) = Some y" "x = mk r y" by (auto simp: view)
  from m y(1) obtain t h' where "m (fields r) h = Some (t, h')" "prefix h h'" "above (length h) v h' t y"
    unfolding copies_def by blast
  then show "\<exists>r' h'. into r h = Some (r', h') \<and> prefix h h' \<and> above (length h) w h' r' x"
    by (auto simp: into also_then_def give_def above_def view upd y(2))
qed

section \<open>A copy and its original\<close>

text \<open>
  The interface of the generated functions: whoever copies promises \<open>copies\<close>, and its clients rely
  on what follows. The function returns; the original keeps its view when any cell that is not its
  own is written, be it of the copy, and the copy when any older cell is.
\<close>

locale deep_copy =
  fixes seen :: "('c, 'r, 'x) view" and copy :: "'r \<Rightarrow> ('c, 'r) mem"
  assumes copies: "copies seen copy"
begin

lemma original_kept:
  assumes "seen h r = Some x" and "take (length h) g = h"
  shows "seen g r = Some x"
proof -
  from assms(2) have "prefix h g" by (metis take_is_prefix)
  with copies_mono [OF copies] assms(1) show ?thesis by (rule view_monoD)
qed

lemma isolated:
  assumes "seen h r = Some x"
  obtains r' h' where "copy r h = Some (r', h')" "prefix h h'"
    "\<And>g. take (length h) g = h \<Longrightarrow> seen g r = Some x" "above (length h) seen h' r' x"
proof -
  from copies assms obtain r' h' where "copy r h = Some (r', h')" "prefix h h'" "above (length h) seen h' r' x"
    unfolding copies_def by blast
  with that original_kept [OF assms] show thesis by simp
qed

lemma same_view:
  assumes "seen h r = Some x" and "copy r h = Some (r', h')"
  shows "seen h' r' = Some x"
  using assms(1)
proof (rule isolated)
  fix s g assume "copy r h = Some (s, g)" "above (length h) seen g s x"
  with assms(2) show ?thesis by (auto dest: aboveD)
qed

end

end
