(* ===== verification/Deep_Copy.thy ===== *)
theory Deep_Copy
  imports Object_Store Api_Types
begin

text \<open>
  \<open>api/v1alpha1/zz_generated.deepcopy.go\<close>: the generated \<open>DeepCopyInto\<close>, \<open>DeepCopy\<close> and
  \<open>DeepCopyObject\<close> of every type of the API, over an explicit store. A raw record is a struct as
  it lies in memory, with pointers and slice headers; a view is the value it stands for. The
  \<open>DeepCopyInto\<close> of the vendored metadata and variable source types follow the vendored code, reduced to
  the fields the operator uses. Reads of a copy may not see, and writes to it may not change,
  the object in the cache the copy was made of.
\<close>

section \<open>Structs in memory\<close>

record raw_EnvVarSource =
  re_ConfigMapKeyRef :: "ptr option"
  re_SecretKeyRef :: "ptr option"

record raw_Variable =
  rv_Key :: string
  rv_Value :: string
  rv_ValueFrom :: "ptr option"
  rv_HCL :: bool
  rv_Sensitive :: bool
  rv_EnvironmentVariable :: bool

record raw_Notification =
  rn_Type :: string
  rn_Enabled :: bool
  rn_Name :: string
  rn_URL :: string
  rn_Token :: string
  rn_Triggers :: header
  rn_Recipients :: header
  rn_Users :: header

record raw_WorkspaceSpec =
  rsp_Organization :: string
  rsp_Module :: "ptr option"
  rsp_VCS :: "ptr option"
  rsp_Variables :: header
  rsp_RunTriggers :: header
  rsp_SecretsMountPath :: string
  rsp_SSHKeyID :: string
  rsp_Outputs :: header
  rsp_TerraformVersion :: string
  rsp_AgentPoolID :: string
  rsp_Notifications :: header
  rsp_OmitNamespacePrefix :: bool
  rsp_AgentPoolName :: string

record raw_WorkspaceStatus =
  rst_RunStatus :: string
  rst_WorkspaceID :: string
  rst_RunID :: string
  rst_ConfigVersionID :: string
  rst_Outputs :: header

record raw_OwnerReference =
  ro_APIVersion :: string
  ro_Kind :: string
  ro_Name :: string
  ro_UID :: string
  ro_Controller :: "ptr option"

record raw_ObjectMeta =
  rm_Name :: string
  rm_Namespace :: string
  rm_UID :: string
  rm_Finalizers :: header
  rm_DeletionTimestamp :: "ptr option"
  rm_OwnerReferences :: header

record raw_Workspace =
  rw_TypeMeta :: "string \<times> string"
  rw_ObjectMeta :: raw_ObjectMeta
  rw_Spec :: raw_WorkspaceSpec
  rw_Status :: raw_WorkspaceStatus

record raw_WorkspaceList =
  rl_TypeMeta :: "string \<times> string"
  rl_ResourceVersion :: string
  rl_Continue :: string
  rl_RemainingItemCount :: "ptr option"
  rl_Items :: header

text \<open>A cell holds a struct, a value a pointer leads to, or the backing array of a slice.\<close>

datatype cell =
    C_Module Module
  | C_VCS VCS
  | C_KeySelector KeySelector
  | C_EnvVarSource raw_EnvVarSource
  | C_Variable raw_Variable
  | C_RunTrigger RunTrigger
  | C_OutputSpec OutputSpec
  | C_OutputStatus OutputStatus
  | C_Notification raw_Notification
  | C_WorkspaceSpec raw_WorkspaceSpec
  | C_WorkspaceStatus raw_WorkspaceStatus
  | C_Workspace raw_Workspace
  | C_WorkspaceList raw_WorkspaceList
  | C_Time string
  | C_Bool bool
  | C_Int int
  | A_Strings "string list"
  | A_Pointers "ptr option list"
  | A_OwnerReferences "raw_OwnerReference list"
  | A_Workspaces "raw_Workspace list"

fun get_Module where "get_Module (C_Module x) = Some x" | "get_Module _ = None"
fun get_VCS where "get_VCS (C_VCS x) = Some x" | "get_VCS _ = None"
fun get_KeySelector where "get_KeySelector (C_KeySelector x) = Some x" | "get_KeySelector _ = None"
fun get_EnvVarSource where "get_EnvVarSource (C_EnvVarSource x) = Some x" | "get_EnvVarSource _ = None"
fun get_Variable where "get_Variable (C_Variable x) = Some x" | "get_Variable _ = None"
fun get_RunTrigger where "get_RunTrigger (C_RunTrigger x) = Some x" | "get_RunTrigger _ = None"
fun get_OutputSpec where "get_OutputSpec (C_OutputSpec x) = Some x" | "get_OutputSpec _ = None"
fun get_OutputStatus where "get_OutputStatus (C_OutputStatus x) = Some x" | "get_OutputStatus _ = None"
fun get_Notification where "get_Notification (C_Notification x) = Some x" | "get_Notification _ = None"
fun get_WorkspaceSpec where "get_WorkspaceSpec (C_WorkspaceSpec x) = Some x" | "get_WorkspaceSpec _ = None"
fun get_WorkspaceStatus where "get_WorkspaceStatus (C_WorkspaceStatus x) = Some x" | "get_WorkspaceStatus _ = None"
fun get_Workspace where "get_Workspace (C_Workspace x) = Some x" | "get_Workspace _ = None"
fun get_WorkspaceList where "get_WorkspaceList (C_WorkspaceList x) = Some x" | "get_WorkspaceList _ = None"
fun get_Time where "get_Time (C_Time x) = Some x" | "get_Time _ = None"
fun get_Bool where "get_Bool (C_Bool x) = Some x" | "get_Bool _ = None"
fun get_Int where "get_Int (C_Int x) = Some x" | "get_Int _ = None"
fun get_Strings where "get_Strings (A_Strings x) = Some x" | "get_Strings _ = None"
fun get_Pointers where "get_Pointers (A_Pointers x) = Some x" | "get_Pointers _ = None"
fun get_OwnerReferences where "get_OwnerReferences (A_OwnerReferences x) = Some x" | "get_OwnerReferences _ = None"
fun get_Workspaces where "get_Workspaces (A_Workspaces x) = Some x" | "get_Workspaces _ = None"

section \<open>Copying\<close>

text \<open>A struct without references is copied by assignment, \<open>*out = *in\<close>.\<close>

definition Module_DeepCopyInto :: "Module \<Rightarrow> (cell, Module) mem" where
  "Module_DeepCopyInto m = give m"

definition VCS_DeepCopyInto :: "VCS \<Rightarrow> (cell, VCS) mem" where
  "VCS_DeepCopyInto v = give v"

definition RunTrigger_DeepCopyInto :: "RunTrigger \<Rightarrow> (cell, RunTrigger) mem" where
  "RunTrigger_DeepCopyInto r = give r"

definition OutputSpec_DeepCopyInto :: "OutputSpec \<Rightarrow> (cell, OutputSpec) mem" where
  "OutputSpec_DeepCopyInto s = give s"

definition OutputStatus_DeepCopyInto :: "OutputStatus \<Rightarrow> (cell, OutputStatus) mem" where
  "OutputStatus_DeepCopyInto s = give s"

definition copy_strings :: "header \<Rightarrow> (cell, header) mem" where
  "copy_strings = copy_slice get_Strings A_Strings give"

definition Notification_DeepCopyInto :: "raw_Notification \<Rightarrow> (cell, raw_Notification) mem" where
  "Notification_DeepCopyInto n =
     also_then (copy_strings (rn_Triggers n)) (\<lambda>triggers.
     also_then (copy_strings (rn_Recipients n)) (\<lambda>recipients.
     also_then (copy_strings (rn_Users n)) (\<lambda>users.
     give (n\<lparr>rn_Triggers := triggers, rn_Recipients := recipients, rn_Users := users\<rparr>))))"

definition EnvVarSource_DeepCopyInto :: "raw_EnvVarSource \<Rightarrow> (cell, raw_EnvVarSource) mem" where
  "EnvVarSource_DeepCopyInto e =
     also_then (copy_opt (copy_new get_KeySelector C_KeySelector give) (re_ConfigMapKeyRef e)) (\<lambda>c.
     also_then (copy_opt (copy_new get_KeySelector C_KeySelector give) (re_SecretKeyRef e)) (\<lambda>s.
     give (e\<lparr>re_ConfigMapKeyRef := c, re_SecretKeyRef := s\<rparr>)))"

definition Variable_DeepCopyInto :: "raw_Variable \<Rightarrow> (cell, raw_Variable) mem" where
  "Variable_DeepCopyInto v =
     also_then (copy_opt (copy_new get_EnvVarSource C_EnvVarSource EnvVarSource_DeepCopyInto) (rv_ValueFrom v)) (\<lambda>f.
     give (v\<lparr>rv_ValueFrom := f\<rparr>))"

text \<open>A slice of pointers: a new array, and a new struct for every element that is not nil.\<close>

definition copy_pointers ::
  "(cell \<Rightarrow> 'r option) \<Rightarrow> ('r \<Rightarrow> cell) \<Rightarrow> ('r \<Rightarrow> (cell, 'r) mem) \<Rightarrow> header \<Rightarrow> (cell, header) mem" where
  "copy_pointers d con into = copy_slice get_Pointers A_Pointers (copy_opt (copy_new d con into))"

definition WorkspaceSpec_DeepCopyInto :: "raw_WorkspaceSpec \<Rightarrow> (cell, raw_WorkspaceSpec) mem" where
  "WorkspaceSpec_DeepCopyInto s =
     also_then (copy_opt (copy_new get_Module C_Module Module_DeepCopyInto) (rsp_Module s)) (\<lambda>m.
     also_then (copy_opt (copy_new get_VCS C_VCS VCS_DeepCopyInto) (rsp_VCS s)) (\<lambda>v.
     also_then (copy_pointers get_Variable C_Variable Variable_DeepCopyInto (rsp_Variables s)) (\<lambda>vs.
     also_then (copy_pointers get_RunTrigger C_RunTrigger RunTrigger_DeepCopyInto (rsp_RunTriggers s)) (\<lambda>ts.
     also_then (copy_pointers get_OutputSpec C_OutputSpec OutputSpec_DeepCopyInto (rsp_Outputs s)) (\<lambda>os.
     also_then (copy_pointers get_Notification C_Notification Notification_DeepCopyInto (rsp_Notifications s)) (\<lambda>ns.
     give (s\<lparr>rsp_Module := m, rsp_VCS := v, rsp_Variables := vs, rsp_RunTriggers := ts,
            rsp_Outputs := os, rsp_Notifications := ns\<rparr>)))))))"

definition WorkspaceStatus_DeepCopyInto :: "raw_WorkspaceStatus \<Rightarrow> (cell, raw_WorkspaceStatus) mem" where
  "WorkspaceStatus_DeepCopyInto s =
     also_then (copy_pointers get_OutputStatus C_OutputStatus OutputStatus_DeepCopyInto (rst_Outputs s)) (\<lambda>os.
     give (s\<lparr>rst_Outputs := os\<rparr>))"

definition OwnerReference_DeepCopyInto :: "raw_OwnerReference \<Rightarrow> (cell, raw_OwnerReference) mem" where
  "OwnerReference_DeepCopyInto r =
     also_then (copy_opt (copy_new get_Bool C_Bool give) (ro_Controller r)) (\<lambda>c.
     give (r\<lparr>ro_Controller := c\<rparr>))"

definition ObjectMeta_DeepCopyInto :: "raw_ObjectMeta \<Rightarrow> (cell, raw_ObjectMeta) mem" where
  "ObjectMeta_DeepCopyInto m =
     also_then (copy_opt (copy_new get_Time C_Time give) (rm_DeletionTimestamp m)) (\<lambda>d.
     also_then (copy_slice get_OwnerReferences A_OwnerReferences OwnerReference_DeepCopyInto (rm_OwnerReferences m)) (\<lambda>os.
     also_then (copy_strings (rm_Finalizers m)) (\<lambda>fs.
     give (m\<lparr>rm_DeletionTimestamp := d, rm_OwnerReferences := os, rm_Finalizers := fs\<rparr>))))"

definition Workspace_DeepCopyInto :: "raw_Workspace \<Rightarrow> (cell, raw_Workspace) mem" where
  "Workspace_DeepCopyInto w =
     also_then (ObjectMeta_DeepCopyInto (rw_ObjectMeta w)) (\<lambda>m.
     also_then (WorkspaceSpec_DeepCopyInto (rw_Spec w)) (\<lambda>sp.
     also_then (WorkspaceStatus_DeepCopyInto (rw_Status w)) (\<lambda>st.
     give (w\<lparr>rw_TypeMeta := rw_TypeMeta w, rw_ObjectMeta := m, rw_Spec := sp, rw_Status := st\<rparr>))))"

definition WorkspaceList_DeepCopyInto :: "raw_WorkspaceList \<Rightarrow> (cell, raw_WorkspaceList) mem" where
  "WorkspaceList_DeepCopyInto l =
     also_then (copy_opt (copy_new get_Int C_Int give) (rl_RemainingItemCount l)) (\<lambda>c.
     also_then (copy_slice get_Workspaces A_Workspaces Workspace_DeepCopyInto (rl_Items l)) (\<lambda>is.
     give (l\<lparr>rl_TypeMeta := rl_TypeMeta l, rl_RemainingItemCount := c, rl_Items := is\<rparr>)))"

text \<open>\<open>DeepCopy\<close>: nil for nil, else a new struct with \<open>DeepCopyInto\<close>. \<open>DeepCopyObject\<close> is the same as an interface.\<close>

definition Module_DeepCopy :: "ptr option \<Rightarrow> (cell, ptr option) mem" where
  "Module_DeepCopy = copy_opt (copy_new get_Module C_Module Module_DeepCopyInto)"

definition Notification_DeepCopy :: "ptr option \<Rightarrow> (cell, ptr option) mem" where
  "Notification_DeepCopy = copy_opt (copy_new get_Notification C_Notification Notification_DeepCopyInto)"

definition OutputSpec_DeepCopy :: "ptr option \<Rightarrow> (cell, ptr option) mem" where
  "OutputSpec_DeepCopy = copy_opt (copy_new get_OutputSpec C_OutputSpec OutputSpec_DeepCopyInto)"

definition OutputStatus_DeepCopy :: "ptr option \<Rightarrow> (cell, ptr option) mem" where
  "OutputStatus_DeepCopy = copy_opt (copy_new get_OutputStatus C_OutputStatus OutputStatus_DeepCopyInto)"

definition RunTrigger_DeepCopy :: "ptr option \<Rightarrow> (cell, ptr option) mem" where
  "RunTrigger_DeepCopy = copy_opt (copy_new get_RunTrigger C_RunTrigger RunTrigger_DeepCopyInto)"

definition VCS_DeepCopy :: "ptr option \<Rightarrow> (cell, ptr option) mem" where
  "VCS_DeepCopy = copy_opt (copy_new get_VCS C_VCS VCS_DeepCopyInto)"

definition Variable_DeepCopy :: "ptr option \<Rightarrow> (cell, ptr option) mem" where
  "Variable_DeepCopy = copy_opt (copy_new get_Variable C_Variable Variable_DeepCopyInto)"

definition Workspace_DeepCopy :: "ptr option \<Rightarrow> (cell, ptr option) mem" where
  "Workspace_DeepCopy = copy_opt (copy_new get_Workspace C_Workspace Workspace_DeepCopyInto)"

definition WorkspaceList_DeepCopy :: "ptr option \<Rightarrow> (cell, ptr option) mem" where
  "WorkspaceList_DeepCopy = copy_opt (copy_new get_WorkspaceList C_WorkspaceList WorkspaceList_DeepCopyInto)"

definition WorkspaceSpec_DeepCopy :: "ptr option \<Rightarrow> (cell, ptr option) mem" where
  "WorkspaceSpec_DeepCopy = copy_opt (copy_new get_WorkspaceSpec C_WorkspaceSpec WorkspaceSpec_DeepCopyInto)"

definition WorkspaceStatus_DeepCopy :: "ptr option \<Rightarrow> (cell, ptr option) mem" where
  "WorkspaceStatus_DeepCopy = copy_opt (copy_new get_WorkspaceStatus C_WorkspaceStatus WorkspaceStatus_DeepCopyInto)"

definition Workspace_DeepCopyObject :: "ptr option \<Rightarrow> (cell, ptr option) mem" where
  "Workspace_DeepCopyObject p =
     also_then (Workspace_DeepCopy p) (\<lambda>c. case c of Some q \<Rightarrow> give (Some q) | None \<Rightarrow> give None)"

definition WorkspaceList_DeepCopyObject :: "ptr option \<Rightarrow> (cell, ptr option) mem" where
  "WorkspaceList_DeepCopyObject p =
     also_then (WorkspaceList_DeepCopy p) (\<lambda>c. case c of Some q \<Rightarrow> give (Some q) | None \<Rightarrow> give None)"

end
