(* ===== verification/Deep_Copy_Views.thy ===== *)
theory Deep_Copy_Views
  imports Deep_Copy
begin

text \<open>
  What the structs in memory stand for, and that every generated function copies: its result has
  the same view and shares no cell with its argument.
\<close>

section \<open>Views\<close>

abbreviation view_value :: "(cell, 'r, 'r) view" where
  "view_value \<equiv> \<lambda>h x. Some x"

definition view_strings :: "(cell, header, string slice) view" where
  "view_strings = view_slice get_Strings view_value"

definition view_Notification :: "(cell, raw_Notification, Notification) view" where
  "view_Notification h n =
     map_option (\<lambda>(triggers, recipients, users).
         \<lparr>n_Type = rn_Type n, n_Enabled = rn_Enabled n, n_Name = rn_Name n, n_URL = rn_URL n,
          n_Token = rn_Token n, n_Triggers = triggers, n_Recipients = recipients, n_Users = users\<rparr>)
       (view_pair view_strings (view_pair view_strings view_strings) h
         (rn_Triggers n, rn_Recipients n, rn_Users n))"

abbreviation view_key :: "(cell, ptr option, KeySelector option) view" where
  "view_key \<equiv> view_opt (view_ptr get_KeySelector view_value)"

definition view_EnvVarSource :: "(cell, raw_EnvVarSource, EnvVarSource) view" where
  "view_EnvVarSource h e =
     map_option (\<lambda>(c, s). \<lparr>ConfigMapKeyRef = c, SecretKeyRef = s\<rparr>)
       (view_pair view_key view_key h (re_ConfigMapKeyRef e, re_SecretKeyRef e))"

definition view_Variable :: "(cell, raw_Variable, Variable) view" where
  "view_Variable h v =
     map_option (\<lambda>f. \<lparr>v_Key = rv_Key v, v_Value = rv_Value v, v_ValueFrom = f, v_HCL = rv_HCL v,
         v_Sensitive = rv_Sensitive v, v_EnvironmentVariable = rv_EnvironmentVariable v\<rparr>)
       (view_opt (view_ptr get_EnvVarSource view_EnvVarSource) h (rv_ValueFrom v))"

definition view_pointers ::
  "(cell \<Rightarrow> 'r option) \<Rightarrow> (cell, 'r, 'x) view \<Rightarrow> (cell, header, 'x option slice) view" where
  "view_pointers d v = view_slice get_Pointers (view_opt (view_ptr d v))"

text \<open>
  A specification stands for its plain fields (those that are references are nil in the first
  component) and for what its references lead to; nil and empty slices and nil elements are told apart.
\<close>

type_synonym spec_view =
  "raw_WorkspaceSpec \<times> Module option \<times> VCS option \<times> Variable option slice \<times> RunTrigger option slice
   \<times> OutputSpec option slice \<times> Notification option slice"

definition view_WorkspaceSpec :: "(cell, raw_WorkspaceSpec, spec_view) view" where
  "view_WorkspaceSpec h s =
     map_option (Pair (s\<lparr>rsp_Module := None, rsp_VCS := None, rsp_Variables := None, rsp_RunTriggers := None,
         rsp_Outputs := None, rsp_Notifications := None\<rparr>))
       (view_pair (view_opt (view_ptr get_Module view_value))
         (view_pair (view_opt (view_ptr get_VCS view_value))
         (view_pair (view_pointers get_Variable view_Variable)
         (view_pair (view_pointers get_RunTrigger view_value)
         (view_pair (view_pointers get_OutputSpec view_value)
                    (view_pointers get_Notification view_Notification))))) h
         (rsp_Module s, rsp_VCS s, rsp_Variables s, rsp_RunTriggers s, rsp_Outputs s, rsp_Notifications s))"

definition view_WorkspaceStatus :: "(cell, raw_WorkspaceStatus, raw_WorkspaceStatus \<times> OutputStatus option slice) view" where
  "view_WorkspaceStatus h s =
     map_option (Pair (s\<lparr>rst_Outputs := None\<rparr>)) (view_pointers get_OutputStatus view_value h (rst_Outputs s))"

definition view_OwnerReference :: "(cell, raw_OwnerReference, OwnerReference) view" where
  "view_OwnerReference h r =
     map_option (\<lambda>c. \<lparr>or_APIVersion = ro_APIVersion r, or_Kind = ro_Kind r, or_Name = ro_Name r,
         or_UID = ro_UID r, or_Controller = (c = Some True)\<rparr>)
       (view_opt (view_ptr get_Bool view_value) h (ro_Controller r))"

type_synonym meta_view = "raw_ObjectMeta \<times> string option \<times> OwnerReference slice \<times> string slice"

definition view_ObjectMeta :: "(cell, raw_ObjectMeta, meta_view) view" where
  "view_ObjectMeta h m =
     map_option (Pair (m\<lparr>rm_DeletionTimestamp := None, rm_OwnerReferences := None, rm_Finalizers := None\<rparr>))
       (view_pair (view_opt (view_ptr get_Time view_value))
         (view_pair (view_slice get_OwnerReferences view_OwnerReference) view_strings) h
         (rm_DeletionTimestamp m, rm_OwnerReferences m, rm_Finalizers m))"

type_synonym workspace_view =
  "(string \<times> string) \<times> meta_view \<times> spec_view \<times> raw_WorkspaceStatus \<times> OutputStatus option slice"

definition view_Workspace :: "(cell, raw_Workspace, workspace_view) view" where
  "view_Workspace h w =
     map_option (Pair (rw_TypeMeta w))
       (view_pair view_ObjectMeta (view_pair view_WorkspaceSpec view_WorkspaceStatus) h
         (rw_ObjectMeta w, rw_Spec w, rw_Status w))"

definition view_WorkspaceList ::
  "(cell, raw_WorkspaceList, raw_WorkspaceList \<times> int option \<times> workspace_view slice) view" where
  "view_WorkspaceList h l =
     map_option (Pair (l\<lparr>rl_RemainingItemCount := None, rl_Items := None\<rparr>))
       (view_pair (view_opt (view_ptr get_Int view_value)) (view_slice get_Workspaces view_Workspace) h
         (rl_RemainingItemCount l, rl_Items l))"

text \<open>The object at a pointer.\<close>

definition view_object :: "(cell, ptr, workspace_view) view" where
  "view_object = view_ptr get_Workspace view_Workspace"

text \<open>The value the rest of the development computes with, for an object without nil elements.\<close>

definition present :: "'a option slice \<Rightarrow> 'a list option" where
  "present s = those (elems s)"

fun workspace_of :: "workspace_view \<Rightarrow> Workspace option" where
  "workspace_of (_, (m, d, os, fs), (s, md, vcs, vs, ts, outs, ns), st, so) =
     (case (present vs, present ts, present outs, present ns, present so) of
        (Some vs', Some ts', Some outs', Some ns', Some so') \<Rightarrow>
          Some \<lparr>Meta = \<lparr>om_Name = rm_Name m, om_Namespace = rm_Namespace m, om_UID = rm_UID m,
                  om_Finalizers = elems fs, om_DeletionTimestamp = d, om_OwnerReferences = elems os\<rparr>,
                Spec = \<lparr>sp_Organization = rsp_Organization s, sp_Module = md, sp_VCS = vcs,
                  sp_Variables = vs', sp_RunTriggers = ts', sp_SecretsMountPath = rsp_SecretsMountPath s,
                  sp_SSHKeyID = rsp_SSHKeyID s, sp_Outputs = outs', sp_TerraformVersion = rsp_TerraformVersion s,
                  sp_AgentPoolID = rsp_AgentPoolID s, sp_Notifications = ns',
                  sp_OmitNamespacePrefix = rsp_OmitNamespacePrefix s, sp_AgentPoolName = rsp_AgentPoolName s\<rparr>,
                Status = \<lparr>st_RunStatus = rst_RunStatus st, st_WorkspaceID = rst_WorkspaceID st,
                  st_RunID = rst_RunID st, st_ConfigVersionID = rst_ConfigVersionID st,
                  st_Outputs = (case so of None \<Rightarrow> None | Some _ \<Rightarrow> Some so')\<rparr>\<rparr>
      | _ \<Rightarrow> None)"

section \<open>Every generated function copies\<close>

lemma copies_plain [copies_rules]:
  "copies view_value Module_DeepCopyInto" "copies view_value VCS_DeepCopyInto"
  "copies view_value RunTrigger_DeepCopyInto" "copies view_value OutputSpec_DeepCopyInto"
  "copies view_value OutputStatus_DeepCopyInto"
  unfolding Module_DeepCopyInto_def VCS_DeepCopyInto_def RunTrigger_DeepCopyInto_def
    OutputSpec_DeepCopyInto_def OutputStatus_DeepCopyInto_def
  by (rule copies_value)+

lemma copies_strings [copies_rules]: "copies view_strings copy_strings"
  unfolding view_strings_def copy_strings_def by (intro copies_rules) simp

lemma copies_pointers [copies_rules]:
  "copies v into \<Longrightarrow> (\<And>r. d (con r) = Some r) \<Longrightarrow> copies (view_pointers d v) (copy_pointers d con into)"
  unfolding view_pointers_def copy_pointers_def by (intro copies_rules) simp_all

lemma copies_Notification [copies_rules]: "copies view_Notification Notification_DeepCopyInto"
  by (rule copies_record [where fields = "\<lambda>n. (rn_Triggers n, rn_Recipients n, rn_Users n)"
        and upd = "\<lambda>n (t, r, u). n\<lparr>rn_Triggers := t, rn_Recipients := r, rn_Users := u\<rparr>",
      OF copies_pair [OF copies_strings copies_pair [OF copies_strings copies_strings]] _ view_Notification_def])
    (auto simp: Notification_DeepCopyInto_def split: prod.split)

lemma copies_key: "copies view_key (copy_opt (copy_new get_KeySelector C_KeySelector give))"
  by (intro copies_rules) simp

lemma copies_EnvVarSource [copies_rules]: "copies view_EnvVarSource EnvVarSource_DeepCopyInto"
  by (rule copies_record [where fields = "\<lambda>e. (re_ConfigMapKeyRef e, re_SecretKeyRef e)"
        and upd = "\<lambda>e (c, s). e\<lparr>re_ConfigMapKeyRef := c, re_SecretKeyRef := s\<rparr>",
      OF copies_pair [OF copies_key copies_key] _ view_EnvVarSource_def])
    (auto simp: EnvVarSource_DeepCopyInto_def split: prod.split)

lemma copies_Variable [copies_rules]: "copies view_Variable Variable_DeepCopyInto"
proof -
  have "copies (view_opt (view_ptr get_EnvVarSource view_EnvVarSource))
      (copy_opt (copy_new get_EnvVarSource C_EnvVarSource EnvVarSource_DeepCopyInto))"
    by (intro copies_rules) simp
  from copies_record [where fields = rv_ValueFrom and upd = "\<lambda>v f. v\<lparr>rv_ValueFrom := f\<rparr>",
      OF this _ view_Variable_def, of Variable_DeepCopyInto]
  show ?thesis by (simp_all add: Variable_DeepCopyInto_def)
qed

lemma copies_WorkspaceSpec [copies_rules]: "copies view_WorkspaceSpec WorkspaceSpec_DeepCopyInto"
proof -
  let ?m = "copy_opt (copy_new get_Module C_Module Module_DeepCopyInto)"
    and ?v = "copy_opt (copy_new get_VCS C_VCS VCS_DeepCopyInto)"
    and ?vs = "copy_pointers get_Variable C_Variable Variable_DeepCopyInto"
    and ?ts = "copy_pointers get_RunTrigger C_RunTrigger RunTrigger_DeepCopyInto"
    and ?os = "copy_pointers get_OutputSpec C_OutputSpec OutputSpec_DeepCopyInto"
    and ?ns = "copy_pointers get_Notification C_Notification Notification_DeepCopyInto"
  have "copies (view_pair (view_opt (view_ptr get_Module view_value))
         (view_pair (view_opt (view_ptr get_VCS view_value))
         (view_pair (view_pointers get_Variable view_Variable)
         (view_pair (view_pointers get_RunTrigger view_value)
         (view_pair (view_pointers get_OutputSpec view_value)
                    (view_pointers get_Notification view_Notification))))))
       (copy_pair ?m (copy_pair ?v (copy_pair ?vs (copy_pair ?ts (copy_pair ?os ?ns)))))"
    by (intro copies_rules) simp_all
  from copies_record [where fields = "\<lambda>s. (rsp_Module s, rsp_VCS s, rsp_Variables s, rsp_RunTriggers s,
        rsp_Outputs s, rsp_Notifications s)"
      and upd = "\<lambda>s (m, v, vs, ts, os, ns). s\<lparr>rsp_Module := m, rsp_VCS := v, rsp_Variables := vs,
        rsp_RunTriggers := ts, rsp_Outputs := os, rsp_Notifications := ns\<rparr>",
      OF this _ view_WorkspaceSpec_def, of WorkspaceSpec_DeepCopyInto]
  show ?thesis by (auto simp: WorkspaceSpec_DeepCopyInto_def split: prod.split)
qed

lemma copies_WorkspaceStatus [copies_rules]: "copies view_WorkspaceStatus WorkspaceStatus_DeepCopyInto"
proof -
  have "copies (view_pointers get_OutputStatus view_value)
      (copy_pointers get_OutputStatus C_OutputStatus OutputStatus_DeepCopyInto)"
    by (intro copies_rules) simp
  from copies_record [where fields = rst_Outputs and upd = "\<lambda>s os. s\<lparr>rst_Outputs := os\<rparr>",
      OF this _ view_WorkspaceStatus_def, of WorkspaceStatus_DeepCopyInto]
  show ?thesis by (simp_all add: WorkspaceStatus_DeepCopyInto_def)
qed

lemma copies_OwnerReference [copies_rules]: "copies view_OwnerReference OwnerReference_DeepCopyInto"
proof -
  have "copies (view_opt (view_ptr get_Bool view_value)) (copy_opt (copy_new get_Bool C_Bool give))"
    by (intro copies_rules) simp
  from copies_record [where fields = ro_Controller and upd = "\<lambda>r c. r\<lparr>ro_Controller := c\<rparr>",
      OF this _ view_OwnerReference_def, of OwnerReference_DeepCopyInto]
  show ?thesis by (simp_all add: OwnerReference_DeepCopyInto_def)
qed

lemma copies_ObjectMeta [copies_rules]: "copies view_ObjectMeta ObjectMeta_DeepCopyInto"
proof -
  have "copies (view_pair (view_opt (view_ptr get_Time view_value))
         (view_pair (view_slice get_OwnerReferences view_OwnerReference) view_strings))
       (copy_pair (copy_opt (copy_new get_Time C_Time give))
         (copy_pair (copy_slice get_OwnerReferences A_OwnerReferences OwnerReference_DeepCopyInto) copy_strings))"
    by (intro copies_rules) simp_all
  from copies_record [where fields = "\<lambda>m. (rm_DeletionTimestamp m, rm_OwnerReferences m, rm_Finalizers m)"
      and upd = "\<lambda>m (d, os, fs). m\<lparr>rm_DeletionTimestamp := d, rm_OwnerReferences := os, rm_Finalizers := fs\<rparr>",
      OF this _ view_ObjectMeta_def, of ObjectMeta_DeepCopyInto]
  show ?thesis by (auto simp: ObjectMeta_DeepCopyInto_def split: prod.split)
qed

lemma copies_Workspace [copies_rules]: "copies view_Workspace Workspace_DeepCopyInto"
  by (rule copies_record [where fields = "\<lambda>w. (rw_ObjectMeta w, rw_Spec w, rw_Status w)"
        and upd = "\<lambda>w (m, sp, st). w\<lparr>rw_ObjectMeta := m, rw_Spec := sp, rw_Status := st\<rparr>",
      OF copies_pair [OF copies_ObjectMeta copies_pair [OF copies_WorkspaceSpec copies_WorkspaceStatus]]
        _ view_Workspace_def])
    (auto simp: Workspace_DeepCopyInto_def split: prod.split)

lemma copies_WorkspaceList [copies_rules]: "copies view_WorkspaceList WorkspaceList_DeepCopyInto"
proof -
  have "copies (view_pair (view_opt (view_ptr get_Int view_value)) (view_slice get_Workspaces view_Workspace))
      (copy_pair (copy_opt (copy_new get_Int C_Int give))
        (copy_slice get_Workspaces A_Workspaces Workspace_DeepCopyInto))"
    by (intro copies_rules) simp_all
  from copies_record [where fields = "\<lambda>l. (rl_RemainingItemCount l, rl_Items l)"
      and upd = "\<lambda>l (c, is). l\<lparr>rl_RemainingItemCount := c, rl_Items := is\<rparr>",
      OF this _ view_WorkspaceList_def, of WorkspaceList_DeepCopyInto]
  show ?thesis by (auto simp: WorkspaceList_DeepCopyInto_def split: prod.split)
qed

lemma copies_DeepCopy:
  "copies (view_opt view_object) Workspace_DeepCopy"
  "copies (view_opt (view_ptr get_WorkspaceList view_WorkspaceList)) WorkspaceList_DeepCopy"
  "copies (view_opt (view_ptr get_WorkspaceSpec view_WorkspaceSpec)) WorkspaceSpec_DeepCopy"
  "copies (view_opt (view_ptr get_WorkspaceStatus view_WorkspaceStatus)) WorkspaceStatus_DeepCopy"
  "copies (view_opt (view_ptr get_Variable view_Variable)) Variable_DeepCopy"
  "copies (view_opt (view_ptr get_Notification view_Notification)) Notification_DeepCopy"
  "copies (view_opt (view_ptr get_Module view_value)) Module_DeepCopy"
  "copies (view_opt (view_ptr get_VCS view_value)) VCS_DeepCopy"
  "copies (view_opt (view_ptr get_RunTrigger view_value)) RunTrigger_DeepCopy"
  "copies (view_opt (view_ptr get_OutputSpec view_value)) OutputSpec_DeepCopy"
  "copies (view_opt (view_ptr get_OutputStatus view_value)) OutputStatus_DeepCopy"
  unfolding Workspace_DeepCopy_def view_object_def WorkspaceList_DeepCopy_def WorkspaceSpec_DeepCopy_def
    WorkspaceStatus_DeepCopy_def Variable_DeepCopy_def Notification_DeepCopy_def Module_DeepCopy_def
    VCS_DeepCopy_def RunTrigger_DeepCopy_def OutputSpec_DeepCopy_def OutputStatus_DeepCopy_def
  by (intro copies_rules; simp)+

lemma DeepCopyObject_eq:
  "Workspace_DeepCopyObject p = Workspace_DeepCopy p" "WorkspaceList_DeepCopyObject p = WorkspaceList_DeepCopy p"
  by (auto simp: Workspace_DeepCopyObject_def WorkspaceList_DeepCopyObject_def also_then_def give_def fun_eq_iff
      split: option.split)

section \<open>The interface of the copies\<close>

interpretation workspace_copy: deep_copy "view_opt view_object" Workspace_DeepCopy
  by unfold_locales (rule copies_DeepCopy)

interpretation list_copy: deep_copy "view_opt (view_ptr get_WorkspaceList view_WorkspaceList)" WorkspaceList_DeepCopy
  by unfold_locales (rule copies_DeepCopy)

interpretation variable_copy: deep_copy "view_opt (view_ptr get_Variable view_Variable)" Variable_DeepCopy
  by unfold_locales (rule copies_DeepCopy)

interpretation notification_copy: deep_copy "view_opt (view_ptr get_Notification view_Notification)" Notification_DeepCopy
  by unfold_locales (rule copies_DeepCopy)

end
