(* ===== verification/Deep_Copy_Safe.thy ===== *)
theory Deep_Copy_Safe
  imports Deep_Copy_Views
begin

text \<open>
  What the copies are for: a reconcile works on a copy of the object in the cache, and stores the
  values of Secrets in the variables of this copy; the cached object does not change.
\<close>

section \<open>Copies of objects\<close>

lemma DeepCopyObject_copy:
  assumes "view_object h p = Some x"
  obtains q h' where "Workspace_DeepCopyObject (Some p) h = Some (Some q, h')" "prefix h h'"
    "\<forall>g. take (length h) g = h \<longrightarrow> view_object g p = Some x" "above (length h) view_object h' q x"
proof -
  from assms have "view_opt view_object h (Some p) = Some (Some x)" by simp
  from workspace_copy.isolated [OF this] obtain r' h' where
    copy: "Workspace_DeepCopy (Some p) h = Some (r', h')" "prefix h h'"
    and old: "\<And>g. take (length h) g = h \<Longrightarrow> view_opt view_object g (Some p) = Some (Some x)"
    and new: "above (length h) (view_opt view_object) h' r' (Some x)" by metis
  from aboveD [OF new] obtain q where q: "r' = Some q" by (cases r') auto
  from old have "view_object g p = Some x" if "take (length h) g = h" for g
    using that by fastforce
  moreover from new have "above (length h) view_object h' q x"
    unfolding above_def by (fastforce simp: q)
  ultimately show thesis using copy q by (intro that) (simp_all add: DeepCopyObject_eq)
qed

text \<open>
  C38. \<open>DeepCopyObject\<close> of an object that is well-formed in memory returns a new object that stands
  for the same value, nil and empty slices told apart. The two share nothing: no write to a cell
  that the copy brought along changes the original, and none to an older cell changes the copy.
\<close>
theorem DeepCopyObject_isolated:
  assumes "view_object h p = Some x"
  shows "\<exists>q h'. Workspace_DeepCopyObject (Some p) h = Some (Some q, h') \<and> prefix h h' \<and>
    (\<forall>g. take (length h) g = h \<longrightarrow> view_object g p = Some x) \<and>
    (\<forall>g. length g = length h' \<longrightarrow> drop (length h) g = drop (length h) h' \<longrightarrow> view_object g q = Some x)"
  using assms by (rule DeepCopyObject_copy) (unfold above_def, blast)

section \<open>Writing to the variables of a copy\<close>

definition store :: "ptr \<Rightarrow> cell \<Rightarrow> (cell, unit) mem" where
  "store p c = (\<lambda>h. if p < length h then Some ((), h[p := c]) else None)"

text \<open>The pointer \<open>instance.Spec.Variables[i]\<close>, and the assignment to its \<open>Value\<close>.\<close>

definition variable_ptr :: "ptr \<Rightarrow> nat \<Rightarrow> (cell, ptr) mem" where
  "variable_ptr q i =
     also_then (load get_Workspace q) (\<lambda>w.
     case rsp_Variables (rw_Spec w) of
       None \<Rightarrow> stuck
     | Some (a, j, n) \<Rightarrow>
         also_then (load get_Pointers a) (\<lambda>ps.
         if i < n \<and> j + i < length ps then (case ps ! (j + i) of None \<Rightarrow> stuck | Some b \<Rightarrow> give b) else stuck))"

definition set_variable_value :: "ptr \<Rightarrow> nat \<Rightarrow> string \<Rightarrow> (cell, unit) mem" where
  "set_variable_value q i s =
     also_then (variable_ptr q i) (\<lambda>b.
     also_then (load get_Variable b) (\<lambda>v. store b (C_Variable (v\<lparr>rv_Value := s\<rparr>))))"

fun set_variable_values :: "ptr \<Rightarrow> (nat \<times> string) list \<Rightarrow> (cell, unit) mem" where
  "set_variable_values q [] = give ()"
| "set_variable_values q ((i, s) # ws) =
     also_then (set_variable_value q i s) (\<lambda>_. set_variable_values q ws)"

lemma variable_ptr_Some:
  "variable_ptr q i h = Some (b, h') \<longleftrightarrow>
     h' = h \<and> (\<exists>w a j n ps. cell_at get_Workspace h q = Some w \<and> rsp_Variables (rw_Spec w) = Some (a, j, n) \<and>
       cell_at get_Pointers h a = Some ps \<and> i < n \<and> j + i < length ps \<and> ps ! (j + i) = Some b)"
  by (auto simp: variable_ptr_def also_then_def load_def give_def stuck_def split: option.splits if_splits)

lemma cell_at_update:
  "cell_at d (h[p := c]) a = (if a = p \<and> p < length h then d c else cell_at d h a)"
  by (simp add: cell_at_def)

lemma view_list_element: "view_list v h rs = Some xs \<Longrightarrow> r \<in> set rs \<Longrightarrow> v h r \<noteq> None"
  by (induction rs arbitrary: xs) (auto split: option.splits)

lemma view_object_variables:
  assumes "view_object h q = Some x"
  obtains w where "cell_at get_Workspace h q = Some w"
    "view_pointers get_Variable view_Variable h (rsp_Variables (rw_Spec w)) \<noteq> None"
  using assms
  by (auto simp: view_object_def view_ptr_def view_Workspace_def view_WorkspaceSpec_def split: option.splits)

lemma variable_ptr_cell:
  assumes "view_object h q = Some x" and "variable_ptr q i h = Some (b, h')"
  shows "cell_at get_Variable h b \<noteq> None"
proof -
  from assms(2) obtain w a j n ps where w: "cell_at get_Workspace h q = Some w"
    "rsp_Variables (rw_Spec w) = Some (a, j, n)" "cell_at get_Pointers h a = Some ps"
    and i: "i < n" "j + i < length ps" "ps ! (j + i) = Some b" by (auto simp: variable_ptr_Some)
  from assms(1) w(1) have "view_pointers get_Variable view_Variable h (rsp_Variables (rw_Spec w)) \<noteq> None"
    by (auto elim: view_object_variables)
  with w obtain ys where ys: "view_list (view_opt (view_ptr get_Variable view_Variable)) h (take n (drop j ps)) = Some ys"
    by (auto simp: view_pointers_def split: if_splits)
  from i have "Some b \<in> set (take n (drop j ps))" unfolding in_set_conv_nth by (intro exI [of _ i]) simp
  from view_list_element [OF ys this] show ?thesis by (auto simp: view_ptr_def split: option.splits)
qed

text \<open>The variables of a new object are new.\<close>

lemma variable_ptr_new:
  assumes x: "above lo view_object h q x" and b: "variable_ptr q i h = Some (b, h)"
  shows "lo \<le> b"
proof (rule ccontr)
  assume "\<not> lo \<le> b"
  let ?g = "h[b := C_Int 0]"
  from \<open>\<not> lo \<le> b\<close> x have g: "view_object ?g q = Some x" by (simp add: above_def)
  from g obtain w where "cell_at get_Workspace ?g q = Some w"
    and vs: "view_pointers get_Variable view_Variable ?g (rsp_Variables (rw_Spec w)) \<noteq> None"
    by (rule view_object_variables)
  then have "q \<noteq> b \<or> \<not> b < length h" "cell_at get_Workspace h q = Some w"
    by (auto simp: cell_at_update split: if_splits)
  with b vs have "variable_ptr q i ?g = Some (b, ?g)"
    by (auto simp: variable_ptr_Some view_pointers_def cell_at_update split: if_splits option.splits)
  from variable_ptr_cell [OF g this] have "cell_at get_Variable ?g b \<noteq> None" .
  moreover have "cell_at get_Variable ?g b = None" by (simp add: cell_at_def)
  ultimately show False by simp
qed

lemma set_variable_value_Some:
  "set_variable_value q i s h = Some (u, h') \<longleftrightarrow>
     (\<exists>b v. variable_ptr q i h = Some (b, h) \<and> cell_at get_Variable h b = Some v \<and>
        h' = h[b := C_Variable (v\<lparr>rv_Value := s\<rparr>)])"
proof -
  have "variable_ptr q i h = Some (b, h2) \<Longrightarrow> h2 = h" for b h2 by (simp add: variable_ptr_Some)
  then show ?thesis
    by (auto simp: set_variable_value_def also_then_def load_def store_def cell_at_def
        split: option.splits if_splits)
qed

lemma variable_ptr_kept:
  assumes "cell_at get_Variable h b = Some v" and "variable_ptr q i (h[b := C_Variable v']) = Some (c, g)"
  shows "variable_ptr q i h = Some (c, h)"
  using assms by (fastforce simp: variable_ptr_Some cell_at_update split: if_splits)

lemma set_variable_values_above:
  assumes "\<And>i b. variable_ptr q i h = Some (b, h) \<Longrightarrow> lo \<le> b"
    and "set_variable_values q ws h = Some (u, g)"
  shows "take lo g = take lo h"
  using assms
proof (induction ws arbitrary: h)
  case Nil
  then show ?case by (simp add: give_def)
next
  case (Cons w ws)
  obtain i s where "w = (i, s)" by (cases w)
  with Cons.prems(2) obtain h1 where h1: "set_variable_value q i s h = Some ((), h1)"
    and rest: "set_variable_values q ws h1 = Some (u, g)"
    by (auto simp: also_then_def split: option.splits)
  from h1 obtain b v where b: "variable_ptr q i h = Some (b, h)" and v: "cell_at get_Variable h b = Some v"
    and eq: "h1 = h[b := C_Variable (v\<lparr>rv_Value := s\<rparr>)]" by (auto simp: set_variable_value_Some)
  have "lo \<le> c" if "variable_ptr q k h1 = Some (c, h1)" for k c
    using that Cons.prems(1) variable_ptr_kept [OF v] unfolding eq by blast
  from Cons.IH [OF this rest] have "take lo g = take lo h1" .
  with Cons.prems(1) [OF b] show ?case by (simp add: eq)
qed

text \<open>
  C39. Whatever values a reconcile stores in the variables of its copy of an object, the object in
  the cache keeps its own: the values of Secrets do not leak into it.
\<close>
theorem cache_keeps_variables:
  assumes "view_object h p = Some x"
    and "Workspace_DeepCopyObject (Some p) h = Some (Some q, h')"
    and "set_variable_values q ws h' = Some (u, g)"
  shows "view_object g p = Some x"
proof -
  from assms(1) obtain q' h1 where copy: "Workspace_DeepCopyObject (Some p) h = Some (Some q', h1)" "prefix h h1"
    and old: "\<forall>g. take (length h) g = h \<longrightarrow> view_object g p = Some x"
    and "above (length h) view_object h1 q' x" by (rule DeepCopyObject_copy)
  with assms(2) have "prefix h h'" and new: "above (length h) view_object h' q x" by simp_all
  from set_variable_values_above [OF variable_ptr_new [OF new] assms(3)]
  have "take (length h) g = take (length h) h'" .
  with \<open>prefix h h'\<close> have "take (length h) g = h" by (auto elim: prefixE)
  with old show ?thesis by blast
qed

section \<open>An example\<close>

text \<open>A cached object with one sensitive variable and a nil one.\<close>

definition example_raw :: raw_Workspace where
  "example_raw = \<lparr>rw_TypeMeta = (''Workspace'', ''app.terraform.io/v1alpha1''),
     rw_ObjectMeta = \<lparr>rm_Name = ''hello'', rm_Namespace = ''prod'', rm_UID = ''uid'', rm_Finalizers = Some (2, 0, 1),
       rm_DeletionTimestamp = None, rm_OwnerReferences = None\<rparr>,
     rw_Spec = \<lparr>rsp_Organization = ''world'', rsp_Module = None, rsp_VCS = None, rsp_Variables = Some (1, 1, 2),
       rsp_RunTriggers = None, rsp_SecretsMountPath = ''/tmp'', rsp_SSHKeyID = '''', rsp_Outputs = None,
       rsp_TerraformVersion = '''', rsp_AgentPoolID = '''', rsp_Notifications = None,
       rsp_OmitNamespacePrefix = False, rsp_AgentPoolName = ''''\<rparr>,
     rw_Status = \<lparr>rst_RunStatus = '''', rst_WorkspaceID = '''', rst_RunID = '''', rst_ConfigVersionID = '''',
       rst_Outputs = None\<rparr>\<rparr>"

definition example_token :: raw_Variable where
  "example_token = \<lparr>rv_Key = ''token'', rv_Value = '''', rv_ValueFrom = None, rv_HCL = False,
     rv_Sensitive = True, rv_EnvironmentVariable = False\<rparr>"

definition example_cache :: "cell list" where
  "example_cache = [C_Variable example_token, A_Pointers [Some 3, None, Some 0],
     A_Strings [''finalizer.workspace.app.terraform.io''], C_Workspace example_raw]"

lemma example_view: "\<exists>x. view_object example_cache 3 = Some x"
  by (simp add: view_object_def view_ptr_def cell_at_def example_cache_def view_Workspace_def
      view_WorkspaceSpec_def view_WorkspaceStatus_def view_ObjectMeta_def view_strings_def view_pointers_def
      view_Variable_def example_raw_def example_token_def numeral_nat)

definition example_copied :: "cell list" where
  "example_copied = example_cache @ [A_Strings [''finalizer.workspace.app.terraform.io''],
     C_Variable example_token, A_Pointers [None, Some 5],
     C_Workspace (example_raw\<lparr>rw_ObjectMeta := (rw_ObjectMeta example_raw)\<lparr>rm_Finalizers := Some (4, 0, 1)\<rparr>,
       rw_Spec := (rw_Spec example_raw)\<lparr>rsp_Variables := Some (6, 0, 2)\<rparr>\<rparr>)]"

lemma example_copy: "Workspace_DeepCopyObject (Some 3) example_cache = Some (Some 7, example_copied)"
  by code_simp

lemma example_secret: "set_variable_values 7 [(1, ''s3cret'')] example_copied =
  Some ((), example_copied[5 := C_Variable (example_token\<lparr>rv_Value := ''s3cret''\<rparr>)])"
  by code_simp

lemma DeepCopyObject_isolated_witness:
  "\<exists>q h'. Workspace_DeepCopyObject (Some 3) example_cache = Some (Some q, h')"
proof -
  from example_view obtain x where "view_object example_cache 3 = Some x" by blast
  from DeepCopyObject_isolated [OF this] show ?thesis by blast
qed

lemma cache_keeps_variables_witness:
  "view_object (example_copied[5 := C_Variable (example_token\<lparr>rv_Value := ''s3cret''\<rparr>)]) 3 = view_object example_cache 3"
proof -
  from example_view obtain x where x: "view_object example_cache 3 = Some x" by blast
  from cache_keeps_variables [OF x example_copy example_secret] x show ?thesis by simp
qed

end
