(* ===== verification/Spec2Isabelle.thy ===== *)
theory Spec2Isabelle
  imports K8s_Properties Variables_Converge Reconcile_Safety Reconcile_Runs Reconcile_Lifecycle Reconcile_Guarded
    Controller_Progress Steady_State Own_Organization Crash_Causes Request_Types
    Restart_Safe Refused_Triggers Command_Line Api_Scheme Deep_Copy_Safe
begin

text \<open>
  A verification development of the Terraform Cloud operator for Kubernetes.

  \<^bold>\<open>The program.\<close> The operator watches \<open>Workspace\<close> objects of a Kubernetes cluster and keeps, for each
  of them, a workspace of a Terraform Cloud organization: it creates and configures it, writes its
  variables, run triggers and notifications, uploads a configuration rendered from the object,
  starts runs, copies the outputs of the finished run into the status of the object and a Secret,
  and destroys everything when the object is deleted. All of this happens in one function,
  \<open>Reconcile\<close> of \<open>workspacehelper/workspace_helper.go\<close>, which the controller calls again and again
  with the name of an object; it keeps no state of its own between calls beyond two fields of the
  client, so that the state of the system is the object, with its status, and the remote services.

  \<^bold>\<open>How it is modelled.\<close> A Go function that talks to the outside is a computation of type \<open>'a go\<close>
  (theory \<open>Runtime\<close>): it gets an environment, the history of requests and answers, and the two
  mutable fields of the client, and returns the outcome (a value, a non-nil error or a panic), the
  fields and the requests it sent with their answers; \<open>None\<close> is a call that never returns, of whose
  requests nothing is said. The
  environment \<open>env\<close> is one parameter that answers any request with an error or any response,
  depending on the whole history, so every theorem holds for all behaviours of Terraform Cloud,
  of the API server, of the file system and of other clients, unless a hypothesis says otherwise.
  \<open>andThen\<close> sequences; a Go error return is \<open>fail\<close>, a deliberately ignored error \<open>attempt\<close>. Logging is
  left out. Pure functions are HOL functions, structs are records, errors are the datatype
  \<open>go_error\<close> with Go's sentinel errors as constructors, nil pointers and slices are \<open>None\<close>.

  \<^bold>\<open>The theories,\<close> in the order of their imports, and what they stand for:

  \<^item> \<open>Prelude\<close>: theorem collections, Go slices, maps and strings, and the locale \<open>key_search\<close>, the
    interface of a first-match search with the plans a synchronisation computes from it;
  \<^item> \<open>Api_Types\<close>: \<open>api/v1alpha1/workspace_types.go\<close> and the objects and options of \<open>go-tfe\<close>;
  \<^item> \<open>Runtime\<close>, \<open>Effects\<close>, \<open>Trace_Rules\<close>: computations and the calculi about them: inversion of runs,
    which requests are sent (\<open>emits\<close>), at most once and last (\<open>once\<close>), which values are returned
    (\<open>yields\<close>), that a call returns (\<open>returns\<close>), that the client is left alone (\<open>keeps_client\<close>);
  \<^item> \<open>Tfe_Client\<close>, \<open>Kube_Client\<close>: the methods of the vendored clients that the operator calls, with
    their checks of arguments, and \<open>SetControllerReference\<close>;
  \<^item> \<open>Helper\<close>: \<open>helper.go\<close>, with the backing array that \<open>remove\<close> shifts while it ranges over it;
  \<^item> \<open>K8s_Objects\<close>, \<open>K8s_Properties\<close>: \<open>k8s_configmap.go\<close>, \<open>k8s_secret.go\<close>;
  \<^item> \<open>Template\<close>: the text that \<open>terraform.go\<close> renders, and what of a workspace it determines;
  \<^item> \<open>Variables_Sync\<close>, \<open>RunTriggers_Sync\<close>, \<open>Notifications_Sync\<close>: \<open>tfc_variable.go\<close>,
    \<open>tfc_run_trigger.go\<close> and the notifications of \<open>tfc_org.go\<close>; the first two interpret
    \<open>key_search\<close> with \<open>find\<close> and \<open>findRT\<close>;
  \<^item> \<open>Variables_Converge\<close>: the variables in a closed loop with a service that does what it is asked;
  \<^item> \<open>Workspaces_Sync\<close>: workspaces, SSH keys and agent pools of \<open>tfc_org.go\<close>;
  \<^item> \<open>Runs_Control\<close>: \<open>tfc_run.go\<close>, with the polling loop of \<open>DeleteResources\<close>;
  \<^item> \<open>Outputs\<close>: \<open>tfc_output.go\<close>, with the conversion of values to text;
  \<^item> \<open>Reconciler\<close>: \<open>workspace_helper.go\<close>, one definition per method and \<open>Reconcile\<close> on top;
  \<^item> \<open>Reconcile_Effects\<close>, \<open>Reconcile_Examples\<close>, \<open>Reconcile_Safety\<close>, \<open>Reconcile_Runs\<close>,
    \<open>Reconcile_Guarded\<close>, \<open>Reconcile_Lifecycle\<close>: the properties of \<open>Reconcile\<close> as a whole;
  \<^item> \<open>Go_Url\<close>, \<open>Build_Version\<close>, \<open>Client_Config\<close>: \<open>url.Parse\<close> of Go's library, \<open>version/version.go\<close>, and
    how \<open>createTerraformConfig\<close>, \<open>GetClient\<close> and \<open>NewWorkspaceHelper\<close> obtain the client;
  \<^item> \<open>Controller_Watch\<close>: \<open>controllers/workspace_controller.go\<close> and the end of \<open>main.go\<close>;
  \<^item> \<open>Work_Queue\<close>, \<open>Controller_Loop\<close>, \<open>Controller_Timing\<close>, \<open>Controller_Progress\<close>: the queue of the controller, with
    the locales \<open>work_queue\<close> and \<open>fifo_queue\<close> as its interface, and the system of watches, delays and workers
    around \<open>Reconcile\<close>, a step relation;
  \<^item> \<open>Read_Only\<close>, \<open>Steady_State\<close>: a Hoare logic for computations that only read, and objects at rest;
  \<^item> \<open>Own_Organization\<close>: which organization the requests of the operator go to;
  \<^item> \<open>Crash_Causes\<close>: a calculus that traces panics to answers, and all answers that crash the operator;
  \<^item> \<open>Object_Owners\<close>: a Hoare logic over histories: what is created belongs to the object answered last;
  \<^item> \<open>Request_Types\<close>: the types of requests, and a calculus for computations that send only well-formed ones;
  \<^item> \<open>Restart_Safe\<close>: a relational calculus for runs from two clients, and that a reconcile depends on no client;
  \<^item> \<open>Refused_Triggers\<close>: a Hoare logic in one environment, and what a run trigger does that is never created;
  \<^item> \<open>Command_Line\<close>: the flags, their parsing, and \<open>main\<close> of \<open>main.go\<close> as a whole;
  \<^item> \<open>Api_Scheme\<close>: \<open>groupversion_info.go\<close>, the \<open>init\<close> functions, and the kinds the scheme then gives to types;
  \<^item> \<open>Object_Store\<close>, \<open>Deep_Copy\<close>, \<open>Deep_Copy_Views\<close>, \<open>Deep_Copy_Safe\<close>: the generated deep copies of
    \<open>api/v1alpha1/zz_generated.deepcopy.go\<close> over an explicit store of cells, and the locale \<open>deep_copy\<close>,
    their interface, which \<open>DeepCopy\<close> of the types interprets.

  \<^bold>\<open>What is shown.\<close> Of a whole reconcile: a workspace is deleted only for an object that is marked and
  carries the finalizer, after its resources were destroyed; live objects get apply runs only, at
  most one per reconcile, and only when something changed; runs are not touched before the finalizer
  is on the object; while a run is pending nothing else happens; the statuses that are written follow
  the state machine \<open>status_step\<close>, shown below. Of the synchronisations: exactly which deletions,
  creations and updates a success implies, and that the next one of the variables finds nothing to do (and with two
  values for one key, always something). Of the polling and the conversion loops: when they end.
  Of the rendered template: what it determines. Of the start: whose token goes to which host, and how
  arguments reach the manager. Of deep copies: same value, nothing shared. Of the operator as a system: an
  object that was ever added stays scheduled until it is gone or released, one reconcile runs at a
  time, in which order and how late objects come back, and that a scheduled one can always still reach a
  worker unless a reconcile never ends, in which case its worker is lost; requests go to the organization of the object
  read last, although all reconciles share a client; a crash has one of four causes among the answers;
  every request is well-formed, so that names and IDs cannot reach other parts of a service, and what is created
  belongs to the object read last; a reconcile does the same whatever earlier ones left in the client, so that the process
  may be restarted between any two; nothing at all is written while every object is as its spec says and names no SSH key;
  and an object whose run trigger is refused never gets there. What is said of the history of the system is said of
  the requests of the reconciles that ended: one that never returns, like one that polls a destroy run for ever,
  keeps its worker, and its requests are not in the history. Several theorems prove defects of the code; they say so.

  \<^bold>\<open>Loops.\<close> The polling loop of \<open>DeleteResources\<close> may run forever and is a \<open>partial_function\<close>;
  \<open>DeleteResources_returns_iff\<close> says exactly when it returns. The conversion of output values
  recurses through decoded JSON strings, whose decoder is a parameter, and is a \<open>partial_function\<close> too; it always
  ends if the decoder decodes JSON (\<open>decodes_json\<close>: the text of an array or object opens a bracket and spells out
  the strings of its value, so that brackets and backslashes get fewer at each level). All other loops
  are structural.

  \<^bold>\<open>Parameters.\<close> Not in the repository, or vendored codecs, and therefore arguments: the answers of the
  services; \<open>codecs\<close>, the decoders of JSON strings and of state files; the loaded CLI configuration,
  the environment variables and the first ping; the REST mapper; errors of the controller-runtime
  library; the registration of the built-in types in the scheme; the delay of the token bucket that limits all
  retries together. Hypotheses about them are assumed only where they are named: \<open>keeps_status\<close>, \<open>keeps_metadata\<close> and
  \<open>keeps_triggers\<close> say that the API server answers an acknowledged write with what was written, \<open>serves_variables\<close> that
  Terraform Cloud does what its API documents, \<open>never_lists\<close> and \<open>has_versions\<close> describe the service of one scenario,
  \<open>at_rest\<close> services that agree with a spec, and \<open>decodes_json\<close> a decoder of JSON.

  \<^bold>\<open>Not modelled.\<close> Log lines, HTTP and JSON:API encoding; \<open>SetupWithManager\<close>, which nothing calls; metadata the operator
  does not use; the conversions and defaults of a scheme; the caches behind the watches and the
  election of a leader, which are libraries; metrics; \<open>tools.go\<close>, which has only imports; test code.
\<close>

section \<open>The life of a status\<close>

text \<open>
  Every theory proves the properties of its component. The one below spans them all: it is the abstract
  specification of what the operator does to the status of an object.
\<close>

text \<open>
  C9. Every reconcile follows the life of a workspace: the statuses it writes, in order, from the
  status of the object it read, are steps of the state machine \<open>status_step\<close>, whatever the
  servers answer, however it ends, as long as the API server keeps the status of the writes it
  acknowledges.
\<close>
theorem Reconcile_follows_lifecycle:
  assumes "keeps_status E"
    and "Reconcile C nn E h t = Some (r, t', ev)"
    and "E h (Kube (Get_Workspace nn)) = Inr (R_Resource w)"
  shows "chain status_step (Status w) (sent status_write ev)"
  using assms(2)
proof (cases rule: Reconcile_courses)
  case (stopped r0)
  with no_status_before show ?thesis by simp
next
  case (marked w' t1 ev1 ev2 r1)
  with no_status_before no_status_deleting show ?thesis by simp
next
  case (live w' t1 ev1 ev2)
  with initialize_answer [OF live(1) assms(3)] no_status_before [OF live(1)]
    lifeD [OF life_reconcileLive assms(1) live(3)] show ?thesis by simp
qed

lemma Reconcile_follows_lifecycle_witness:
  "status_step (Status (example_known ''planning'')) ((Status (example_known ''planning''))\<lparr>st_RunStatus := ''applied''\<rparr>)"
proof -
  have "keeps_status (example_world (example_known ''planning''))" by (simp add: keeps_status_def)
  from Reconcile_follows_lifecycle [OF this example_polling_run]
  show ?thesis by (simp add: example_polling_def example_entry_def)
qed

end
